(* ===== verification/Prelude.thy ===== *)
theory Prelude
  imports Complex_Main "HOL-Library.Word"
begin

text \<open>
  Shared vocabulary of the development: the types that stand for JavaScript values of the
  sources (strings as sequences of UTF-16 code units, byte arrays, thrown errors), the result
  type of code that may throw, and the generic lemmas on lists, digits and words that the
  component theories use.

  A JavaScript string is a list of UTF-16 code units (\<open>ustring\<close>); \<open>u ''abc''\<close> is the literal
  \<open>"abc"\<close>. A \<open>Uint8Array\<close> is a list of bytes. A \<open>BigInt\<close> is an \<open>int\<close>, on which
  \<open>AND\<close>, \<open>OR\<close>, \<open>push_bit\<close> and \<open>drop_bit\<close> are the two's complement operators of the
  language.
\<close>

unbundle bit_operations_syntax

section \<open>Types\<close>

type_synonym ustring = "nat list"
type_synonym byte = "8 word"
type_synonym bytes = "8 word list"
type_synonym u32 = "32 word"

datatype js_error =
    Error ustring
  | TypeError
  | RangeError
  | SyntaxError
  | NetworkError

type_synonym 'a res = "js_error + 'a"

named_theorems js_simps \<open>evaluation rules of the JavaScript vocabulary\<close>

section \<open>String literals\<close>

definition u :: "string \<Rightarrow> ustring" where
  "u s = map of_char s"

lemma u_simps [simp, js_simps]:
  "u [] = []"
  "u (c # s) = of_char c # u s"
  by (simp_all add: u_def)

lemma length_u [simp]: "length (u s) = length s"
  by (simp add: u_def)

lemma u_inject [simp]: "u s = u t \<longleftrightarrow> s = t"
  by (simp add: u_def inj_map_eq_map inj_def)

lemma take_u: "take n (u s) = u (take n s)"
  by (simp add: u_def take_map)

lemma u_less_256: "c \<in> set (u s) \<Longrightarrow> c < 256"
proof -
  have "of_char x < (256 :: nat)" for x by (cases x) simp
  then show "c \<in> set (u s) \<Longrightarrow> c < 256" by (auto simp: u_def)
qed

section \<open>Results of code that may throw\<close>

definition bindR :: "'a res \<Rightarrow> ('a \<Rightarrow> 'b res) \<Rightarrow> 'b res" where
  "bindR m f = (case m of Inl e \<Rightarrow> Inl e | Inr x \<Rightarrow> f x)"

lemma bindR_simps [simp, js_simps]:
  "bindR (Inl e) f = Inl e"
  "bindR (Inr x) f = f x"
  by (simp_all add: bindR_def)

lemma bindR_eq_Inr:
  "bindR m f = Inr y \<longleftrightarrow> (\<exists>x. m = Inr x \<and> f x = Inr y)"
  by (cases m) auto

lemma bindR_assoc: "bindR (bindR m f) g = bindR m (\<lambda>x. bindR (f x) g)"
  by (cases m) auto

section \<open>Bits of integers and words\<close>

lemma int_and_255: "(n :: int) AND 255 = n mod 256"
  using take_bit_eq_mask [of 8 n] by (simp add: mask_eq_exp_minus_1 take_bit_eq_mod)

lemma int_and_127: "(n :: int) AND 127 = n mod 128"
  using take_bit_eq_mask [of 7 n] by (simp add: mask_eq_exp_minus_1 take_bit_eq_mod)

lemma uint_byte_bounds: "0 \<le> uint (x :: byte)" "uint (x :: byte) < 256"
  using uint_lt2p [of x] by simp_all

lemma uint_word_of_int_byte: "uint (word_of_int n :: byte) = n mod 256"
  by (simp add: uint_word_of_int)

lemma byte_eq_iff: "(x :: byte) = y \<longleftrightarrow> uint x = uint y"
  by (simp add: word_uint_eq_iff)

lemma byte_digit_inject:
  "uint (x :: byte) + 256 * m = uint (y :: byte) + 256 * n \<longleftrightarrow> x = y \<and> m = n"
proof
  assume eq: "uint x + 256 * m = uint y + 256 * n"
  then have "(uint x + 256 * m) mod 256 = (uint y + 256 * n) mod 256" by simp
  then have "uint x = uint y" by (simp add: uint_byte_bounds)
  with eq show "x = y \<and> m = n" by (simp add: byte_eq_iff)
qed simp

end
