(* ===== verification/Js_String.thy ===== *)
theory Js_String
  imports Prelude
begin

text \<open>
  The string operations of the language that the sources use: \<open>String.prototype.trim\<close>,
  \<open>toUpperCase\<close>, \<open>padStart\<close>, \<open>join\<close>, \<open>slice\<close>, \<open>Number.prototype.toString(radix)\<close> on integers,
  \<open>parseInt\<close>, and the character classes of the regular expressions. The lemmas are the
  round trips between printing and parsing integers that the components rely on.
\<close>

section \<open>Characters\<close>

definition isUpperAZ :: "nat \<Rightarrow> bool" where
  "isUpperAZ c \<longleftrightarrow> 65 \<le> c \<and> c \<le> 90"

definition isLowerAZ :: "nat \<Rightarrow> bool" where
  "isLowerAZ c \<longleftrightarrow> 97 \<le> c \<and> c \<le> 122"

text \<open>The class \<open>[1-9A-HJ-NP-Za-km-z]\<close> of the address pattern.\<close>

definition isBase58Char :: "nat \<Rightarrow> bool" where
  "isBase58Char c \<longleftrightarrow>
     49 \<le> c \<and> c \<le> 57 \<or> 65 \<le> c \<and> c \<le> 72 \<or> 74 \<le> c \<and> c \<le> 78 \<or>
     80 \<le> c \<and> c \<le> 90 \<or> 97 \<le> c \<and> c \<le> 107 \<or> 109 \<le> c \<and> c \<le> 122"

text \<open>White space and line terminators, as \<open>trim\<close> and \<open>parseInt\<close> skip them.\<close>

definition isJsSpace :: "nat \<Rightarrow> bool" where
  "isJsSpace c \<longleftrightarrow>
     9 \<le> c \<and> c \<le> 13 \<or> c = 32 \<or> c = 160 \<or> c = 5760 \<or> 8192 \<le> c \<and> c \<le> 8202 \<or>
     c = 8232 \<or> c = 8233 \<or> c = 8239 \<or> c = 8287 \<or> c = 12288 \<or> c = 65279"

lemmas char_class_defs = isUpperAZ_def isLowerAZ_def isBase58Char_def isJsSpace_def

text \<open>
  The two patterns of the game, \<open>/^[A-Z]{5}$/\<close> and \<open>/^R[1-9A-HJ-NP-Za-km-z]{96}$/\<close>. Without
  the flag \<open>m\<close>, \<open>$\<close> matches at the end of the text only.
\<close>

definition guessPattern :: "ustring \<Rightarrow> bool" where
  "guessPattern s \<longleftrightarrow> length s = 5 \<and> (\<forall>c \<in> set s. isUpperAZ c)"

definition addressPattern :: "ustring \<Rightarrow> bool" where
  "addressPattern s \<longleftrightarrow>
     length s = 97 \<and> take 1 s = u ''R'' \<and> (\<forall>c \<in> set (drop 1 s). isBase58Char c)"

section \<open>Whole-string operations\<close>

definition trimStart :: "ustring \<Rightarrow> ustring" where
  "trimStart s = dropWhile isJsSpace s"

definition trim :: "ustring \<Rightarrow> ustring" where
  "trim s = rev (dropWhile isJsSpace (rev (trimStart s)))"

text \<open>
  Upper case of one code unit. The units listed apart from \<open>a-z\<close> are all those outside ASCII
  whose upper-case form consists of the letters \<open>A-Z\<close> only. Every other unit is left as it is:
  both it and its upper-case form contain a unit outside \<open>A-Z\<close>, and the sources look at
  the result only through the class \<open>[A-Z]\<close>.
\<close>

definition upperUnit :: "nat \<Rightarrow> ustring" where
  "upperUnit c =
     (if isLowerAZ c then [c - 32]
      else if c = 223 then u ''SS''
      else if c = 305 then u ''I''
      else if c = 383 then u ''S''
      else if c = 64256 then u ''FF''
      else if c = 64257 then u ''FI''
      else if c = 64258 then u ''FL''
      else if c = 64259 then u ''FFI''
      else if c = 64260 then u ''FFL''
      else if c = 64261 \<or> c = 64262 then u ''ST''
      else [c])"

definition toUpperCase :: "ustring \<Rightarrow> ustring" where
  "toUpperCase s = concat (map upperUnit s)"

definition toLowerCaseAscii :: "ustring \<Rightarrow> ustring" where
  "toLowerCaseAscii s = map (\<lambda>c. if isUpperAZ c then c + 32 else c) s"

definition padStart :: "nat \<Rightarrow> nat \<Rightarrow> ustring \<Rightarrow> ustring" where
  "padStart n c s = replicate (n - length s) c @ s"

text \<open>\<open>jsSlice a b s\<close> is \<open>s.slice(a, b)\<close> for indices that are not negative.\<close>

definition jsSlice :: "nat \<Rightarrow> nat \<Rightarrow> 'a list \<Rightarrow> 'a list" where
  "jsSlice a b s = drop a (take b s)"

definition startsWith :: "ustring \<Rightarrow> ustring \<Rightarrow> bool" where
  "startsWith p s \<longleftrightarrow> take (length p) s = p"

definition endsWith :: "ustring \<Rightarrow> ustring \<Rightarrow> bool" where
  "endsWith p s \<longleftrightarrow> length p \<le> length s \<and> drop (length s - length p) s = p"

fun joinWith :: "ustring \<Rightarrow> ustring list \<Rightarrow> ustring" where
  "joinWith sep [] = []"
| "joinWith sep [x] = x"
| "joinWith sep (x # y # zs) = x @ sep @ joinWith sep (y # zs)"

lemma length_slice [simp]: "length (jsSlice a b s) = min b (length s) - a"
  by (simp add: jsSlice_def min.commute)

lemma trim_idem: "s \<noteq> [] \<Longrightarrow> \<not> isJsSpace (hd s) \<Longrightarrow> \<not> isJsSpace (last s) \<Longrightarrow> trim s = s"
proof -
  assume "s \<noteq> []" "\<not> isJsSpace (hd s)" "\<not> isJsSpace (last s)"
  then have "dropWhile isJsSpace s = s" "dropWhile isJsSpace (rev s) = rev s"
    by (simp_all add: dropWhile_eq_self_iff hd_rev)
  then show ?thesis by (simp add: trim_def trimStart_def)
qed

lemma toUpperCase_upper: "\<forall>c \<in> set s. isUpperAZ c \<Longrightarrow> toUpperCase s = s"
  unfolding toUpperCase_def by (induction s) (auto simp: upperUnit_def char_class_defs)

lemma startsWith_append [simp]: "startsWith p (p @ s)"
  by (simp add: startsWith_def)

lemma startsWith_iff: "startsWith p s \<longleftrightarrow> (\<exists>t. s = p @ t)"
  unfolding startsWith_def by (metis append_eq_conv_conj append_take_drop_id)

section \<open>Integers as text\<close>

definition digitChar :: "nat \<Rightarrow> nat" where
  "digitChar d = (if d < 10 then 48 + d else 87 + d)"

definition digitVal :: "nat \<Rightarrow> nat option" where
  "digitVal c =
     (if 48 \<le> c \<and> c \<le> 57 then Some (c - 48)
      else if isLowerAZ c then Some (c - 87)
      else if isUpperAZ c then Some (c - 55)
      else None)"

text \<open>
  \<open>n.toString(radix)\<close> of a natural number; the radix is the source's 10 or 16 (a radix
  below 2 would throw).
\<close>

fun natToRadix :: "nat \<Rightarrow> nat \<Rightarrow> ustring" where
  "natToRadix r n =
     (if r < 2 \<or> n < r then [digitChar n] else natToRadix r (n div r) @ [digitChar (n mod r)])"

declare natToRadix.simps [simp del]

lemma natToRadix_small: "n < r \<Longrightarrow> natToRadix r n = [digitChar n]"
  by (simp add: natToRadix.simps)

lemma natToRadix_step:
  "2 \<le> r \<Longrightarrow> r \<le> n \<Longrightarrow> natToRadix r n = natToRadix r (n div r) @ [digitChar (n mod r)]"
  by (subst natToRadix.simps) simp

abbreviation natToString :: "nat \<Rightarrow> ustring" where
  "natToString n \<equiv> natToRadix 10 n"

text \<open>\<open>parseInt(s, radix)\<close>; \<open>None\<close> stands for \<open>NaN\<close>. The value is exact.\<close>

definition isRadixDigit :: "nat \<Rightarrow> nat \<Rightarrow> bool" where
  "isRadixDigit r c \<longleftrightarrow> (case digitVal c of None \<Rightarrow> False | Some d \<Rightarrow> d < r)"

definition digitOr0 :: "nat \<Rightarrow> nat" where
  "digitOr0 c = (case digitVal c of None \<Rightarrow> 0 | Some d \<Rightarrow> d)"

definition digitsValue :: "nat \<Rightarrow> ustring \<Rightarrow> nat" where
  "digitsValue r s = foldl (\<lambda>n c. n * r + digitOr0 c) 0 s"

definition stripHexPrefix :: "nat \<Rightarrow> ustring \<Rightarrow> ustring" where
  "stripHexPrefix r s =
     (if r = 16 \<and> (startsWith (u ''0x'') s \<or> startsWith (u ''0X'') s) then drop 2 s else s)"

definition parseUnsigned :: "nat \<Rightarrow> ustring \<Rightarrow> nat option" where
  "parseUnsigned r s =
     (let z = takeWhile (isRadixDigit r) (stripHexPrefix r s)
      in if z = [] then None else Some (digitsValue r z))"

definition parseInt :: "nat \<Rightarrow> ustring \<Rightarrow> int option" where
  "parseInt r s =
     (let t = trimStart s
      in if t \<noteq> [] \<and> hd t = 45 then map_option (\<lambda>n. - int n) (parseUnsigned r (tl t))
         else if t \<noteq> [] \<and> hd t = 43 then map_option int (parseUnsigned r (tl t))
         else map_option int (parseUnsigned r t))"

subsection \<open>Printing then parsing\<close>

lemma digitVal_digitChar: "d < 36 \<Longrightarrow> digitVal (digitChar d) = Some d"
  by (auto simp: digitVal_def digitChar_def char_class_defs)

lemma digitOr0_digitChar [simp]: "d < 36 \<Longrightarrow> digitOr0 (digitChar d) = d"
  by (simp add: digitOr0_def digitVal_digitChar)

lemma isRadixDigit_digitChar: "d < r \<Longrightarrow> r \<le> 36 \<Longrightarrow> isRadixDigit r (digitChar d)"
  by (simp add: isRadixDigit_def digitVal_digitChar)

lemma digitsValue_snoc: "digitsValue r (s @ [c]) = digitsValue r s * r + digitOr0 c"
  by (simp add: digitsValue_def)

lemma natToRadix_digits:
  assumes "2 \<le> r" "r \<le> 36"
  shows "natToRadix r n \<noteq> [] \<and> (\<forall>c \<in> set (natToRadix r n). isRadixDigit r c) \<and>
    digitsValue r (natToRadix r n) = n"
  using assms
proof (induction r n rule: natToRadix.induct)
  case (1 r n)
  show ?case
  proof (cases "n < r")
    case True
    with "1.prems" show ?thesis
      by (simp add: natToRadix_small isRadixDigit_digitChar digitsValue_def)
  next
    case False
    with "1" have IH: "natToRadix r (n div r) \<noteq> []"
      "\<forall>c \<in> set (natToRadix r (n div r)). isRadixDigit r c"
      "digitsValue r (natToRadix r (n div r)) = n div r" by auto
    have "n mod r < r" using "1.prems" by simp
    with "1.prems" have "n mod r < 36" by linarith
    with False "1.prems" IH \<open>n mod r < r\<close> show ?thesis
      by (auto simp: natToRadix_step [of r n] digitsValue_snoc isRadixDigit_digitChar)
  qed
qed

lemma digitChar_not_special:
  "isRadixDigit r c \<Longrightarrow> \<not> isJsSpace c \<and> c \<noteq> 45 \<and> c \<noteq> 43"
  by (auto simp: isRadixDigit_def digitVal_def char_class_defs split: option.splits if_splits)

lemma parseUnsigned_digits:
  assumes "s \<noteq> []" "\<forall>c \<in> set s. isRadixDigit r c" "r \<noteq> 16"
  shows "parseUnsigned r s = Some (digitsValue r s)"
proof -
  from assms have "takeWhile (isRadixDigit r) s = s" by (simp add: takeWhile_eq_all_conv)
  with assms(1,3) show ?thesis
    by (simp only: parseUnsigned_def stripHexPrefix_def Let_def simp_thms if_False)
qed

lemma parseInt_natToString: "parseInt 10 (natToString n) = Some (int n)"
proof -
  let ?s = "natToString n"
  have d: "?s \<noteq> []" "\<forall>c \<in> set ?s. isRadixDigit 10 c" "digitsValue 10 ?s = n"
    using natToRadix_digits [of 10 n] by auto
  then have h: "\<not> isJsSpace (hd ?s)" "hd ?s \<noteq> 45" "hd ?s \<noteq> 43"
    using digitChar_not_special [of 10 "hd ?s"] by auto
  then have "trimStart ?s = ?s"
    using d(1) by (simp add: trimStart_def dropWhile_eq_self_iff)
  with d h show ?thesis by (simp add: parseInt_def parseUnsigned_digits)
qed

lemma natToString_inject: "natToString m = natToString n \<longleftrightarrow> m = n"
proof
  assume eq: "natToString m = natToString n"
  have "m = digitsValue 10 (natToString m)" using natToRadix_digits [of 10 m] by simp
  also have "\<dots> = n" unfolding eq using natToRadix_digits [of 10 n] by simp
  finally show "m = n" .
qed simp

section \<open>Bytes as hexadecimal text\<close>

text \<open>\<open>x.toString(16).padStart(2, '0')\<close> of a byte.\<close>

definition hexByte :: "byte \<Rightarrow> ustring" where
  "hexByte x = padStart 2 48 (natToRadix 16 (unat x))"

definition hexOfBytes :: "bytes \<Rightarrow> ustring" where
  "hexOfBytes b = concat (map hexByte b)"

lemma unat_byte_less: "unat (x :: byte) < 256"
  using unsigned_less [of x, where ?'a = nat] by simp

lemma hexByte_eq: "hexByte x = [digitChar (unat x div 16), digitChar (unat x mod 16)]"
proof (cases "unat x < 16")
  case True
  then show ?thesis
    by (simp add: hexByte_def natToRadix_small padStart_def digitChar_def)
next
  case False
  moreover have "unat x div 16 < 16" using unat_byte_less [of x] by simp
  ultimately show ?thesis
    by (simp add: hexByte_def natToRadix_step natToRadix_small padStart_def)
qed

lemma length_hexByte [simp]: "length (hexByte x) = 2"
  by (simp add: hexByte_eq)

lemma length_hexOfBytes [simp]: "length (hexOfBytes b) = 2 * length b"
  by (induction b) (simp_all add: hexOfBytes_def)

lemma digitChar_inject: "a < 36 \<Longrightarrow> b < 36 \<Longrightarrow> digitChar a = digitChar b \<longleftrightarrow> a = b"
  by (metis digitVal_digitChar option.inject)

lemma hexByte_inject: "hexByte x = hexByte y \<longleftrightarrow> x = y"
proof -
  have "unat x div 16 < 36" "unat y div 16 < 36" "unat x mod 16 < 36" "unat y mod 16 < 36"
    using unat_byte_less [of x] unat_byte_less [of y] by auto
  then have "hexByte x = hexByte y \<longleftrightarrow>
      unat x div 16 = unat y div 16 \<and> unat x mod 16 = unat y mod 16"
    by (simp add: hexByte_eq digitChar_inject)
  also have "\<dots> \<longleftrightarrow> unat x = unat y"
    by (metis div_mult_mod_eq)
  finally show ?thesis by (simp add: word_unat_eq_iff)
qed

lemma hexOfBytes_Cons [simp]: "hexOfBytes (x # b) = hexByte x @ hexOfBytes b"
  by (simp add: hexOfBytes_def)

lemma hexOfBytes_Nil [simp]: "hexOfBytes [] = []"
  by (simp add: hexOfBytes_def)

lemma hexOfBytes_inject: "hexOfBytes a = hexOfBytes b \<longleftrightarrow> a = b"
proof (induction a arbitrary: b)
  case Nil
  then show ?case by (cases b) (auto simp: hexByte_eq)
next
  case Step: (Cons x a)
  show ?case
  proof (cases b)
    case Nil
    then show ?thesis by (simp add: hexByte_eq)
  next
    case (Cons y c)
    then show ?thesis using Step.IH by (simp add: hexByte_inject)
  qed
qed

end
