(* ===== verification/Wallet_Bytes.thy ===== *)
theory Wallet_Bytes
  imports Js_String
begin

text \<open>
  The low-level helpers of \<^verbatim>\<open>wordmine/public/lib/wallet.js\<close>: little-endian conversion between
  byte arrays and \<open>BigInt\<close>, hexadecimal text, concatenation, reduction modulo the group order
  and the varint encoding. The lemmas give each helper a closed form over the number a byte
  array stands for, and the round trips between the representations.
\<close>

section \<open>Definitions\<close>

definition L :: int where
  "L = 2 ^ 252 + 27742317777372353535851937790883648493"

definition bytesToBigIntLE :: "bytes \<Rightarrow> int" where
  "bytesToBigIntLE b = foldl (\<lambda>n x. push_bit 8 n OR uint x) 0 (rev b)"

primrec bigIntToBytesLE :: "int \<Rightarrow> nat \<Rightarrow> bytes" where
  "bigIntToBytesLE n 0 = []"
| "bigIntToBytesLE n (Suc len) = word_of_int (n AND 255) # bigIntToBytesLE (drop_bit 8 n) len"

definition bytesToHex :: "bytes \<Rightarrow> ustring" where
  "bytesToHex b = hexOfBytes b"

text \<open>Storing a number into a \<open>Uint8Array\<close> keeps its low eight bits; \<open>NaN\<close> is stored as 0.\<close>

definition toUint8 :: "int option \<Rightarrow> byte" where
  "toUint8 v = (case v of None \<Rightarrow> 0 | Some i \<Rightarrow> word_of_int i)"

definition hexToBytes :: "ustring \<Rightarrow> bytes res" where
  "hexToBytes h =
     (if length h mod 2 \<noteq> 0 then Inl (Error (u ''hex length must be even''))
      else Inr (map (\<lambda>i. toUint8 (parseInt 16 (jsSlice (i * 2) (i * 2 + 2) h))) [0..<length h div 2]))"

text \<open>\<open>out.set(a, off)\<close>: overwrite from an offset.\<close>

definition setAt :: "nat \<Rightarrow> 'a list \<Rightarrow> 'a list \<Rightarrow> 'a list" where
  "setAt off a out = take off out @ a @ drop (off + length a) out"

definition concatBytes :: "bytes list \<Rightarrow> bytes" where
  "concatBytes arrs =
     (let total = foldl (\<lambda>s a. s + length a) 0 arrs
      in fst (foldl (\<lambda>(out, off) a. (setAt off a out, off + length a)) (replicate total 0, 0) arrs))"

definition scReduce32 :: "bytes \<Rightarrow> bytes res" where
  "scReduce32 b =
     (if length b \<noteq> 32 then Inl (Error (u ''sc_reduce32 expects 32 bytes''))
      else Inr (bigIntToBytesLE (bytesToBigIntLE b mod L) 32))"

text \<open>
  The varint loop on an integral \<open>Number\<close>: \<open>&\<close> reads the low bits, \<open>>>>\<close> shifts the value taken
  modulo \<open>2 ^ 32\<close>.
\<close>

function encodeVarint :: "int \<Rightarrow> bytes" where
  "encodeVarint n =
     (if n \<ge> 128 then word_of_int ((n AND 127) OR 128) # encodeVarint (drop_bit 7 (take_bit 32 n))
      else [word_of_int (n AND 127)])"
  by pat_completeness auto
termination
proof (relation "measure nat")
  fix n :: int
  assume "n \<ge> 128"
  moreover have "take_bit 32 n div 128 \<le> n div 128"
    using \<open>n \<ge> 128\<close> by (intro zdiv_mono1) (simp_all add: take_bit_int_less_eq_self_iff)
  ultimately show "(drop_bit 7 (take_bit 32 n), n) \<in> measure nat"
    by (simp add: drop_bit_eq_div)
qed simp

declare encodeVarint.simps [simp del]

section \<open>Little-endian numbers\<close>

lemma push_or_byte: "push_bit 8 n OR uint (x :: byte) = uint x + 256 * n"
proof -
  have "push_bit 8 n OR uint x = concat_bit 8 (uint x) n"
    by (simp add: concat_bit_def or.commute bintr_uint)
  also have "\<dots> = uint x + 256 * n"
    by (simp add: concat_bit_eq push_bit_eq_mult bintr_uint)
  finally show ?thesis .
qed

lemma bytesToBigIntLE_simps [simp]:
  "bytesToBigIntLE [] = 0"
  "bytesToBigIntLE (x # b) = uint x + 256 * bytesToBigIntLE b"
  by (simp_all add: bytesToBigIntLE_def push_or_byte)

lemma bytesToBigIntLE_bounds: "0 \<le> bytesToBigIntLE b \<and> bytesToBigIntLE b < 256 ^ length b"
proof (induction b)
  case (Cons x b)
  have "0 \<le> uint x" "uint x < 256" by (rule uint_byte_bounds)+
  with Cons show ?case by simp
qed simp

lemma bigIntToBytesLE_value: "bytesToBigIntLE (bigIntToBytesLE n len) = n mod 256 ^ len"
proof (induction len arbitrary: n)
  case (Suc len)
  have "uint (word_of_int (n AND 255) :: byte) = n mod 256"
    by (simp add: uint_word_of_int_byte int_and_255)
  moreover have "n mod (256 * 256 ^ len) = 256 * (n div 256 mod 256 ^ len) + n mod 256"
    by (rule zmod_zmult2_eq) simp
  ultimately show ?case
    using Suc [of "drop_bit 8 n"] by (simp add: drop_bit_eq_div)
qed simp

lemma length_bigIntToBytesLE [simp]: "length (bigIntToBytesLE n len) = len"
  by (induction len arbitrary: n) simp_all

lemma bytesToBigIntLE_inject:
  "length a = length b \<Longrightarrow> bytesToBigIntLE a = bytesToBigIntLE b \<longleftrightarrow> a = b"
proof (induction a b rule: list_induct2)
  case (Cons x xs y ys)
  then show ?case by (simp add: byte_digit_inject)
qed simp

lemma bigIntToBytesLE_bytes: "length b = len \<Longrightarrow> bigIntToBytesLE (bytesToBigIntLE b) len = b"
  using bytesToBigIntLE_bounds [of b]
  by (subst bytesToBigIntLE_inject [symmetric]) (simp_all add: bigIntToBytesLE_value)

section \<open>Hexadecimal text\<close>

lemma toUint8_hexByte: "toUint8 (parseInt 16 (hexByte x)) = x"
proof -
  let ?h = "unat x div 16" and ?l = "unat x mod 16"
  have hl: "?h < 16" "?l < 16" using unat_byte_less [of x] by auto
  have c: "isRadixDigit 16 (digitChar ?h)" "isRadixDigit 16 (digitChar ?l)"
    using hl by (auto intro: isRadixDigit_digitChar)
  have nx: "digitChar ?l \<noteq> 120" "digitChar ?l \<noteq> 88"
    using hl by (auto simp: digitChar_def)
  have sp: "\<not> isJsSpace (digitChar ?h)" "digitChar ?h \<noteq> 45" "digitChar ?h \<noteq> 43"
    using digitChar_not_special [OF c(1)] by auto
  have "parseUnsigned 16 (hexByte x) = Some (?h * 16 + ?l)"
    using c nx hl
    by (simp add: parseUnsigned_def stripHexPrefix_def startsWith_def hexByte_eq digitsValue_def)
  then have "parseInt 16 (hexByte x) = Some (int (unat x))"
    using sp by (simp add: parseInt_def trimStart_def hexByte_eq)
  then show ?thesis by (simp add: toUint8_def)
qed

lemma slice_hexOfBytes:
  "i < length b \<Longrightarrow> jsSlice (i * 2) (i * 2 + 2) (hexOfBytes b) = hexByte (b ! i)"
proof (induction b arbitrary: i)
  case (Cons x b)
  show ?case
  proof (cases i)
    case 0
    then show ?thesis by (simp add: jsSlice_def)
  next
    case (Suc j)
    with Cons.prems Cons.IH [of j] show ?thesis
      by (simp add: jsSlice_def)
  qed
qed simp

lemma hexToBytes_bytesToHex: "hexToBytes (bytesToHex b) = Inr b"
proof -
  have "map (\<lambda>i. toUint8 (parseInt 16 (jsSlice (i * 2) (i * 2 + 2) (hexOfBytes b)))) [0..<length b]
      = map (\<lambda>i. b ! i) [0..<length b]"
    by (rule map_cong [OF refl]) (simp del: add_2_eq_Suc' add: slice_hexOfBytes toUint8_hexByte)
  then show ?thesis by (simp add: hexToBytes_def bytesToHex_def map_nth)
qed

section \<open>Concatenation\<close>

lemma length_setAt [simp]: "off + length a \<le> length out \<Longrightarrow> length (setAt off a out) = length out"
  by (simp add: setAt_def)

lemma concatBytes_loop:
  "fst (foldl (\<lambda>(out, off) a. (setAt off a out, off + length a))
      (pre @ replicate (length (concat arrs)) 0, length pre) arrs) = pre @ concat arrs"
proof (induction arrs arbitrary: pre)
  case (Cons a arrs)
  have "setAt (length pre) a (pre @ replicate (length (concat (a # arrs))) 0)
      = (pre @ a) @ replicate (length (concat arrs)) 0"
    by (simp add: setAt_def replicate_add)
  then show ?case using Cons.IH [of "pre @ a"] by simp
qed simp

lemma foldl_length: "foldl (\<lambda>s a. s + length a) n arrs = n + length (concat arrs)"
  by (induction arrs arbitrary: n) simp_all

lemma concatBytes_eq [simp]: "concatBytes arrs = concat arrs"
  using concatBytes_loop [of "[]" arrs] by (simp add: concatBytes_def foldl_length)

section \<open>Reduction modulo the group order\<close>

lemma L_bounds: "0 < L" "L < 256 ^ 32"
  by (simp_all add: L_def)

lemma scReduce32_value:
  assumes "scReduce32 b = Inr s"
  shows "length s = 32" "bytesToBigIntLE s = bytesToBigIntLE b mod L"
proof -
  from assms have s: "s = bigIntToBytesLE (bytesToBigIntLE b mod L) 32"
    by (simp add: scReduce32_def split: if_splits)
  then show "length s = 32" by simp
  have "0 \<le> bytesToBigIntLE b mod L" "bytesToBigIntLE b mod L < 256 ^ 32"
    using L_bounds(1) less_trans [OF pos_mod_bound L_bounds(2)] by auto
  then show "bytesToBigIntLE s = bytesToBigIntLE b mod L"
    by (simp add: s bigIntToBytesLE_value)
qed

lemma scReduce32_ok: "length b = 32 \<Longrightarrow> \<exists>s. scReduce32 b = Inr s"
  by (simp add: scReduce32_def)

lemma scReduce32_reduced:
  assumes "scReduce32 b = Inr s"
  shows "0 \<le> bytesToBigIntLE s" "bytesToBigIntLE s < L"
  using scReduce32_value(2) [OF assms] L_bounds(1) by simp_all

lemma scReduce32_idem:
  assumes "scReduce32 b = Inr s"
  shows "scReduce32 s = Inr s"
proof -
  have "bytesToBigIntLE s mod L = bytesToBigIntLE s"
    using scReduce32_reduced [OF assms] by simp
  then show ?thesis
    using scReduce32_value(1) [OF assms] by (simp add: scReduce32_def bigIntToBytesLE_bytes)
qed

section \<open>Varint\<close>

lemma encodeVarint_small: "n < 128 \<Longrightarrow> encodeVarint n = [word_of_int (n AND 127)]"
  by (simp add: encodeVarint.simps)

lemma encodeVarint_step:
  "128 \<le> n \<Longrightarrow> encodeVarint n =
     word_of_int ((n AND 127) OR 128) # encodeVarint (drop_bit 7 (take_bit 32 n))"
  by (subst encodeVarint.simps) simp

end
