(* ===== verification/Base58.thy ===== *)
theory Base58
  imports Wallet_Bytes
begin

text \<open>
  The block base58 code of addresses. The encoder is the one of
  \<^verbatim>\<open>wordmine/public/lib/wallet.js\<close> (\<open>encodeBlock\<close>, \<open>b58Encode\<close>, \<open>buildAddress\<close>); the decoder
  is the daemon's, \<^verbatim>\<open>src/common/base58.cpp\<close> and \<^verbatim>\<open>src/common/varint.h\<close>, with its 64-bit
  overflow checks. The lemmas show that the daemon's decoder inverts the browser's encoder, that
  no two byte strings of one length have the same text, and what an address of the standard
  prefix looks like.
\<close>

section \<open>The encoder of the browser wallet\<close>

definition PREFIX_STANDARD :: int where
  "PREFIX_STANDARD = 144"

definition B58_ALPHA :: ustring where
  "B58_ALPHA = u ''123456789ABCDEFGHJKLMNPQRSTUVWXYZabcdefghijkmnopqrstuvwxyz''"

definition B58_BLOCK_SIZES :: "nat list" where
  "B58_BLOCK_SIZES = [0, 2, 3, 5, 6, 7, 9, 10, 11]"

text \<open>The loop \<open>for (i = chars - 1; i >= 0 && n > 0n; i--)\<close>; its first argument is \<open>i + 1\<close>.\<close>

fun encodeBlock_loop :: "nat \<Rightarrow> int \<Rightarrow> ustring \<Rightarrow> ustring" where
  "encodeBlock_loop 0 n out = out"
| "encodeBlock_loop (Suc i) n out =
     (if n > 0 then encodeBlock_loop i (n div 58) (out[i := B58_ALPHA ! nat (n mod 58)]) else out)"

definition encodeBlock :: "bytes \<Rightarrow> nat \<Rightarrow> ustring" where
  "encodeBlock b chars =
     encodeBlock_loop chars (foldl (\<lambda>n x. n * 256 + uint x) 0 b) (replicate chars (B58_ALPHA ! 0))"

definition b58Encode :: "bytes \<Rightarrow> ustring" where
  "b58Encode data =
     (let fullBlocks = length data div 8;
          tail = length data - fullBlocks * 8
      in concat (map (\<lambda>i. encodeBlock (jsSlice (i * 8) (i * 8 + 8) data) 11) [0..<fullBlocks]) @
         (if tail > 0 then encodeBlock (drop (fullBlocks * 8) data) (B58_BLOCK_SIZES ! tail) else []))"

text \<open>The hash \<open>keccak_256\<close> of the noble library is a parameter.\<close>

definition buildAddress :: "(bytes \<Rightarrow> bytes) \<Rightarrow> int \<Rightarrow> bytes \<Rightarrow> bytes \<Rightarrow> ustring" where
  "buildAddress keccak_256 prefix pubSpend pubView =
     (let head = concatBytes [encodeVarint prefix, pubSpend, pubView];
          checksum = jsSlice 0 4 (keccak_256 head)
      in b58Encode (concatBytes [head, checksum]))"

section \<open>The decoder of the daemon\<close>

type_synonym u64 = "64 word"

definition reverse_alphabet_data :: "int list" where
  "reverse_alphabet_data =
     foldl (\<lambda>d i. d[B58_ALPHA ! i - B58_ALPHA ! 0 := int i]) (replicate 74 (-1)) [0..<58]"

definition reverse_alphabet :: "nat \<Rightarrow> int" where
  "reverse_alphabet letter =
     (if B58_ALPHA ! 0 \<le> letter \<and> letter - B58_ALPHA ! 0 < length reverse_alphabet_data
      then reverse_alphabet_data ! (letter - B58_ALPHA ! 0) else -1)"

definition decoded_block_sizes :: "nat \<Rightarrow> int" where
  "decoded_block_sizes n =
     foldl (\<lambda>d i. d[B58_BLOCK_SIZES ! i := int i]) (replicate 12 (-1)) [0..<9] ! n"

text \<open>
  The digit loop of \<open>decode_block\<close>, over the block read from its end. \<open>mul128\<close> gives the low
  and the high half of the product.
\<close>

fun decode_block_loop :: "ustring \<Rightarrow> u64 \<Rightarrow> u64 \<Rightarrow> u64 option" where
  "decode_block_loop [] res_num order = Some res_num"
| "decode_block_loop (c # cs) res_num order =
     (let digit = reverse_alphabet c
      in if digit < 0 then None
         else let product = uint order * digit;
                  product_hi = product div 2 ^ 64;
                  tmp = res_num + word_of_int product
              in if tmp < res_num \<or> product_hi \<noteq> 0 then None
                 else decode_block_loop cs tmp (order * 58))"

definition uint_64_to_8be :: "u64 \<Rightarrow> nat \<Rightarrow> bytes" where
  "uint_64_to_8be num sz = rev (bigIntToBytesLE (uint num) sz)"

definition decode_block :: "ustring \<Rightarrow> bytes option" where
  "decode_block block =
     (let res_size = decoded_block_sizes (length block)
      in if res_size \<le> 0 then None
         else case decode_block_loop (rev block) 0 1 of
                None \<Rightarrow> None
              | Some res_num \<Rightarrow>
                  if res_size < 8 \<and> push_bit (8 * nat res_size) 1 \<le> res_num then None
                  else Some (uint_64_to_8be res_num (nat res_size)))"

fun decode_blocks :: "nat \<Rightarrow> ustring \<Rightarrow> bytes option" where
  "decode_blocks 0 enc = (if enc = [] then Some [] else decode_block enc)"
| "decode_blocks (Suc k) enc =
     (case decode_block (take 11 enc) of
        None \<Rightarrow> None
      | Some b \<Rightarrow> map_option (\<lambda>bs. b @ bs) (decode_blocks k (drop 11 enc)))"

definition base58_decode :: "ustring \<Rightarrow> bytes option" where
  "base58_decode enc =
     (if enc = [] then Some []
      else if decoded_block_sizes (length enc mod 11) < 0 then None
      else decode_blocks (length enc div 11) enc)"

text \<open>
  \<open>read_varint<64>\<close>: the number of bytes read, or \<open>-1\<close> on overflow and \<open>-2\<close> on a
  representation that is not canonical, and the value written.
\<close>

fun read_varint_loop :: "bytes \<Rightarrow> nat \<Rightarrow> int \<Rightarrow> u64 \<Rightarrow> int \<times> u64" where
  "read_varint_loop [] shift rd wr = (rd, wr)"
| "read_varint_loop (x # rest) shift rd wr =
     (if shift + 7 \<ge> 64 \<and> uint x \<ge> 2 ^ (64 - shift) then (-1, wr)
      else if x = 0 \<and> shift \<noteq> 0 then (-2, wr)
      else let wr' = wr OR push_bit shift (ucast (x AND 127))
           in if x AND 128 = 0 then (rd + 1, wr')
              else read_varint_loop rest (shift + 7) (rd + 1) wr')"

definition read_varint :: "bytes \<Rightarrow> int \<times> u64" where
  "read_varint b = read_varint_loop b 0 0 0"

text \<open>\<open>cn_fast_hash\<close> is the same parameter as the hash of the encoder.\<close>

definition decode_addr :: "(bytes \<Rightarrow> bytes) \<Rightarrow> ustring \<Rightarrow> (u64 \<times> bytes) option" where
  "decode_addr hash addr =
     (case base58_decode addr of
        None \<Rightarrow> None
      | Some addr_data \<Rightarrow>
          if length addr_data \<le> 4 then None
          else let checksum = drop (length addr_data - 4) addr_data;
                   body = take (length addr_data - 4) addr_data
               in if take 4 (hash body) \<noteq> checksum then None
                  else let (rd, tag) = read_varint body
                       in if rd \<le> 0 then None else Some (tag, drop (nat rd) body))"

section \<open>Base 58 digits\<close>

primrec digits58 :: "nat \<Rightarrow> int \<Rightarrow> nat list" where
  "digits58 0 n = []"
| "digits58 (Suc k) n = nat (n mod 58) # digits58 k (n div 58)"

primrec value58 :: "nat list \<Rightarrow> int" where
  "value58 [] = 0"
| "value58 (d # ds) = int d + 58 * value58 ds"

lemma length_digits58 [simp]: "length (digits58 k n) = k"
  by (induction k arbitrary: n) simp_all

lemma digits58_less: "d \<in> set (digits58 k n) \<Longrightarrow> d < 58"
  by (induction k arbitrary: n) auto

lemma digits58_0: "digits58 k 0 = replicate k 0"
  by (induction k) simp_all

lemma value58_digits58: "0 \<le> n \<Longrightarrow> n < 58 ^ k \<Longrightarrow> value58 (digits58 k n) = n"
proof (induction k arbitrary: n)
  case (Suc k)
  have "n < 58 * 58 ^ k" using Suc.prems by simp
  then have "n div 58 < 58 ^ k" by linarith
  then have "value58 (digits58 k (n div 58)) = n div 58"
    using Suc by (simp add: pos_imp_zdiv_nonneg_iff)
  then show ?case using Suc.prems by simp
qed simp

lemma length_B58_ALPHA [simp]: "length B58_ALPHA = 58"
  by (simp add: B58_ALPHA_def)

lemma encodeBlock_loop_digits:
  "0 \<le> n \<Longrightarrow> encodeBlock_loop k n (replicate k (B58_ALPHA ! 0) @ suf)
     = rev (map (\<lambda>d. B58_ALPHA ! d) (digits58 k n)) @ suf"
proof (induction k arbitrary: n suf)
  case (Suc k)
  show ?case
  proof (cases "n > 0")
    case True
    have "(replicate (Suc k) (B58_ALPHA ! 0) @ suf)[k := x]
        = replicate k (B58_ALPHA ! 0) @ x # suf" for x
      by (simp add: replicate_append_same [symmetric] list_update_append)
    with True Suc show ?thesis by (simp add: pos_imp_zdiv_nonneg_iff)
  next
    case False
    with Suc.prems have "n = 0" by simp
    then show ?thesis by (simp add: digits58_0 replicate_append_same)
  qed
qed simp

text \<open>The number a block stands for, read as the source reads it (most significant byte first).\<close>

definition beValue :: "bytes \<Rightarrow> int" where
  "beValue b = foldl (\<lambda>n x. n * 256 + uint x) 0 b"

lemma beValue_LE: "beValue b = bytesToBigIntLE (rev b)"
  unfolding beValue_def by (induction b rule: rev_induct) (simp_all add: mult.commute)

lemma beValue_bounds: "0 \<le> beValue b" "beValue b < 256 ^ length b"
  using bytesToBigIntLE_bounds [of "rev b"] by (simp_all add: beValue_LE)

lemma encodeBlock_digits:
  "encodeBlock b chars = rev (map (\<lambda>d. B58_ALPHA ! d) (digits58 chars (beValue b)))"
  using encodeBlock_loop_digits [OF beValue_bounds(1), of chars b "[]"]
  by (simp add: encodeBlock_def beValue_def)

lemma length_encodeBlock [simp]: "length (encodeBlock b chars) = chars"
  by (simp add: encodeBlock_digits)

lemma B58_ALPHA_class: "\<forall>c \<in> set B58_ALPHA. isBase58Char c"
  by (simp add: B58_ALPHA_def isBase58Char_def)

lemma encodeBlock_chars: "c \<in> set (encodeBlock b chars) \<Longrightarrow> isBase58Char c"
  by (auto simp: encodeBlock_digits intro!: B58_ALPHA_class [rule_format] nth_mem
      dest: digits58_less)

section \<open>Decoding one block\<close>

lemma foldl_updates:
  fixes f :: "nat \<Rightarrow> nat" and g :: "nat \<Rightarrow> 'a"
  assumes "inj_on f {..<n}" "\<forall>i < n. f i < length init"
  shows "length (foldl (\<lambda>d i. d[f i := g i]) init [0..<n]) = length init \<and>
    (\<forall>i < n. foldl (\<lambda>d i. d[f i := g i]) init [0..<n] ! f i = g i)"
  using assms
proof (induction n)
  case (Suc n)
  let ?D = "foldl (\<lambda>d i. d[f i := g i]) init [0..<n]"
  have D: "length ?D = length init" "\<forall>i < n. ?D ! f i = g i"
    using Suc by (simp_all add: inj_on_def)
  have ne: "f i \<noteq> f n" if "i < n" for i
    using Suc.prems(1) that by (auto simp: inj_on_def)
  have "?D[f n := g n] ! f i = g i" if "i < Suc n" for i
    using that D ne [of i] Suc.prems(2) by (cases "i = n") (auto simp: nth_list_update_neq)
  with D(1) show ?case by simp
qed simp

lemma distinct_B58_ALPHA: "distinct B58_ALPHA"
  by (simp add: B58_ALPHA_def)

lemma B58_ALPHA_range: "\<forall>c \<in> set B58_ALPHA. 49 \<le> c \<and> c < 49 + 74"
  by (simp add: B58_ALPHA_def)

lemma B58_ALPHA_0 [simp]: "B58_ALPHA ! 0 = 49"
  by (simp add: B58_ALPHA_def)

lemma reverse_alphabet_nth: "d < 58 \<Longrightarrow> reverse_alphabet (B58_ALPHA ! d) = int d"
proof -
  assume d: "d < 58"
  let ?f = "\<lambda>i. B58_ALPHA ! i - B58_ALPHA ! 0"
  have rng: "49 \<le> B58_ALPHA ! i \<and> B58_ALPHA ! i < 49 + 74" if "i < 58" for i
    using B58_ALPHA_range that by (metis length_B58_ALPHA nth_mem)
  have "inj_on ?f {..<58}"
  proof (rule inj_onI)
    fix i j :: nat
    assume ij: "i \<in> {..<58}" "j \<in> {..<58}" and eq: "?f i = ?f j"
    with rng [of i] rng [of j] have "B58_ALPHA ! i = B58_ALPHA ! j" by fastforce
    with ij show "i = j" using distinct_B58_ALPHA by (simp add: nth_eq_iff_index_eq)
  qed
  moreover have "\<forall>i < 58. ?f i < length (replicate 74 (-1 :: int))" using rng by fastforce
  ultimately have "length reverse_alphabet_data = 74 \<and> (\<forall>i < 58. reverse_alphabet_data ! ?f i = int i)"
    unfolding reverse_alphabet_data_def
    using foldl_updates [of ?f 58 "replicate 74 (-1 :: int)" int] by simp
  then show ?thesis using rng [OF d] d by (auto simp: reverse_alphabet_def)
qed

lemma B58_BLOCK_SIZES_facts:
  "length B58_BLOCK_SIZES = 9" "distinct B58_BLOCK_SIZES" "\<forall>n \<in> set B58_BLOCK_SIZES. n < 12"
  by (simp_all add: B58_BLOCK_SIZES_def)

lemma decoded_block_sizes_nth: "i < 9 \<Longrightarrow> decoded_block_sizes (B58_BLOCK_SIZES ! i) = int i"
proof -
  assume i: "i < 9"
  have "inj_on ((!) B58_BLOCK_SIZES) {..<9}"
    using B58_BLOCK_SIZES_facts by (auto intro: inj_on_nth)
  moreover have "\<forall>i < 9. B58_BLOCK_SIZES ! i < length (replicate 12 (-1 :: int))"
    using B58_BLOCK_SIZES_facts by simp
  ultimately show ?thesis
    unfolding decoded_block_sizes_def
    using i foldl_updates [of "(!) B58_BLOCK_SIZES" 9 "replicate 12 (-1 :: int)" int] by simp
qed

lemma uint_u64: "0 \<le> n \<Longrightarrow> n < 2 ^ 64 \<Longrightarrow> uint (word_of_int n :: u64) = n"
  by (simp add: uint_word_of_int)

lemma word64_add_no_wrap:
  assumes "0 \<le> a" "0 \<le> b" "a + b < 2 ^ 64"
  shows "\<not> word_of_int a + word_of_int b < (word_of_int a :: u64)"
proof -
  have "uint (word_of_int (a + b) :: u64) = a + b" "uint (word_of_int a :: u64) = a"
    by (rule uint_u64; use assms in linarith)+
  then have "\<not> word_of_int (a + b) < (word_of_int a :: u64)"
    using assms(2) by (simp only: word_less_def)
  then show ?thesis by simp
qed

lemma value58_nonneg [simp]: "0 \<le> value58 ds"
  by (induction ds) simp_all

lemma decode_block_loop_digits:
  assumes "\<forall>d \<in> set ds. d < 58" "0 \<le> r" "0 < order" "r + order * value58 ds < 2 ^ 64"
    "ds \<noteq> [] \<longrightarrow> order * 58 ^ (length ds - 1) < 2 ^ 64"
  shows "decode_block_loop (map (\<lambda>d. B58_ALPHA ! d) ds) (word_of_int r) (word_of_int order)
    = Some (word_of_int (r + order * value58 ds))"
  using assms
proof (induction ds arbitrary: r order)
  case (Cons d ds)
  let ?p = "order * int d"
  have v: "order * value58 (d # ds) = ?p + order * 58 * value58 ds"
    by (simp add: algebra_simps)
  have nn: "0 \<le> ?p" "0 \<le> order * 58 * value58 ds" using Cons.prems by simp_all
  have "order \<le> order * 58 ^ length ds" using Cons.prems(3) by simp
  then have o: "order < 2 ^ 64" using Cons.prems(5) by simp
  then have uo: "uint (word_of_int order :: u64) = order"
    using Cons.prems(3) by (simp add: uint_word_of_int)
  have p: "r + ?p < 2 ^ 64" "?p < 2 ^ 64" using Cons.prems(2,4) v nn by linarith+
  then have hi: "?p div 2 ^ 64 = 0" using nn by (simp add: div_pos_pos_trivial)
  have nw: "\<not> word_of_int r + word_of_int ?p < (word_of_int r :: u64)"
    using word64_add_no_wrap Cons.prems(2) nn(1) p(1) by blast
  have nxt: "ds \<noteq> [] \<longrightarrow> order * 58 * 58 ^ (length ds - 1) < 2 ^ 64"
    using Cons.prems(5) by (cases ds) (simp_all add: mult.assoc)
  have "decode_block_loop (map (\<lambda>d. B58_ALPHA ! d) ds) (word_of_int (r + ?p))
      (word_of_int (order * 58)) = Some (word_of_int (r + ?p + order * 58 * value58 ds))"
  proof (rule Cons.IH)
    show "\<forall>d \<in> set ds. d < 58" using Cons.prems(1) by simp
    show "r + ?p + order * 58 * value58 ds < 2 ^ 64" using Cons.prems(4) v by linarith
  qed (use Cons.prems(2,3) nn nxt in simp_all)
  then show ?case
    using Cons.prems(1) nw hi
    by (simp add: reverse_alphabet_nth uo add.assoc distrib_left mult.assoc
        flip: wi_hom_add wi_hom_mult)
qed simp

lemma block_sizes_fit: "1 \<le> k \<Longrightarrow> k \<le> 8 \<Longrightarrow> (256 :: int) ^ k \<le> 58 ^ (B58_BLOCK_SIZES ! k)"
  and block_sizes_order:
    "1 \<le> k \<Longrightarrow> k \<le> 8 \<Longrightarrow> (58 :: int) ^ (B58_BLOCK_SIZES ! k - 1) < 2 ^ 64"
  and block_sizes_bytes: "k \<le> 8 \<Longrightarrow> (256 :: int) ^ k \<le> 2 ^ 64"
  and block_sizes_pos: "1 \<le> k \<Longrightarrow> k \<le> 8 \<Longrightarrow> 0 < B58_BLOCK_SIZES ! k"
  and block_sizes_less: "k < 8 \<Longrightarrow> B58_BLOCK_SIZES ! k < 11"
proof -
  have "k = 0 \<or> k = 1 \<or> k = 2 \<or> k = 3 \<or> k = 4 \<or> k = 5 \<or> k = 6 \<or> k = 7 \<or> k = 8"
    if "k \<le> 8" using that by linarith
  then show "1 \<le> k \<Longrightarrow> k \<le> 8 \<Longrightarrow> (256 :: int) ^ k \<le> 58 ^ (B58_BLOCK_SIZES ! k)"
    "1 \<le> k \<Longrightarrow> k \<le> 8 \<Longrightarrow> (58 :: int) ^ (B58_BLOCK_SIZES ! k - 1) < 2 ^ 64"
    "k \<le> 8 \<Longrightarrow> (256 :: int) ^ k \<le> 2 ^ 64"
    "1 \<le> k \<Longrightarrow> k \<le> 8 \<Longrightarrow> 0 < B58_BLOCK_SIZES ! k" "k < 8 \<Longrightarrow> B58_BLOCK_SIZES ! k < 11"
    by (auto simp: B58_BLOCK_SIZES_def)
qed

lemma decode_block_encodeBlock:
  assumes "1 \<le> length b" "length b \<le> 8"
  shows "decode_block (encodeBlock b (B58_BLOCK_SIZES ! length b)) = Some b"
proof -
  let ?k = "length b" and ?n = "beValue b"
  let ?c = "B58_BLOCK_SIZES ! ?k"
  have n: "0 \<le> ?n" "?n < 256 ^ ?k" by (rule beValue_bounds)+
  have n58: "?n < 58 ^ ?c" using n block_sizes_fit [OF assms] by linarith
  have n64: "?n < 2 ^ 64" using n block_sizes_bytes [OF assms(2)] by linarith
  have v: "value58 (digits58 ?c ?n) = ?n" using n(1) n58 by (rule value58_digits58)
  have "decode_block_loop (map (\<lambda>d. B58_ALPHA ! d) (digits58 ?c ?n)) (word_of_int 0) (word_of_int 1)
      = Some (word_of_int (0 + 1 * value58 (digits58 ?c ?n)))"
    using n64 v block_sizes_order [OF assms]
    by (intro decode_block_loop_digits) (auto dest: digits58_less)
  then have loop: "decode_block_loop (rev (encodeBlock b ?c)) 0 1 = Some (word_of_int ?n)"
    by (simp add: encodeBlock_digits v rev_map)
  have sz: "decoded_block_sizes ?c = int ?k" using assms by (simp add: decoded_block_sizes_nth)
  have un: "uint (word_of_int ?n :: u64) = ?n" using n(1) n64 by (rule uint_u64)
  have "\<not> push_bit (8 * ?k) 1 \<le> (word_of_int ?n :: u64)" if "?k < 8"
  proof -
    have "(256 :: int) ^ ?k < 2 ^ 64"
      using power_strict_increasing [OF that, of "256 :: int"] by simp
    then have "uint (word_of_int (256 ^ ?k) :: u64) = 256 ^ ?k" by (intro uint_u64) simp_all
    moreover have "(push_bit (8 * ?k) 1 :: u64) = word_of_int (256 ^ ?k)"
      by (simp add: push_bit_eq_mult power_mult)
    ultimately have "uint (push_bit (8 * ?k) 1 :: u64) = 256 ^ ?k" by simp
    with n(2) un show ?thesis by (simp add: word_le_def)
  qed
  moreover have "uint_64_to_8be (word_of_int ?n) ?k = b"
    using bigIntToBytesLE_bytes [of "rev b" ?k] un by (simp add: uint_64_to_8be_def beValue_LE)
  moreover have "b \<noteq> []" using assms(1) by auto
  ultimately show ?thesis
    using assms loop sz by (auto simp: decode_block_def Let_def)
qed

section \<open>Decoding a whole string\<close>

lemma b58Encode_short: "length data < 8 \<Longrightarrow> b58Encode data =
    (if data = [] then [] else encodeBlock data (B58_BLOCK_SIZES ! length data))"
  by (simp add: b58Encode_def)

lemma b58Encode_block: "length b = 8 \<Longrightarrow> b58Encode (b @ data) = encodeBlock b 11 @ b58Encode data"
proof -
  assume b: "length b = 8"
  have q: "length (b @ data) div 8 = Suc (length data div 8)" using b by simp
  have t: "length (b @ data) - Suc (length data div 8) * 8 = length data - length data div 8 * 8"
    using b by simp
  have sl: "jsSlice (Suc i * 8) (Suc i * 8 + 8) (b @ data) = jsSlice (i * 8) (i * 8 + 8) data" for i
    using b by (simp add: jsSlice_def add.commute)
  have "map (\<lambda>i. encodeBlock (jsSlice (i * 8) (i * 8 + 8) (b @ data)) 11) [0..<Suc (length data div 8)]
      = encodeBlock b 11 #
        map (\<lambda>i. encodeBlock (jsSlice (i * 8) (i * 8 + 8) data) 11) [0..<length data div 8]"
    using b sl by (simp add: map_upt_Suc del: upt_Suc) (simp add: jsSlice_def)
  then show ?thesis
    using b t by (simp only: b58Encode_def Let_def q) (simp add: add.commute)
qed

lemma data_block_induct [case_names short block]:
  assumes "\<And>data. length data < 8 \<Longrightarrow> P data"
    and "\<And>b data. length b = 8 \<Longrightarrow> P data \<Longrightarrow> P (b @ data)"
  shows "P (data :: 'a list)"
proof (induction data rule: length_induct)
  case (1 data)
  show ?case
  proof (cases "length data < 8")
    case True
    then show ?thesis by (rule assms(1))
  next
    case False
    then have "length (take 8 data) = 8" "length (drop 8 data) < length data" by auto
    with 1 assms(2) [of "take 8 data" "drop 8 data"] show ?thesis by simp
  qed
qed

lemma length_b58Encode:
  "length (b58Encode data) = 11 * (length data div 8) + B58_BLOCK_SIZES ! (length data mod 8)"
proof (induction data rule: data_block_induct)
  case (short data)
  then show ?case by (auto simp: b58Encode_short B58_BLOCK_SIZES_def)
next
  case (block b data)
  then show ?case by (simp add: b58Encode_block)
qed

lemma b58Encode_chars: "c \<in> set (b58Encode data) \<Longrightarrow> isBase58Char c"
proof (induction data rule: data_block_induct)
  case (short data)
  then show ?case by (auto simp: b58Encode_short split: if_splits dest: encodeBlock_chars)
next
  case (block b data)
  then show ?case by (auto simp: b58Encode_block dest: encodeBlock_chars)
qed

lemma decode_blocks_b58Encode:
  "decode_blocks (length (b58Encode data) div 11) (b58Encode data) = Some data"
proof (induction data rule: data_block_induct)
  case (short data)
  show ?case
  proof (cases "data = []")
    case True
    then show ?thesis by (simp add: b58Encode_short)
  next
    case False
    with short have ne: "1 \<le> length data" "length data \<le> 8" by (auto simp: Suc_le_eq)
    have "encodeBlock data (B58_BLOCK_SIZES ! length data) \<noteq> []"
      using block_sizes_pos [OF ne] by (metis length_encodeBlock list.size(3) less_irrefl)
    then show ?thesis
      using short False decode_block_encodeBlock [OF ne] block_sizes_less [OF short]
      by (simp add: b58Encode_short)
  qed
next
  case (block b data)
  have "decode_block (encodeBlock b 11) = Some b"
    using block decode_block_encodeBlock [of b] by (simp add: B58_BLOCK_SIZES_def)
  with block show ?case by (simp add: b58Encode_block)
qed

lemma base58_decode_b58Encode: "base58_decode (b58Encode data) = Some data"
proof -
  let ?m = "length data mod 8"
  have "B58_BLOCK_SIZES ! ?m < 11" by (rule block_sizes_less) simp
  then have "length (b58Encode data) mod 11 = B58_BLOCK_SIZES ! ?m"
    by (simp add: length_b58Encode)
  moreover have "?m < 9" using mod_less_divisor [of 8 "length data"] by linarith
  ultimately have "\<not> decoded_block_sizes (length (b58Encode data) mod 11) < 0"
    by (simp add: decoded_block_sizes_nth)
  moreover have "data = []" if "b58Encode data = []"
    using decode_blocks_b58Encode [of data] that by simp
  ultimately show ?thesis
    using decode_blocks_b58Encode [of data] by (auto simp: base58_decode_def)
qed

lemma b58Encode_inject: "b58Encode a = b58Encode b \<longleftrightarrow> a = b"
  using base58_decode_b58Encode by (metis option.inject)

section \<open>Addresses\<close>

lemma word_split_7: "(w :: u64) = take_bit 7 w OR push_bit 7 (drop_bit 7 w)"
proof (rule bit_word_eqI)
  fix n :: nat
  show "n < LENGTH(64) \<Longrightarrow> bit w n = bit (take_bit 7 w OR push_bit 7 (drop_bit 7 w)) n"
    by (cases "n < 7") (simp_all add: bit_simps)
qed

lemma varint_step_word:
  "push_bit shift (take_bit 7 w) OR push_bit (shift + 7) (drop_bit 7 w) = push_bit shift (w :: u64)"
proof -
  have "push_bit shift w = push_bit shift (take_bit 7 w OR push_bit 7 (drop_bit 7 w))"
    by (simp flip: word_split_7)
  then show ?thesis by (simp add: add.commute)
qed

lemma int_or_128: "(n :: int) mod 128 OR 128 = n mod 128 + 128"
proof -
  have "n mod 128 OR 128 = concat_bit 7 n 1" by (simp add: concat_bit_def take_bit_eq_mod)
  also have "\<dots> = n mod 128 + 128" by (simp add: concat_bit_eq take_bit_eq_mod)
  finally show ?thesis .
qed

lemma word_of_int_div_128:
  "0 \<le> n \<Longrightarrow> n < 2 ^ 64 \<Longrightarrow> (word_of_int (n div 128) :: u64) = drop_bit 7 (word_of_int n)"
  by (simp add: word_uint_eq_iff drop_bit_eq_div uint_div uint_word_of_int)

lemma word_of_int_mod_128:
  "0 \<le> n \<Longrightarrow> n < 2 ^ 64 \<Longrightarrow> (word_of_int (n mod 128) :: u64) = take_bit 7 (word_of_int n)"
  by (simp add: word_uint_eq_iff uint_mod uint_word_of_int take_bit_eq_mod)

lemma ucast_and_127: "ucast ((x :: byte) AND 127) = (word_of_int (uint x mod 128) :: u64)"
proof -
  have "uint (ucast (x AND 127) :: u64) = uint x mod 128"
    by (simp add: unsigned_ucast_eq unsigned_and_eq int_and_127 take_bit_eq_mod mod_mod_cancel)
  moreover have "uint (word_of_int (uint x mod 128) :: u64) = uint x mod 128"
    by (rule uint_u64) (use pos_mod_bound [of 128 "uint x"] in \<open>auto intro: less_trans\<close>)
  ultimately show ?thesis by (simp only: word_uint_eq_iff)
qed

lemma and_128_eq_0: "(x :: byte) AND 128 = 0 \<longleftrightarrow> uint x < 128"
proof -
  have "x AND 128 = 0 \<longleftrightarrow> \<not> bit x 7"
    using and_exp_eq_0_iff_not_bit [of x 7] by simp
  also have "bit x 7 \<longleftrightarrow> bit (uint x) 7" by (simp add: bit_uint_iff)
  also have "bit (uint x) 7 \<longleftrightarrow> odd (uint x div 128)" by (simp add: bit_iff_odd)
  finally have "x AND 128 = 0 \<longleftrightarrow> even (uint x div 128)" by simp
  moreover have "uint x div 128 = 0 \<or> uint x div 128 = 1" using uint_byte_bounds [of x] by linarith
  moreover have "uint x div 128 = 0 \<longleftrightarrow> uint x < 128" using uint_byte_bounds [of x] by linarith
  ultimately show ?thesis by auto
qed

lemma read_varint_loop_last:
  assumes "0 \<le> n" "n < 128" "n * 2 ^ shift < 2 ^ 64" "n \<noteq> 0 \<or> shift = 0" "shift < 64"
  shows "read_varint_loop (word_of_int n # rest) shift rd wr
    = (rd + 1, wr OR push_bit shift (word_of_int n))"
proof -
  let ?x = "word_of_int n :: byte"
  have ux: "uint ?x = n" using assms(1,2) by (simp add: uint_word_of_int)
  have "n * 2 ^ shift < 2 ^ (64 - shift) * 2 ^ shift"
    using assms(3,5) by (simp flip: power_add)
  then have "n < 2 ^ (64 - shift)" by simp
  moreover have "?x \<noteq> 0" if "shift \<noteq> 0" using that assms(4) ux by auto
  moreover have "ucast (?x AND 127) = (word_of_int n :: u64)"
    using assms(1,2) by (simp add: ucast_and_127 ux)
  ultimately show ?thesis using assms(2) by (auto simp: ux and_128_eq_0 Let_def)
qed

lemma read_varint_loop_more:
  assumes "0 \<le> n" "n < 2 ^ 64" "shift < 57"
  shows "read_varint_loop (word_of_int (n mod 128 + 128) # rest) shift rd wr
    = read_varint_loop rest (shift + 7) (rd + 1) (wr OR push_bit shift (take_bit 7 (word_of_int n)))"
proof -
  let ?x = "word_of_int (n mod 128 + 128) :: byte"
  have "n mod 128 + 128 < 256" by (simp add: pos_mod_bound)
  then have ux: "uint ?x = n mod 128 + 128"
    by (simp only: uint_word_of_int_byte) (simp add: mod_pos_pos_trivial)
  have "ucast (?x AND 127) = (take_bit 7 (word_of_int n) :: u64)"
    using assms(1,2) by (simp only: ucast_and_127 ux) (simp add: word_of_int_mod_128)
  moreover have "\<not> uint ?x < 128" using ux by simp
  then have "?x AND 128 \<noteq> 0" "?x \<noteq> 0"
    using and_128_eq_0 [of ?x] by auto
  ultimately show ?thesis using assms(3) by (simp only: read_varint_loop.simps Let_def) simp
qed

lemma read_varint_loop_encode:
  assumes "0 \<le> n" "n < 2 ^ 32" "n * 2 ^ shift < 2 ^ 64" "n \<noteq> 0 \<or> shift = 0" "shift < 64"
  shows "read_varint_loop (encodeVarint n @ rest) shift rd wr
    = (rd + int (length (encodeVarint n)), wr OR push_bit shift (word_of_int n))"
  using assms
proof (induction n arbitrary: shift rd wr rule: encodeVarint.induct)
  case (1 n)
  have n64: "n < 2 ^ 64" using "1.prems"(2) by simp
  show ?case
  proof (cases "n \<ge> 128")
    case False
    with "1.prems" show ?thesis
      using read_varint_loop_last [of n shift rest rd wr]
      by (simp add: encodeVarint_small int_and_127)
  next
    case True
    let ?q = "n div 128"
    have "take_bit 32 n = n" using "1.prems"(1,2) by (simp add: take_bit_int_eq_self)
    then have enc: "encodeVarint n = word_of_int (n mod 128 + 128) # encodeVarint ?q"
      and q: "drop_bit 7 (take_bit 32 n) = ?q"
      using True by (simp_all add: encodeVarint_step int_and_127 int_or_128 drop_bit_eq_div)
    have s57: "shift < 57"
    proof (rule ccontr)
      assume "\<not> shift < 57"
      then have "(2 :: int) ^ 57 \<le> 2 ^ shift" by (intro power_increasing) simp_all
      then have "128 * 2 ^ 57 \<le> n * 2 ^ shift" using True by (intro mult_mono) simp_all
      with "1.prems"(3) show False by simp
    qed
    have "128 * ?q \<le> n" using True by simp
    then have "128 * ?q * 2 ^ shift \<le> n * 2 ^ shift" by (intro mult_right_mono) simp_all
    moreover have "?q * 2 ^ (shift + 7) = 128 * ?q * 2 ^ shift" by (simp add: power_add)
    ultimately have qs: "?q * 2 ^ (shift + 7) < 2 ^ 64" using "1.prems"(3) by linarith
    have IH: "read_varint_loop (encodeVarint ?q @ rest) (shift + 7) (rd + 1) wr'
        = (rd + 1 + int (length (encodeVarint ?q)), wr' OR push_bit (shift + 7) (word_of_int ?q))" for wr'
      using "1.IH" [OF True, unfolded q] True "1.prems"(2) qs s57 by simp
    show ?thesis
      using read_varint_loop_more [OF "1.prems"(1) n64 s57] IH
        varint_step_word [of shift "word_of_int n"] word_of_int_div_128 [OF "1.prems"(1) n64]
      by (simp add: enc or.assoc)
  qed
qed

lemma read_varint_encodeVarint:
  assumes "0 \<le> n" "n < 2 ^ 32"
  shows "read_varint (encodeVarint n @ rest) = (int (length (encodeVarint n)), word_of_int n)"
  using assms read_varint_loop_encode [of n 0 rest 0 0] by (simp add: read_varint_def)

lemma encodeVarint_nonempty [simp]: "encodeVarint n \<noteq> []"
  by (subst encodeVarint.simps) simp

lemma buildAddress_eq:
  "buildAddress kec prefix ps pv =
     b58Encode ((encodeVarint prefix @ ps @ pv) @ take 4 (kec (encodeVarint prefix @ ps @ pv)))"
  by (simp add: buildAddress_def Let_def jsSlice_def)

lemma decode_addr_buildAddress:
  assumes "0 \<le> prefix" "prefix < 2 ^ 32" "\<And>x. 4 \<le> length (kec x)"
  shows "decode_addr kec (buildAddress kec prefix ps pv) = Some (word_of_int prefix, ps @ pv)"
proof -
  let ?h = "encodeVarint prefix @ ps @ pv"
  have len: "length (take 4 (kec ?h)) = 4" using assms(3) by simp
  then have cut: "drop (length (?h @ take 4 (kec ?h)) - 4) (?h @ take 4 (kec ?h)) = take 4 (kec ?h)"
    "take (length (?h @ take 4 (kec ?h)) - 4) (?h @ take 4 (kec ?h)) = ?h" by simp_all
  have "\<not> length (?h @ take 4 (kec ?h)) \<le> 4" using len by simp
  moreover have "read_varint ?h = (int (length (encodeVarint prefix)), word_of_int prefix)"
    using assms(1,2) by (rule read_varint_encodeVarint)
  ultimately show ?thesis
    unfolding decode_addr_def buildAddress_eq base58_decode_b58Encode option.case Let_def cut
    by simp
qed

text \<open>
  An address of the standard prefix: 70 bytes, 97 characters, and the first one is \<open>R\<close>
  because the first block starts with the bytes 144 and 1.
\<close>

lemma encodeVarint_PREFIX_STANDARD: "encodeVarint PREFIX_STANDARD = [144, 1]"
  by (simp add: PREFIX_STANDARD_def encodeVarint_step encodeVarint_small int_and_127
      int_or_128 [of 16, simplified] drop_bit_eq_div take_bit_eq_mod)

lemma digits58_last: "digits58 (Suc k) n = digits58 k n @ [nat (n div 58 ^ k mod 58)]"
proof (induction k arbitrary: n)
  case (Suc k)
  have "digits58 (Suc (Suc k)) n = nat (n mod 58) # digits58 (Suc k) (n div 58)" by simp
  also have "\<dots> = nat (n mod 58) # digits58 k (n div 58) @ [nat (n div 58 div 58 ^ k mod 58)]"
    by (simp only: Suc)
  also have "n div 58 div 58 ^ k = n div 58 ^ Suc k" by (simp add: zdiv_zmult2_eq)
  finally show ?case by simp
qed simp

lemma encodeBlock_hd:
  "take 1 (encodeBlock b (Suc k)) = [B58_ALPHA ! nat (beValue b div 58 ^ k mod 58)]"
  by (simp only: encodeBlock_digits digits58_last) simp

lemma beValue_append: "beValue (a @ b) = beValue a * 256 ^ length b + beValue b"
  by (induction b rule: rev_induct) (simp_all add: beValue_def algebra_simps flip: append_assoc)

lemma standard_block_hd:
  assumes "length b = 6"
  shows "take 1 (encodeBlock ([144, 1] @ b) 11) = u ''R''"
proof -
  have "beValue [144, 1] = 36865" by (simp add: beValue_def)
  then have "beValue ([144, 1] @ b) = 36865 * 256 ^ 6 + beValue b"
    by (simp only: beValue_append assms)
  moreover have "0 \<le> beValue b" "beValue b < 256 ^ 6" using beValue_bounds [of b] assms by simp_all
  ultimately have "beValue ([144, 1] @ b) div 58 ^ 10 = 24" by simp
  moreover have "B58_ALPHA ! 24 = 82" by (simp add: B58_ALPHA_def)
  ultimately show ?thesis using encodeBlock_hd [of "[144, 1] @ b" 10] by simp
qed

lemma buildAddress_pattern:
  assumes "length ps = 32" "length pv = 32" "\<And>x. 4 \<le> length (kec x)"
  shows "addressPattern (buildAddress kec PREFIX_STANDARD ps pv)"
proof -
  let ?d = "([144, 1] @ ps @ pv) @ take 4 (kec ([144, 1] @ ps @ pv))"
  let ?b = "take 6 ps" and ?r = "drop 6 ps @ pv @ take 4 (kec ([144, 1] @ ps @ pv))"
  have d: "?d = ([144, 1] @ ?b) @ ?r" by simp
  have a: "buildAddress kec PREFIX_STANDARD ps pv = b58Encode ?d"
    by (simp only: buildAddress_eq encodeVarint_PREFIX_STANDARD)
  have "length ?d = 70" using assms by simp
  then have len: "length (b58Encode ?d) = 97"
    by (simp only: length_b58Encode) (simp add: B58_BLOCK_SIZES_def)
  have "b58Encode ?d = encodeBlock ([144, 1] @ ?b) 11 @ b58Encode ?r"
    unfolding d by (rule b58Encode_block) (use assms in simp)
  then have "take 1 (b58Encode ?d) = u ''R''"
    using standard_block_hd [of ?b] assms(1) by (simp add: take_append)
  moreover have "\<forall>c \<in> set (drop 1 (b58Encode ?d)). isBase58Char c"
    by (meson b58Encode_chars in_set_dropD)
  ultimately show ?thesis unfolding addressPattern_def a using len by blast
qed

end
