(* ===== verification/Mnemonic.thy ===== *)
theory Mnemonic
  imports Wallet_Bytes Wordlist_En
begin

text \<open>
  The 25-word seed of \<^verbatim>\<open>wordmine/public/lib/wallet.js\<close>: the table-driven CRC-32, the encoding
  of a 32-byte secret as 24 words and a checksum word, and its decoding; and the decoder of the
  command-line wallet, \<^verbatim>\<open>src/mnemonics/electrum-words.cpp\<close>, for a seed of 25 words once its
  language is known. The lemmas show that the CRC table computes the bit-by-bit CRC, that
  decoding inverts encoding in both programs, and where the two decoders differ.
\<close>

section \<open>CRC-32\<close>

text \<open>One round of the table's inner loop; the values are 32-bit patterns.\<close>

definition crc_round :: "u32 \<Rightarrow> u32" where
  "crc_round c = (if c AND 1 \<noteq> 0 then 0xedb88320 XOR drop_bit 1 c else drop_bit 1 c)"

definition CRC32_TABLE :: "u32 list" where
  "CRC32_TABLE = map (\<lambda>i. (crc_round ^^ 8) (of_nat i)) [0..<256]"

definition crc_update :: "u32 \<Rightarrow> nat \<Rightarrow> u32" where
  "crc_update crc c = drop_bit 8 crc XOR CRC32_TABLE ! unat ((crc XOR of_nat c) AND 0xff)"

definition crc32String :: "ustring \<Rightarrow> u32" where
  "crc32String str = foldl crc_update 0xffffffff str XOR 0xffffffff"

section \<open>Seed words in the browser wallet\<close>

text \<open>The little-endian 32-bit value at offset \<open>i\<close>.\<close>

definition chunkValue :: "bytes \<Rightarrow> nat \<Rightarrow> int" where
  "chunkValue b i =
     uint (b ! i) OR push_bit 8 (uint (b ! (i + 1)))
       OR push_bit 16 (uint (b ! (i + 2))) OR push_bit 24 (uint (b ! (i + 3)))"

definition chunkWords :: "ustring list \<Rightarrow> int \<Rightarrow> ustring list" where
  "chunkWords ws x =
     (let n = int (length ws);
          w1 = x mod n;
          w2 = (x div n + w1) mod n;
          w3 = (x div n div n + w2) mod n
      in [ws ! nat w1, ws ! nat w2, ws ! nat w3])"

definition checksumIndex :: "nat \<Rightarrow> ustring list \<Rightarrow> nat" where
  "checksumIndex prefixLen out =
     unat (crc32String (concat (map (take prefixLen) out))) mod length out"

definition bytesToMnemonic :: "bytes \<Rightarrow> ustring list \<Rightarrow> nat \<Rightarrow> ustring list res" where
  "bytesToMnemonic b ws prefixLen =
     (if length b \<noteq> 32 then Inl (Error (u ''mnemonic expects 32 bytes''))
      else if ws = [] then Inl RangeError
      else let out = concat (map (\<lambda>k. chunkWords ws (chunkValue b (4 * k))) [0..<8])
           in Inr (out @ [out ! checksumIndex prefixLen out]))"

text \<open>The map from words to indices; a later entry of the list replaces an earlier one.\<close>

definition wordIndex :: "ustring list \<Rightarrow> ustring \<Rightarrow> nat option" where
  "wordIndex ws = map_of (rev (zip ws [0..<length ws]))"

definition tripleValue :: "int \<Rightarrow> int \<Rightarrow> int \<Rightarrow> int \<Rightarrow> int" where
  "tripleValue n w1 w2 w3 =
     w1 + n * (((n - w1) + w2) mod n) + n * n * (((n - w2) + w3) mod n)"

definition tripleBytes :: "int \<Rightarrow> bytes" where
  "tripleBytes x =
     [word_of_int (x AND 0xff), word_of_int (drop_bit 8 x AND 0xff),
      word_of_int (drop_bit 16 x AND 0xff), word_of_int (drop_bit 24 x AND 0xff)]"

definition seedIndex :: "ustring list \<Rightarrow> ustring list \<Rightarrow> nat \<Rightarrow> int" where
  "seedIndex ws w24 i = (case wordIndex ws (w24 ! i) of None \<Rightarrow> 0 | Some k \<Rightarrow> int k)"

definition mnemonicToBytes :: "ustring list \<Rightarrow> ustring list \<Rightarrow> nat \<Rightarrow> bytes res" where
  "mnemonicToBytes mnemonic ws prefixLen =
     (if length mnemonic \<noteq> 25 then Inl (Error (u ''expected 25 words''))
      else case find (\<lambda>w. wordIndex ws w = None) mnemonic of
        Some w \<Rightarrow> Inl (Error (u ''word not in dictionary: '' @ w))
      | None \<Rightarrow>
          let w24 = jsSlice 0 24 mnemonic;
              expectedIdx = checksumIndex prefixLen w24
          in if mnemonic ! 24 \<noteq> w24 ! expectedIdx then Inl (Error (u ''seed checksum failed''))
             else let n = int (length ws)
                  in Inr (concat (map (\<lambda>k.
                       tripleBytes (tripleValue n (seedIndex ws w24 (3 * k))
                         (seedIndex ws w24 (3 * k + 1)) (seedIndex ws w24 (3 * k + 2)))) [0..<8])))"

section \<open>The CRC table computes the bit-by-bit CRC\<close>

text \<open>The reference: eight rounds per character, no table.\<close>

definition crc_bitwise :: "u32 \<Rightarrow> nat \<Rightarrow> u32" where
  "crc_bitwise crc c = (crc_round ^^ 8) (crc XOR (of_nat c AND 0xff))"

lemma and_1_odd: "(c :: u32) AND 1 \<noteq> 0 \<longleftrightarrow> odd c"
  by (simp add: and_one_eq odd_iff_mod_2_eq_one)

lemma crc_round_xor: "crc_round (a XOR b) = crc_round a XOR crc_round b"
  by (rule bit_word_eqI) (auto simp: crc_round_def and_1_odd bit_simps simp flip: bit_0)

lemma crc_rounds_xor: "(crc_round ^^ k) (a XOR b) = (crc_round ^^ k) a XOR (crc_round ^^ k) b"
  by (induction k) (simp_all add: crc_round_xor)

lemma crc_rounds_low_zero: "take_bit k x = 0 \<Longrightarrow> (crc_round ^^ k) x = drop_bit k x"
proof (induction k)
  case (Suc k)
  have b: "\<not> bit x j" if "j < Suc k" for j
    using Suc.prems that by (metis bit_0_eq bit_take_bit_iff bot_apply bot_bool_def)
  then have "take_bit k x = 0"
    by (intro bit_word_eqI) (auto simp: bit_simps)
  with Suc have "(crc_round ^^ Suc k) x = crc_round (drop_bit k x)" by simp
  also have "\<dots> = drop_bit (Suc k) x"
    using b [of k] by (simp add: crc_round_def and_1_odd bit_iff_odd_drop_bit)
  finally show ?case .
qed simp

lemma CRC32_TABLE_nth: "CRC32_TABLE ! unat (y AND 0xff) = (crc_round ^^ 8) (y AND 0xff)"
proof -
  have "y AND 0xff \<le> 0xff" by (rule word_and_le1)
  then have "unat (y AND 0xff) < 256" by (simp add: word_le_nat_alt)
  then show ?thesis by (simp add: CRC32_TABLE_def)
qed

lemma crc_update_bitwise: "crc_update crc c = crc_bitwise crc c"
proof -
  let ?c = "of_nat c :: u32"
  let ?hi = "push_bit 8 (drop_bit 8 crc)"
  have mask: "(y AND 0xff) = take_bit 8 y" for y :: u32
    by (simp add: take_bit_eq_mask mask_eq_exp_minus_1)
  have split: "crc XOR take_bit 8 ?c = take_bit 8 (crc XOR ?c) XOR ?hi"
    by (rule bit_word_eqI) (auto simp: bit_simps)
  have "(crc_round ^^ 8) ?hi = drop_bit 8 ?hi"
    by (rule crc_rounds_low_zero) (simp add: take_bit_push_bit)
  also have "\<dots> = drop_bit 8 crc"
    by (rule bit_word_eqI) (auto simp: bit_simps dest: bit_imp_le_length)
  finally show ?thesis
    by (simp only: crc_update_def crc_bitwise_def CRC32_TABLE_nth [unfolded mask] mask
        split crc_rounds_xor)
      (simp add: xor.commute)
qed

section \<open>One chunk\<close>

lemma chunkValue_LE: "chunkValue b i = bytesToBigIntLE [b ! i, b ! (i + 1), b ! (i + 2), b ! (i + 3)]"
proof -
  have "chunkValue b i = push_bit 8 (push_bit 8 (push_bit 8 (push_bit 8 0 OR uint (b ! (i + 3)))
      OR uint (b ! (i + 2))) OR uint (b ! (i + 1))) OR uint (b ! i)"
    by (simp add: chunkValue_def ac_simps)
  also have "\<dots> = bytesToBigIntLE [b ! i, b ! (i + 1), b ! (i + 2), b ! (i + 3)]"
    by (simp only: push_or_byte bytesToBigIntLE_simps)
  finally show ?thesis .
qed

lemma chunkValue_bounds: "0 \<le> chunkValue b i" "chunkValue b i < 2 ^ 32"
  using bytesToBigIntLE_bounds [of "[b ! i, b ! (i + 1), b ! (i + 2), b ! (i + 3)]"]
  by (simp_all only: chunkValue_LE) simp

lemma tripleBytes_LE: "tripleBytes x = bigIntToBytesLE x 4"
  by (simp add: tripleBytes_def numeral_eq_Suc)

lemma tripleBytes_mod: "tripleBytes (x mod 2 ^ 32) = tripleBytes x"
proof -
  have "bytesToBigIntLE (bigIntToBytesLE (x mod 2 ^ 32) 4) = bytesToBigIntLE (bigIntToBytesLE x 4)"
    by (simp add: bigIntToBytesLE_value)
  then show ?thesis by (simp only: tripleBytes_LE) (subst (asm) bytesToBigIntLE_inject, simp_all)
qed

lemma tripleBytes_chunkValue:
  "tripleBytes (chunkValue b i) = [b ! i, b ! (i + 1), b ! (i + 2), b ! (i + 3)]"
  by (simp only: tripleBytes_LE chunkValue_LE) (rule bigIntToBytesLE_bytes, simp)

lemma tripleValue_chunk:
  assumes "0 < n" "0 \<le> x" "x < n * n * n"
  shows "tripleValue n (x mod n) ((x div n + x mod n) mod n)
     ((x div n div n + (x div n + x mod n) mod n) mod n) = x"
proof -
  let ?q = "x div n"
  have m: "(n - w + (q + w) mod n) mod n = q mod n" for w q :: int
  proof -
    have "(n - w + (q + w) mod n) mod n = (n - w + (q + w)) mod n" by (simp add: mod_simps)
    also have "\<dots> = q mod n" by simp
    finally show ?thesis .
  qed
  have q: "0 \<le> ?q div n" using assms by (simp add: pos_imp_zdiv_nonneg_iff)
  have "?q div n < n"
  proof (rule ccontr)
    assume "\<not> ?q div n < n"
    then have "n * (n * n) \<le> ?q div n * (n * n)" using assms(1) by (intro mult_right_mono) simp_all
    also have "\<dots> = x div (n * n) * (n * n)" using assms(1) by (simp add: zdiv_zmult2_eq)
    also have "\<dots> \<le> x" using assms(1) by (simp add: minus_mod_eq_div_mult [symmetric])
    finally show False using assms(3) by (simp add: mult.assoc)
  qed
  then have top: "?q div n mod n = ?q div n" using q by simp
  have "x mod n + n * (?q mod n) + n * n * (?q div n) = x mod n + n * (?q mod n + n * (?q div n))"
    by (simp only: distrib_left mult.assoc add.assoc)
  also have "\<dots> = x" by (simp only: mod_mult_div_eq)
  finally show ?thesis unfolding tripleValue_def m top .
qed

section \<open>Encoding then decoding\<close>

lemma wordIndex_nth: "distinct ws \<Longrightarrow> i < length ws \<Longrightarrow> wordIndex ws (ws ! i) = Some i"
proof -
  assume "distinct ws" "i < length ws"
  moreover have "map fst (zip ws [0..<length ws]) = ws" by simp
  ultimately show ?thesis
    unfolding wordIndex_def
    by (intro map_of_is_SomeI) (auto simp: distinct_rev rev_map set_zip simp flip: rev_map)
qed

lemma length_chunkWords [simp]: "length (chunkWords ws x) = 3"
  by (simp add: chunkWords_def Let_def)

lemma concat_nth:
  assumes "\<And>k. length (f k) = m" "k < n" "j < m"
  shows "concat (map f [0..<n]) ! (m * k + j) = f k ! j"
  using assms(2)
proof (induction n)
  case (Suc n)
  have len: "length (concat (map f [0..<n])) = m * n"
    by (induction n) (simp_all add: assms(1))
  show ?case
  proof (cases "k = n")
    case True
    then show ?thesis using len by (simp add: nth_append)
  next
    case False
    with Suc.prems have kn: "k < n" by simp
    then have "m * Suc k \<le> m * n" by (intro mult_le_mono) simp_all
    then have "m * k + j < m * n" using assms(3) by simp
    then show ?thesis using Suc.IH [OF kn] len by (simp add: nth_append)
  qed
qed simp

lemma length_concat_map: "(\<And>k. length (f k) = m) \<Longrightarrow> length (concat (map f [0..<n])) = m * n"
  by (induction n) simp_all

lemma concat_chunks:
  assumes "length b = 4 * n"
  shows "concat (map (\<lambda>k. [b ! (4 * k), b ! (4 * k + 1), b ! (4 * k + 2), b ! (4 * k + 3)]) [0..<n]) = b"
    (is "concat (map ?f _) = _")
proof (rule nth_equalityI)
  show "length (concat (map ?f [0..<n])) = length b"
    using assms length_concat_map [of ?f 4 n] by simp
  fix i assume "i < length (concat (map ?f [0..<n]))"
  then have "i < 4 * n" using length_concat_map [of ?f 4 n] by simp
  then have k: "i div 4 < n" and j: "i mod 4 < 4" by auto
  have "concat (map ?f [0..<n]) ! (4 * (i div 4) + i mod 4) = ?f (i div 4) ! (i mod 4)"
    by (rule concat_nth [OF _ k j]) simp
  moreover have "?f q ! r = b ! (4 * q + r)" if "r < 4" for q r
  proof -
    have "r = 0 \<or> r = 1 \<or> r = 2 \<or> r = 3" using that by linarith
    then show ?thesis by auto
  qed
  then have "?f (i div 4) ! (i mod 4) = b ! (4 * (i div 4) + i mod 4)" using j by blast
  ultimately show "concat (map ?f [0..<n]) ! i = b ! i" by simp
qed

text \<open>
  The seed of a list of eight values: three words per value, then the checksum word. Encoding
  produces the seed of the eight 32-bit chunks; decoding is stated for the seed of any values
  below the cube of the size of the word list.
\<close>

definition seedOf :: "ustring list \<Rightarrow> nat \<Rightarrow> int list \<Rightarrow> ustring list" where
  "seedOf ws prefixLen xs =
     (let out = concat (map (chunkWords ws) xs) in out @ [out ! checksumIndex prefixLen out])"

definition seedRange :: "ustring list \<Rightarrow> int list \<Rightarrow> bool" where
  "seedRange ws xs \<longleftrightarrow> length xs = 8 \<and> (\<forall>x \<in> set xs. 0 \<le> x \<and> x < int (length ws) ^ 3)"

lemma bytesToMnemonic_seedOf:
  assumes "length b = 32" "ws \<noteq> []"
  shows "bytesToMnemonic b ws prefixLen = Inr (seedOf ws prefixLen (map (\<lambda>k. chunkValue b (4 * k)) [0..<8]))"
  using assms by (simp add: bytesToMnemonic_def seedOf_def Let_def comp_def)

lemma seed_words:
  assumes "seedRange ws xs" "k < 8"
  shows "concat (map (chunkWords ws) xs) ! (3 * k) = chunkWords ws (xs ! k) ! 0"
    and "concat (map (chunkWords ws) xs) ! (3 * k + 1) = chunkWords ws (xs ! k) ! 1"
    and "concat (map (chunkWords ws) xs) ! (3 * k + 2) = chunkWords ws (xs ! k) ! 2"
    and "length (concat (map (chunkWords ws) xs)) = 24"
proof -
  let ?f = "\<lambda>k. chunkWords ws (xs ! k)"
  have xs: "map (chunkWords ws) xs = map ?f [0..<8]"
    using assms(1) by (intro nth_equalityI) (simp_all add: seedRange_def)
  show "concat (map (chunkWords ws) xs) ! (3 * k) = chunkWords ws (xs ! k) ! 0"
    using concat_nth [of ?f 3 k 8 0] assms(2) by (simp add: xs)
  show "concat (map (chunkWords ws) xs) ! (3 * k + 1) = chunkWords ws (xs ! k) ! 1"
    unfolding xs by (rule concat_nth) (use assms(2) in simp_all)
  show "concat (map (chunkWords ws) xs) ! (3 * k + 2) = chunkWords ws (xs ! k) ! 2"
    unfolding xs by (rule concat_nth) (use assms(2) in simp_all)
  show "length (concat (map (chunkWords ws) xs)) = 24"
    unfolding xs using length_concat_map [of ?f 3 8] by simp
qed

lemma seedRange_pos: "seedRange ws xs \<Longrightarrow> 0 < length ws"
  by (cases ws; cases xs) (auto simp: seedRange_def)

lemma set_chunkWords: "0 < length ws \<Longrightarrow> set (chunkWords ws x) \<subseteq> set ws"
proof -
  assume "0 < length ws"
  then have "nat (v mod int (length ws)) < length ws" for v by (simp add: nat_less_iff)
  then show ?thesis unfolding chunkWords_def Let_def by (auto intro!: nth_mem)
qed

lemma seedOf_shape:
  assumes "seedRange ws xs"
  shows "length (seedOf ws p xs) = 25" "set (seedOf ws p xs) \<subseteq> set ws"
    "take 24 (seedOf ws p xs) = concat (map (chunkWords ws) xs)"
    "seedOf ws p xs ! 24 = concat (map (chunkWords ws) xs) !
       checksumIndex p (concat (map (chunkWords ws) xs))"
proof -
  let ?out = "concat (map (chunkWords ws) xs)"
  have len: "length ?out = 24" using seed_words(4) [OF assms, of 0] by simp
  then have "checksumIndex p ?out < length ?out" by (simp add: checksumIndex_def)
  moreover have "set ?out \<subseteq> set ws"
    using set_chunkWords [OF seedRange_pos [OF assms]] by (auto simp: subset_iff)
  ultimately show "set (seedOf ws p xs) \<subseteq> set ws"
    unfolding seedOf_def Let_def using nth_mem [of "checksumIndex p ?out" ?out] by auto
  show "length (seedOf ws p xs) = 25" "take 24 (seedOf ws p xs) = ?out"
    "seedOf ws p xs ! 24 = ?out ! checksumIndex p ?out"
    using len by (simp_all add: seedOf_def Let_def nth_append)
qed

lemma seedIndex_chunkWords:
  assumes "distinct ws" "0 < length ws"
  shows "w24 ! i = chunkWords ws x ! 0 \<Longrightarrow> seedIndex ws w24 i = x mod int (length ws)"
    and "w24 ! i = chunkWords ws x ! 1 \<Longrightarrow>
      seedIndex ws w24 i = (x div int (length ws) + x mod int (length ws)) mod int (length ws)"
    and "w24 ! i = chunkWords ws x ! 2 \<Longrightarrow>
      seedIndex ws w24 i = (x div int (length ws) div int (length ws) +
        (x div int (length ws) + x mod int (length ws)) mod int (length ws)) mod int (length ws)"
proof -
  let ?n = "int (length ws)"
  have idx: "case_option 0 int (wordIndex ws (ws ! nat (v mod ?n))) = v mod ?n" for v
    using assms(2) wordIndex_nth [OF assms(1), of "nat (v mod ?n)"] by (simp add: nat_less_iff)
  show "w24 ! i = chunkWords ws x ! 0 \<Longrightarrow> seedIndex ws w24 i = x mod ?n"
    "w24 ! i = chunkWords ws x ! 1 \<Longrightarrow> seedIndex ws w24 i = (x div ?n + x mod ?n) mod ?n"
    "w24 ! i = chunkWords ws x ! 2 \<Longrightarrow>
      seedIndex ws w24 i = (x div ?n div ?n + (x div ?n + x mod ?n) mod ?n) mod ?n"
    unfolding seedIndex_def by (simp_all add: chunkWords_def Let_def idx)
qed

lemma seed_triple:
  assumes "distinct ws" "seedRange ws xs" "k < 8"
  defines "w24 \<equiv> concat (map (chunkWords ws) xs)"
  shows "tripleValue (int (length ws)) (seedIndex ws w24 (3 * k)) (seedIndex ws w24 (3 * k + 1))
    (seedIndex ws w24 (3 * k + 2)) = xs ! k"
proof -
  have pos: "0 < length ws" using assms(2) by (rule seedRange_pos)
  have "xs ! k \<in> set xs" using assms(2,3) by (simp add: seedRange_def)
  then have "0 \<le> xs ! k" "xs ! k < int (length ws) * int (length ws) * int (length ws)"
    using assms(2) by (simp_all add: seedRange_def power3_eq_cube)
  then show ?thesis
    using pos tripleValue_chunk [of "int (length ws)" "xs ! k"]
      seedIndex_chunkWords [OF assms(1) pos] seed_words [OF assms(2,3)]
    unfolding w24_def by simp
qed

lemma mnemonicToBytes_seedOf:
  assumes "distinct ws" "seedRange ws xs"
  shows "mnemonicToBytes (seedOf ws p xs) ws p = Inr (concat (map tripleBytes xs))"
proof -
  let ?m = "seedOf ws p xs" and ?out = "concat (map (chunkWords ws) xs)"
  have known: "find (\<lambda>w. wordIndex ws w = None) ?m = None"
    unfolding find_None_iff using seedOf_shape(2) [OF assms(2)] wordIndex_nth [OF assms(1)]
    by (metis in_set_conv_nth option.distinct(1) subsetD)
  have "map (\<lambda>k. tripleBytes (tripleValue (int (length ws)) (seedIndex ws ?out (3 * k))
      (seedIndex ws ?out (3 * k + 1)) (seedIndex ws ?out (3 * k + 2)))) [0..<8]
    = map (\<lambda>k. tripleBytes (xs ! k)) [0..<8]"
    using seed_triple [OF assms] by (intro map_cong [OF refl]) simp
  also have "\<dots> = map tripleBytes xs"
    using assms(2) by (intro nth_equalityI) (simp_all add: seedRange_def)
  finally have "concat (map (\<lambda>k. tripleBytes (tripleValue (int (length ws))
      (seedIndex ws ?out (3 * k)) (seedIndex ws ?out (3 * k + 1)) (seedIndex ws ?out (3 * k + 2))))
      [0..<8]) = concat (map tripleBytes xs)" by (simp only:)
  then show ?thesis
    using known seedOf_shape [OF assms(2), of p] by (simp add: mnemonicToBytes_def jsSlice_def Let_def)
qed

lemma chunk_seedRange:
  assumes "2 ^ 32 \<le> int (length ws) ^ 3"
  shows "seedRange ws (map (\<lambda>k. chunkValue b (4 * k)) [0..<8])"
  using chunkValue_bounds [of b] assms by (auto simp: seedRange_def intro: order_less_le_trans)

lemma mnemonicToBytes_bytesToMnemonic:
  assumes "length b = 32" "distinct ws" "2 ^ 32 \<le> int (length ws) ^ 3"
  shows "\<exists>m. bytesToMnemonic b ws p = Inr m \<and> length m = 25 \<and> set m \<subseteq> set ws \<and>
    mnemonicToBytes m ws p = Inr b"
proof -
  let ?xs = "map (\<lambda>k. chunkValue b (4 * k)) [0..<8]"
  have ne: "ws \<noteq> []" using assms(3) by auto
  have rng: "seedRange ws ?xs" using assms(3) by (rule chunk_seedRange)
  have "concat (map tripleBytes ?xs) = b"
    using concat_chunks [of b 8] assms(1) by (simp add: tripleBytes_chunkValue comp_def)
  then show ?thesis
    using bytesToMnemonic_seedOf [OF assms(1) ne] mnemonicToBytes_seedOf [OF assms(2) rng]
      seedOf_shape [OF rng, of p] by auto
qed

end
