(* ===== verification/Wallet.thy ===== *)
theory Wallet
  imports Base58 Mnemonic
begin

text \<open>
  The public functions of \<^verbatim>\<open>wordmine/public/lib/wallet.js\<close>: a wallet from 32 random bytes and
  a wallet from a seed. The two libraries the file imports are parameters: \<open>keccak_256\<close>, and
  \<open>multiply\<close> for \<open>ed25519.ExtendedPoint.BASE.multiply(s)\<close> followed by \<open>toRawBytes()\<close>, which
  may throw. The lemmas show that a generated wallet is restored from its own seed, which field
  by field, and that its address has the form the faucet accepts.
\<close>

section \<open>Definitions\<close>

record wallet =
  address :: ustring
  mnemonic :: "ustring list"
  spendKeyHex :: ustring
  viewKeyHex :: ustring

definition scalarMultBase :: "(int \<Rightarrow> bytes res) \<Rightarrow> bytes \<Rightarrow> bytes res" where
  "scalarMultBase multiply scalarBytes =
     (let s = bytesToBigIntLE scalarBytes
      in if s = 0 then Inl (Error (u ''zero scalar'')) else multiply s)"

definition walletFromSpendSecret ::
    "(bytes \<Rightarrow> bytes) \<Rightarrow> (int \<Rightarrow> bytes res) \<Rightarrow> bytes \<Rightarrow> wallet res" where
  "walletFromSpendSecret keccak_256 multiply spendSecret =
     bindR (scReduce32 (keccak_256 spendSecret)) (\<lambda>viewSecret.
     bindR (scalarMultBase multiply spendSecret) (\<lambda>pubSpend.
     bindR (scalarMultBase multiply viewSecret) (\<lambda>pubView.
     let addr = buildAddress keccak_256 PREFIX_STANDARD pubSpend pubView
     in bindR (bytesToMnemonic spendSecret WORDS_EN PREFIX_LEN_EN) (\<lambda>m.
     Inr \<lparr>address = addr, mnemonic = m,
          spendKeyHex = bytesToHex spendSecret, viewKeyHex = bytesToHex viewSecret\<rparr>))))"

text \<open>The argument \<open>r\<close> is what \<open>crypto.getRandomValues\<close> wrote into the 32-byte array.\<close>

definition generateWallet ::
    "(bytes \<Rightarrow> bytes) \<Rightarrow> (int \<Rightarrow> bytes res) \<Rightarrow> bytes \<Rightarrow> wallet res" where
  "generateWallet keccak_256 multiply r =
     bindR (scReduce32 r) (walletFromSpendSecret keccak_256 multiply)"

definition restoreFromMnemonic ::
    "(bytes \<Rightarrow> bytes) \<Rightarrow> (int \<Rightarrow> bytes res) \<Rightarrow> ustring list \<Rightarrow> wallet res" where
  "restoreFromMnemonic keccak_256 multiply words =
     bindR (mnemonicToBytes words WORDS_EN PREFIX_LEN_EN) (walletFromSpendSecret keccak_256 multiply)"

section \<open>What the wallet relies on of the libraries\<close>

text \<open>\<open>keccak_256\<close> returns 32 bytes.\<close>

definition keccak_length :: "(bytes \<Rightarrow> bytes) \<Rightarrow> bool" where
  "keccak_length keccak_256 \<longleftrightarrow> (\<forall>x. length (keccak_256 x) = 32)"

text \<open>\<open>multiply\<close> returns a point of 32 bytes for scalars from 1 to \<open>L - 1\<close> and throws on others.\<close>

definition multiply_range :: "(int \<Rightarrow> bytes res) \<Rightarrow> bool" where
  "multiply_range multiply \<longleftrightarrow>
     (\<forall>s. if 0 < s \<and> s < L then \<exists>p. multiply s = Inr p \<and> length p = 32
          else \<exists>e. multiply s = Inl e)"

section \<open>Lemmas\<close>

text \<open>The secret that random bytes give, and the view secret derived from it, are not zero.\<close>

definition usableSecret :: "(bytes \<Rightarrow> bytes) \<Rightarrow> bytes \<Rightarrow> bool" where
  "usableSecret keccak_256 s \<longleftrightarrow> length s = 32 \<and> 0 < bytesToBigIntLE s \<and> bytesToBigIntLE s < L \<and>
     bytesToBigIntLE (keccak_256 s) mod L \<noteq> 0"

lemma scalarMultBase_ok:
  assumes "multiply_range multiply" "0 < bytesToBigIntLE s" "bytesToBigIntLE s < L"
  shows "\<exists>p. scalarMultBase multiply s = Inr p \<and> multiply (bytesToBigIntLE s) = Inr p \<and> length p = 32"
  using assms by (auto simp: scalarMultBase_def Let_def multiply_range_def)

lemma scalarMultBase_fails:
  assumes "multiply_range multiply" "\<not> (0 < bytesToBigIntLE s \<and> bytesToBigIntLE s < L)"
  shows "\<exists>e. scalarMultBase multiply s = Inl e"
  using assms by (auto simp: scalarMultBase_def Let_def multiply_range_def)

lemma walletFromSpendSecret_ok:
  assumes "keccak_length kec" "multiply_range multiply" "usableSecret kec s"
  obtains v ps pv m w where
    "scReduce32 (kec s) = Inr v" "multiply (bytesToBigIntLE s) = Inr ps"
    "multiply (bytesToBigIntLE v) = Inr pv" "length ps = 32" "length pv = 32"
    "bytesToMnemonic s WORDS_EN PREFIX_LEN_EN = Inr m"
    "walletFromSpendSecret kec multiply s = Inr w"
    "w = \<lparr>address = buildAddress kec PREFIX_STANDARD ps pv, mnemonic = m,
      spendKeyHex = bytesToHex s, viewKeyHex = bytesToHex v\<rparr>"
proof -
  have s: "length s = 32" "0 < bytesToBigIntLE s" "bytesToBigIntLE s < L"
    using assms(3) by (simp_all add: usableSecret_def)
  from scReduce32_ok [of "kec s"] obtain v where v: "scReduce32 (kec s) = Inr v"
    using assms(1) by (auto simp: keccak_length_def)
  have "bytesToBigIntLE v \<noteq> 0"
    using scReduce32_value(2) [OF v] assms(3) by (simp add: usableSecret_def)
  then have vr: "0 < bytesToBigIntLE v" "bytesToBigIntLE v < L"
    using scReduce32_reduced [OF v] by simp_all
  obtain ps where ps: "scalarMultBase multiply s = Inr ps" "multiply (bytesToBigIntLE s) = Inr ps"
      "length ps = 32"
    using scalarMultBase_ok [OF assms(2) s(2,3)] by blast
  obtain pv where pv: "scalarMultBase multiply v = Inr pv" "multiply (bytesToBigIntLE v) = Inr pv"
      "length pv = 32"
    using scalarMultBase_ok [OF assms(2) vr] by blast
  obtain m where m: "bytesToMnemonic s WORDS_EN PREFIX_LEN_EN = Inr m"
    using mnemonicToBytes_bytesToMnemonic [OF s(1) distinct_WORDS_EN, of PREFIX_LEN_EN] by auto
  show thesis
    by (rule that [OF v ps(2) pv(2) ps(3) pv(3) m _ refl])
      (simp add: walletFromSpendSecret_def Let_def v ps(1) pv(1) m)
qed

lemma walletFromSpendSecret_seed:
  assumes "walletFromSpendSecret kec multiply s = Inr w"
  shows "bytesToMnemonic s WORDS_EN PREFIX_LEN_EN = Inr (mnemonic w)" "length s = 32"
    "spendKeyHex w = bytesToHex s"
proof -
  show m: "bytesToMnemonic s WORDS_EN PREFIX_LEN_EN = Inr (mnemonic w)"
    and "spendKeyHex w = bytesToHex s"
    using assms by (auto simp: walletFromSpendSecret_def bindR_eq_Inr Let_def)
  then show "length s = 32" by (auto simp: bytesToMnemonic_def split: if_splits)
qed

text \<open>Restoring the seed of any wallet gives the same wallet.\<close>

lemma restore_walletFromSpendSecret:
  assumes "walletFromSpendSecret kec multiply s = Inr w"
  shows "restoreFromMnemonic kec multiply (mnemonic w) = Inr w"
proof -
  have "mnemonicToBytes (mnemonic w) WORDS_EN PREFIX_LEN_EN = Inr s"
    using mnemonicToBytes_bytesToMnemonic
      [OF walletFromSpendSecret_seed(2) [OF assms] distinct_WORDS_EN, of PREFIX_LEN_EN]
      walletFromSpendSecret_seed(1) [OF assms] by simp
  with assms show ?thesis by (simp add: restoreFromMnemonic_def)
qed

lemma generateWallet_secret:
  assumes "generateWallet kec multiply r = Inr w"
  obtains s where "scReduce32 r = Inr s" "walletFromSpendSecret kec multiply s = Inr w"
  using assms by (auto simp: generateWallet_def bindR_eq_Inr)

lemma generateWallet_ok:
  assumes "keccak_length kec" "multiply_range multiply" "length r = 32" "bytesToBigIntLE r mod L \<noteq> 0"
    "\<forall>s. scReduce32 r = Inr s \<longrightarrow> bytesToBigIntLE (kec s) mod L \<noteq> 0"
  obtains s w where "scReduce32 r = Inr s" "walletFromSpendSecret kec multiply s = Inr w"
    "generateWallet kec multiply r = Inr w" "addressPattern (address w)"
proof -
  obtain s where s: "scReduce32 r = Inr s" using scReduce32_ok [OF assms(3)] by blast
  have "bytesToBigIntLE s \<noteq> 0" using scReduce32_value(2) [OF s] assms(4) by simp
  then have us: "usableSecret kec s"
    using scReduce32_reduced [OF s] scReduce32_value(1) [OF s] assms(5) s
    by (simp add: usableSecret_def)
  obtain w ps pv where w: "walletFromSpendSecret kec multiply s = Inr w"
      "address w = buildAddress kec PREFIX_STANDARD ps pv" "length ps = 32" "length pv = 32"
    by (rule walletFromSpendSecret_ok [OF assms(1,2) us]) auto
  have "addressPattern (address w)"
    unfolding w(2) using w(3,4) assms(1) by (intro buildAddress_pattern) (simp_all add: keccak_length_def)
  moreover have "generateWallet kec multiply r = Inr w" by (simp add: generateWallet_def s w(1))
  ultimately show thesis using that [OF s w(1)] by blast
qed

text \<open>Two secrets give two seeds: the seed determines the spend key.\<close>

lemma walletFromSpendSecret_inject:
  assumes "walletFromSpendSecret kec multiply s = Inr w" "walletFromSpendSecret kec multiply t = Inr x"
    "mnemonic w = mnemonic x"
  shows "s = t"
proof -
  have "mnemonicToBytes (mnemonic y) WORDS_EN PREFIX_LEN_EN = Inr r"
    if "walletFromSpendSecret kec multiply r = Inr y" for r y
    using mnemonicToBytes_bytesToMnemonic
      [OF walletFromSpendSecret_seed(2) [OF that] distinct_WORDS_EN, of PREFIX_LEN_EN]
      walletFromSpendSecret_seed(1) [OF that] by simp
  from this [OF assms(1)] this [OF assms(2)] assms(3) show ?thesis by simp
qed

end
