(* ===== verification/Electrum_Words.thy ===== *)
theory Electrum_Words
  imports Mnemonic
begin

text \<open>
  The seed decoder of the command-line wallet, \<open>words_to_bytes\<close> of
  \<^verbatim>\<open>src/mnemonics/electrum-words.cpp\<close> for a 32-byte key, with the word maps of
  \<^verbatim>\<open>src/mnemonics/language_base.h\<close>. The seed is given as the list of its words and the language
  as its word list and prefix length; the search over the languages is not modelled. The CRC
  of the boost library is a parameter. The lemmas compare the decoder with the one of the
  browser wallet.
\<close>

section \<open>Definitions\<close>

definition trimmed_word_map :: "ustring list \<Rightarrow> nat \<Rightarrow> ustring \<Rightarrow> nat option" where
  "trimmed_word_map ws p = map_of (rev (zip (map (take p) ws) [0..<length ws]))"

text \<open>Matching by prefix when the seed has a checksum word, by the whole word otherwise.\<close>

definition matched_index :: "ustring list \<Rightarrow> nat \<Rightarrow> bool \<Rightarrow> ustring \<Rightarrow> nat option" where
  "matched_index ws p has_checksum w =
     (if has_checksum then trimmed_word_map ws p (toLowerCaseAscii (take p w))
      else wordIndex ws (toLowerCaseAscii w))"

definition create_checksum_index ::
    "(ustring \<Rightarrow> u32) \<Rightarrow> ustring list \<Rightarrow> nat \<Rightarrow> ustring list \<Rightarrow> nat option" where
  "create_checksum_index crc32 ws p word_list =
     map_option (\<lambda>is. unat (crc32 (concat (map (\<lambda>i. take p (ws ! i)) is))) mod length word_list)
       (those (map (matched_index ws p True) word_list))"

definition checksum_test ::
    "(ustring \<Rightarrow> u32) \<Rightarrow> ustring list \<Rightarrow> nat \<Rightarrow> ustring list \<Rightarrow> bool" where
  "checksum_test crc32 ws p seed =
     (if seed = [] then False
      else case create_checksum_index crc32 ws p (butlast seed) of
             None \<Rightarrow> False
           | Some idx \<Rightarrow> toLowerCaseAscii (take p (butlast seed ! idx))
                         = toLowerCaseAscii (take p (last seed)))"

text \<open>The loop over the triples, in 32-bit arithmetic.\<close>

definition triple_word :: "u32 \<Rightarrow> u32 \<Rightarrow> u32 \<Rightarrow> u32 \<Rightarrow> u32" where
  "triple_word n w1 w2 w3 = w1 + n * (((n - w1) + w2) mod n) + n * n * (((n - w2) + w3) mod n)"

fun decode_triples :: "u32 \<Rightarrow> nat list \<Rightarrow> bytes option" where
  "decode_triples n (i1 # i2 # i3 # rest) =
     (let w0 = triple_word n (of_nat i1) (of_nat i2) (of_nat i3)
      in if w0 mod n \<noteq> of_nat i1 then None
         else map_option (\<lambda>bs. bigIntToBytesLE (uint w0) 4 @ bs) (decode_triples n rest))"
| "decode_triples n _ = Some []"

definition words_to_bytes ::
    "(ustring \<Rightarrow> u32) \<Rightarrow> ustring list \<Rightarrow> nat \<Rightarrow> ustring list \<Rightarrow> bytes option" where
  "words_to_bytes crc32 ws p seed =
     (if length seed \<noteq> 12 \<and> length seed \<noteq> 24 \<and> length seed \<noteq> 25 then None
      else let has_checksum = (length seed = 25)
           in case those (map (matched_index ws p has_checksum) seed) of
                None \<Rightarrow> None
              | Some matched_indices \<Rightarrow>
                  if has_checksum \<and> \<not> checksum_test crc32 ws p seed then None
                  else decode_triples (of_nat (length ws)) matched_indices)"

text \<open>The overload for a secret key: the bytes must be exactly 32.\<close>

definition words_to_secret_key ::
    "(ustring \<Rightarrow> u32) \<Rightarrow> ustring list \<Rightarrow> nat \<Rightarrow> ustring list \<Rightarrow> bytes option" where
  "words_to_secret_key crc32 ws p seed =
     (case words_to_bytes crc32 ws p seed of
        None \<Rightarrow> None
      | Some s \<Rightarrow> if length s \<noteq> 32 then None else Some s)"

text \<open>
  What the decoder relies on of \<open>boost::crc_32_type\<close>: on a string of bytes it is the CRC-32
  with the reflected polynomial, initial value and final complement of all ones.
\<close>

definition crc_bytes :: "ustring \<Rightarrow> u32" where
  "crc_bytes s = foldl crc_bitwise 0xffffffff s XOR 0xffffffff"

definition is_crc32 :: "(ustring \<Rightarrow> u32) \<Rightarrow> bool" where
  "is_crc32 crc32 \<longleftrightarrow> (\<forall>s. (\<forall>c \<in> set s. c < 256) \<longrightarrow> crc32 s = crc_bytes s)"

section \<open>Matching words\<close>

lemma toLowerCaseAscii_lower: "\<forall>c \<in> set w. 96 < c \<Longrightarrow> toLowerCaseAscii w = w"
  by (induction w) (auto simp: toLowerCaseAscii_def isUpperAZ_def)

lemma matched_index_nth:
  assumes "distinct (map (take p) ws)" "i < length ws" "\<forall>c \<in> set (take p (ws ! i)). 96 < c"
  shows "matched_index ws p True (ws ! i) = Some i"
proof -
  have "wordIndex (map (take p) ws) (map (take p) ws ! i) = Some i"
    using assms(1,2) by (intro wordIndex_nth) simp_all
  then show ?thesis
    using assms(2,3) by (simp add: matched_index_def trimmed_word_map_def wordIndex_def toLowerCaseAscii_lower)
qed

lemma those_map_Some: "(\<And>x. x \<in> set xs \<Longrightarrow> f x = Some (g x)) \<Longrightarrow> those (map f xs) = Some (map g xs)"
  by (induction xs) simp_all

section \<open>One triple\<close>

lemma uint_u32: "0 \<le> x \<Longrightarrow> x < 2 ^ 32 \<Longrightarrow> uint (word_of_int x :: u32) = x"
  by (simp add: uint_word_of_int)

lemma word_mod_u32:
  assumes "0 \<le> a" "a < 2 ^ 32" "0 \<le> n" "n < 2 ^ 32"
  shows "(word_of_int a :: u32) mod word_of_int n = word_of_int (a mod n)"
proof -
  have "uint ((word_of_int a :: u32) mod word_of_int n) = a mod n"
    using assms by (simp add: uint_mod uint_u32)
  then show ?thesis by (metis word_of_int_uint)
qed

lemma triple_word_eq:
  assumes "n < 2 ^ 31" "0 \<le> w1" "w1 < n" "0 \<le> w2" "w2 < n" "0 \<le> w3" "w3 < n"
  shows "triple_word (word_of_int n) (word_of_int w1) (word_of_int w2) (word_of_int w3)
    = word_of_int (tripleValue n w1 w2 w3)"
proof -
  have "(word_of_int n - word_of_int w1 + word_of_int w2) mod word_of_int n
      = (word_of_int ((n - w1 + w2) mod n) :: u32)"
    "(word_of_int n - word_of_int w2 + word_of_int w3) mod word_of_int n
      = (word_of_int ((n - w2 + w3) mod n) :: u32)"
    using assms word_mod_u32 [of "n - w1 + w2" n] word_mod_u32 [of "n - w2 + w3" n] by simp_all
  then show ?thesis by (simp add: triple_word_def tripleValue_def)
qed

text \<open>The check after the triple detects exactly the values that do not fit 32 bits.\<close>

lemma triple_check:
  assumes "0 \<le> x" "x < 1626 ^ 3"
  shows "(word_of_int x :: u32) mod word_of_int 1626 = word_of_int (x mod 1626) \<longleftrightarrow> x < 2 ^ 32"
proof -
  have "x mod 1626 < 2 ^ 32" by (rule less_trans [of _ 1626]) simp_all
  then have small: "uint (word_of_int (x mod 1626) :: u32) = x mod 1626"
    by (intro uint_u32) simp_all
  have eq: "(word_of_int x :: u32) mod word_of_int 1626 = word_of_int (x mod 1626) \<longleftrightarrow>
      x mod 2 ^ 32 mod 1626 = x mod 1626"
    using small by (simp add: word_uint_eq_iff uint_mod uint_word_of_int)
  show ?thesis
  proof (cases "x < 2 ^ 32")
    case False
    with assms have "0 \<le> x - 2 ^ 32" "x - 2 ^ 32 < 2 ^ 32" by simp_all
    then have "x mod 2 ^ 32 = x - 2 ^ 32"
      using mod_pos_pos_trivial [of "x - 2 ^ 32" "2 ^ 32"] minus_mod_self2 [of x "2 ^ 32"] by metis
    moreover have "(x - 2 ^ 32) mod 1626 \<noteq> x mod 1626"
      by (simp add: mod_eq_dvd_iff)
    ultimately show ?thesis using False eq by simp
  qed (use assms eq in simp)
qed

section \<open>Seeds of any eight values\<close>

text \<open>What both decoders need of a word list.\<close>

definition seedWords :: "ustring list \<Rightarrow> nat \<Rightarrow> bool" where
  "seedWords ws p \<longleftrightarrow> length ws = 1626 \<and> distinct (map (take p) ws) \<and>
     (\<forall>w \<in> set ws. \<forall>c \<in> set (take p w). 96 < c) \<and> (\<forall>w \<in> set ws. \<forall>c \<in> set w. c < 256)"

lemma seedWords_WORDS_EN: "seedWords WORDS_EN PREFIX_LEN_EN"
  unfolding seedWords_def
  by (intro conjI length_WORDS_EN distinct_prefixes_WORDS_EN ballI)
    (use WORDS_EN_lower WORDS_EN_bytes in blast)+

lemma seedWords_distinct: "seedWords ws p \<Longrightarrow> distinct ws"
  unfolding seedWords_def distinct_map by blast

definition indexIn :: "ustring list \<Rightarrow> ustring \<Rightarrow> nat" where
  "indexIn ws w = (case wordIndex ws w of None \<Rightarrow> 0 | Some i \<Rightarrow> i)"

lemma indexIn_nth: "seedWords ws p \<Longrightarrow> i < 1626 \<Longrightarrow> indexIn ws (ws ! i) = i"
  using wordIndex_nth [OF seedWords_distinct, of ws p i] by (simp add: indexIn_def seedWords_def)

lemma matched_index_seed: "seedWords ws p \<Longrightarrow> w \<in> set ws \<Longrightarrow> matched_index ws p True w = Some (indexIn ws w)"
proof -
  assume sw: "seedWords ws p" and "w \<in> set ws"
  then obtain i where i: "i < length ws" "w = ws ! i" by (metis in_set_conv_nth)
  with \<open>w \<in> set ws\<close> sw have "\<forall>c \<in> set (take p (ws ! i)). 96 < c"
    unfolding seedWords_def by blast
  with i sw show ?thesis
    using matched_index_nth [of p ws i] indexIn_nth [OF sw, of i] by (simp add: seedWords_def)
qed

lemma decode_triples_chunk:
  assumes "seedWords ws p" "0 \<le> x" "x < 1626 ^ 3"
  shows "decode_triples 1626 (map (indexIn ws) (chunkWords ws x) @ rest) =
    (if x < 2 ^ 32 then map_option (\<lambda>bs. tripleBytes x @ bs) (decode_triples 1626 rest) else None)"
proof -
  let ?w1 = "x mod 1626"
  let ?w2 = "(x div 1626 + ?w1) mod 1626"
  let ?w3 = "(x div 1626 div 1626 + ?w2) mod 1626"
  have n: "length ws = 1626" using assms(1) by (simp add: seedWords_def)
  have idx: "indexIn ws (ws ! nat (v mod 1626)) = nat (v mod 1626)" for v
    using assms(1) by (intro indexIn_nth) (simp_all add: nat_less_iff)
  have ws: "map (indexIn ws) (chunkWords ws x) = [nat ?w1, nat ?w2, nat ?w3]"
    by (simp add: chunkWords_def Let_def n idx)
  have "tripleValue 1626 ?w1 ?w2 ?w3 = x"
    using tripleValue_chunk [of 1626 x] assms(2,3) by simp
  moreover have "triple_word (word_of_int 1626) (word_of_int ?w1) (word_of_int ?w2) (word_of_int ?w3)
      = word_of_int (tripleValue 1626 ?w1 ?w2 ?w3)"
    by (rule triple_word_eq) simp_all
  ultimately have w0:
    "triple_word 1626 (word_of_int ?w1) (word_of_int ?w2) (word_of_int ?w3) = word_of_int x"
    by (simp only: of_int_numeral)
  have nat_w: "(of_nat (nat (v mod 1626)) :: u32) = word_of_int (v mod 1626)" for v
    by simp
  have step: "decode_triples 1626 (map (indexIn ws) (chunkWords ws x) @ rest) =
      (if (word_of_int x :: u32) mod 1626 \<noteq> word_of_int ?w1 then None
       else map_option (\<lambda>bs. bigIntToBytesLE (uint (word_of_int x :: u32)) 4 @ bs) (decode_triples 1626 rest))"
    by (simp only: ws append.simps decode_triples.simps Let_def nat_w w0)
  have check: "(word_of_int x :: u32) mod 1626 = word_of_int ?w1 \<longleftrightarrow> x < 2 ^ 32"
    using triple_check [OF assms(2,3)] by (simp only: of_int_numeral)
  have "tripleBytes x = bigIntToBytesLE (uint (word_of_int x :: u32)) 4" if "x < 2 ^ 32"
    by (simp only: tripleBytes_LE uint_u32 [OF assms(2) that])
  then show ?thesis unfolding step check by simp
qed

lemma decode_triples_seed:
  assumes "seedWords ws p" "\<forall>x \<in> set xs. 0 \<le> x \<and> x < 1626 ^ 3"
  shows "decode_triples 1626 (map (indexIn ws) (concat (map (chunkWords ws) xs)) @ [i]) =
    (if \<forall>x \<in> set xs. x < 2 ^ 32 then Some (concat (map tripleBytes xs)) else None)"
  using assms(2)
proof (induction xs)
  case (Cons x xs)
  then show ?case
    using decode_triples_chunk [OF assms(1), of x "map (indexIn ws) (concat (map (chunkWords ws) xs)) @ [i]"]
    by (simp del: decode_triples.simps)
qed simp

lemma create_checksum_index_seed:
  assumes "seedWords ws p" "is_crc32 crc32" "set word_list \<subseteq> set ws"
  shows "create_checksum_index crc32 ws p word_list = Some (checksumIndex p word_list)"
proof -
  have idx: "ws ! indexIn ws w = w" if "w \<in> set ws" for w
    using that indexIn_nth [OF assms(1)] assms(1) by (auto simp: seedWords_def in_set_conv_nth)
  have "those (map (matched_index ws p True) word_list) = Some (map (indexIn ws) word_list)"
    using assms(3) by (intro those_map_Some matched_index_seed [OF assms(1)]) blast
  moreover have "map (\<lambda>i. take p (ws ! i)) (map (indexIn ws) word_list) = map (take p) word_list"
    using assms(3) idx by (auto simp: subset_iff)
  moreover have "\<forall>c \<in> set (concat (map (take p) word_list)). c < 256"
    using assms(1,3) by (auto simp: seedWords_def dest!: in_set_takeD)
  then have "crc32 (concat (map (take p) word_list)) = crc32String (concat (map (take p) word_list))"
    using assms(2) by (simp add: is_crc32_def crc_bytes_def crc32String_def crc_update_bitwise [abs_def])
  ultimately show ?thesis
    by (simp only: create_checksum_index_def checksumIndex_def option.map)
qed

lemma words_to_secret_key_seedOf:
  assumes "seedWords ws p" "is_crc32 crc32" "seedRange ws xs"
  shows "words_to_secret_key crc32 ws p (seedOf ws p xs) =
    (if \<forall>x \<in> set xs. x < 2 ^ 32 then Some (concat (map tripleBytes xs)) else None)"
proof -
  let ?out = "concat (map (chunkWords ws) xs)" and ?m = "seedOf ws p xs"
  let ?c = "?out ! checksumIndex p ?out"
  have m: "?m = ?out @ [?c]" by (simp add: seedOf_def Let_def)
  have sub: "set ?m \<subseteq> set ws" "length ?m = 25" using seedOf_shape [OF assms(3)] by blast+
  then have "those (map (matched_index ws p True) ?m) = Some (map (indexIn ws) ?m)"
    by (intro those_map_Some matched_index_seed [OF assms(1)]) blast
  moreover have "set ?out \<subseteq> set ws" using sub m by auto
  then have "checksum_test crc32 ws p ?m"
    using create_checksum_index_seed [OF assms(1,2)] by (simp add: checksum_test_def m)
  moreover have n: "length ws = 1626" using assms(1) by (simp add: seedWords_def)
  moreover have "\<forall>x \<in> set xs. 0 \<le> x \<and> x < 1626 ^ 3" using assms(3) n by (simp add: seedRange_def)
  then have "decode_triples 1626 (map (indexIn ws) ?m) =
      (if \<forall>x \<in> set xs. x < 2 ^ 32 then Some (concat (map tripleBytes xs)) else None)"
    using decode_triples_seed [OF assms(1)] by (simp add: m)
  ultimately have "words_to_bytes crc32 ws p ?m =
      (if \<forall>x \<in> set xs. x < 2 ^ 32 then Some (concat (map tripleBytes xs)) else None)"
    using sub(2) by (simp add: words_to_bytes_def)
  moreover have "length (concat (map tripleBytes xs)) = 32"
    using assms(3) by (simp add: seedRange_def length_concat comp_def tripleBytes_def sum_list_triv)
  ultimately show ?thesis by (simp add: words_to_secret_key_def)
qed

text \<open>Every seed the browser wallet writes is read back by the command-line wallet.\<close>

lemma words_to_secret_key_bytesToMnemonic:
  assumes "seedWords ws p" "is_crc32 crc32" "length b = 32"
  shows "\<exists>m. bytesToMnemonic b ws p = Inr m \<and> words_to_secret_key crc32 ws p m = Some b"
proof -
  let ?xs = "map (\<lambda>k. chunkValue b (4 * k)) [0..<8]"
  have n: "length ws = 1626" using assms(1) by (simp add: seedWords_def)
  then have rng: "seedRange ws ?xs" by (intro chunk_seedRange) simp
  have "concat (map tripleBytes ?xs) = b"
    using concat_chunks [of b 8] assms(3) by (simp add: tripleBytes_chunkValue comp_def)
  moreover have "ws \<noteq> []" using n by auto
  moreover have "\<forall>x \<in> set ?xs. x < 2 ^ 32" using chunkValue_bounds(2) [of b] by simp
  ultimately show ?thesis
    using bytesToMnemonic_seedOf [OF assms(3)] words_to_secret_key_seedOf [OF assms(1,2) rng] by simp
qed

end
