(* ===== verification/Cli_Wallet.thy ===== *)
theory Cli_Wallet
  imports Wallet Electrum_Words
begin

text \<open>
  The command-line wallet's side of the seed: restoring an account from a recovery key
  (\<^verbatim>\<open>src/cryptonote_basic/account.cpp\<close>, \<^verbatim>\<open>src/crypto/crypto.cpp\<close>) and writing its address
  (\<^verbatim>\<open>src/common/base58.cpp\<close>, \<^verbatim>\<open>src/common/varint.h\<close>). The elliptic-curve and hash primitives are
  parameters. The lemmas show that the C++ encoder never writes outside its block and computes
  the text of the browser's encoder, so that a seed made in the browser restores, in the
  command-line wallet, the same keys and the same address.
\<close>

section \<open>Definitions\<close>

definition uint_8be_to_64 :: "bytes \<Rightarrow> u64" where
  "uint_8be_to_64 b = word_of_int (bytesToBigIntLE (rev b))"

text \<open>
  The loop \<open>while (0 < num)\<close> over one block of the result; the first argument is \<open>i + 1\<close>.
  \<open>None\<close> stands for the write before the block that a digit too many would be.
\<close>

fun encode_block_loop :: "nat \<Rightarrow> u64 \<Rightarrow> ustring \<Rightarrow> ustring option" where
  "encode_block_loop 0 num res = (if 0 < num then None else Some res)"
| "encode_block_loop (Suc i) num res =
     (if 0 < num
      then encode_block_loop i (num div 58) (res[i := B58_ALPHA ! unat (num mod 58)])
      else Some res)"

definition encode_block :: "bytes \<Rightarrow> ustring option" where
  "encode_block block =
     (let sz = B58_BLOCK_SIZES ! length block
      in encode_block_loop sz (uint_8be_to_64 block) (replicate sz (B58_ALPHA ! 0)))"

fun encode_blocks :: "nat \<Rightarrow> bytes \<Rightarrow> ustring option" where
  "encode_blocks 0 data = (if data = [] then Some [] else encode_block data)"
| "encode_blocks (Suc k) data =
     (case encode_block (take 8 data) of
        None \<Rightarrow> None
      | Some s \<Rightarrow> map_option (\<lambda>t. s @ t) (encode_blocks k (drop 8 data)))"

definition base58_encode :: "bytes \<Rightarrow> ustring option" where
  "base58_encode data = (if data = [] then Some [] else encode_blocks (length data div 8) data)"

function write_varint :: "u64 \<Rightarrow> bytes" where
  "write_varint i =
     (if i \<ge> 0x80 then ((ucast i AND 0x7f) OR 0x80) # write_varint (drop_bit 7 i) else [ucast i])"
  by pat_completeness auto
termination
proof (relation "measure unat")
  fix i :: u64
  assume "i \<ge> 0x80"
  then have "128 \<le> unat i" by (simp add: word_le_nat_alt)
  then show "(drop_bit 7 i, i) \<in> measure unat"
    by (simp add: drop_bit_eq_div unat_div)
qed simp

declare write_varint.simps [simp del]

definition encode_addr :: "(bytes \<Rightarrow> bytes) \<Rightarrow> u64 \<Rightarrow> bytes \<Rightarrow> ustring option" where
  "encode_addr cn_fast_hash tag data =
     (let buf = write_varint tag @ data
      in base58_encode (buf @ take 4 (cn_fast_hash buf)))"

record account_keys =
  spend_public_key :: bytes
  view_public_key :: bytes
  spend_secret_key :: bytes
  view_secret_key :: bytes

text \<open>\<open>generate_keys\<close> with \<open>recover\<close> set: the public and the secret key.\<close>

definition generate_keys :: "(bytes \<Rightarrow> bytes) \<Rightarrow> (bytes \<Rightarrow> bytes) \<Rightarrow> bytes \<Rightarrow> bytes \<times> bytes" where
  "generate_keys sc_reduce32 ge_scalarmult_base recovery_key =
     (let sec = sc_reduce32 recovery_key in (ge_scalarmult_base sec, sec))"

definition account_generate ::
    "(bytes \<Rightarrow> bytes) \<Rightarrow> (bytes \<Rightarrow> bytes) \<Rightarrow> (bytes \<Rightarrow> bytes) \<Rightarrow> bytes \<Rightarrow> account_keys" where
  "account_generate keccak sc_reduce32 ge_scalarmult_base recovery_key =
     (let (spub, ssec) = generate_keys sc_reduce32 ge_scalarmult_base recovery_key;
          (vpub, vsec) = generate_keys sc_reduce32 ge_scalarmult_base (keccak ssec)
      in \<lparr>spend_public_key = spub, view_public_key = vpub,
          spend_secret_key = ssec, view_secret_key = vsec\<rparr>)"

text \<open>The main network's standard address; the blob of an address is its two keys.\<close>

definition CRYPTONOTE_PUBLIC_ADDRESS_BASE58_PREFIX :: u64 where
  "CRYPTONOTE_PUBLIC_ADDRESS_BASE58_PREFIX = 144"

definition get_account_address_as_str :: "(bytes \<Rightarrow> bytes) \<Rightarrow> account_keys \<Rightarrow> ustring option" where
  "get_account_address_as_str cn_fast_hash k =
     encode_addr cn_fast_hash CRYPTONOTE_PUBLIC_ADDRESS_BASE58_PREFIX
       (spend_public_key k @ view_public_key k)"

section \<open>The two encoders\<close>

lemma encode_block_loop_eq:
  "0 \<le> n \<Longrightarrow> n < 58 ^ k \<Longrightarrow> n < 2 ^ 64 \<Longrightarrow>
     encode_block_loop k (word_of_int n) res = Some (encodeBlock_loop k n res)"
proof (induction k arbitrary: n res)
  case (Suc k)
  let ?w = "word_of_int n :: u64"
  have un: "uint ?w = n" using Suc.prems by (intro uint_u64)
  then have pos: "0 < ?w \<longleftrightarrow> 0 < n" by (simp add: word_less_def)
  have "n < 58 * 58 ^ k" using Suc.prems by simp
  then have d: "0 \<le> n div 58" "n div 58 < 58 ^ k" "n div 58 < 2 ^ 64"
    using Suc.prems by (simp_all add: pos_imp_zdiv_nonneg_iff)
  have "uint (?w div 58) = n div 58" using un by (simp add: uint_div)
  then have w_div: "?w div 58 = word_of_int (n div 58)" by (metis word_of_int_uint)
  have "uint (?w mod 58) = n mod 58" using un by (simp add: uint_mod)
  then have w_mod: "unat (?w mod 58) = nat (n mod 58)" by (metis unat_eq_nat_uint)
  show ?case
    using Suc.IH [OF d] by (simp only: encode_block_loop.simps encodeBlock_loop.simps pos w_div w_mod) simp
next
  case 0
  then have "n = 0" by simp
  then show ?case by simp
qed

lemma encode_block_eq:
  assumes "1 \<le> length b" "length b \<le> 8"
  shows "encode_block b = Some (encodeBlock b (B58_BLOCK_SIZES ! length b))"
proof -
  have "beValue b < 58 ^ (B58_BLOCK_SIZES ! length b)" "beValue b < 2 ^ 64"
    using beValue_bounds(2) [of b] block_sizes_fit [OF assms] block_sizes_bytes [OF assms(2)] by linarith+
  then have "encode_block_loop (B58_BLOCK_SIZES ! length b) (word_of_int (beValue b)) res
      = Some (encodeBlock_loop (B58_BLOCK_SIZES ! length b) (beValue b) res)" for res
    by (intro encode_block_loop_eq beValue_bounds(1))
  moreover have "uint_8be_to_64 b = word_of_int (beValue b)"
    by (simp only: uint_8be_to_64_def beValue_LE)
  ultimately show ?thesis
    unfolding encode_block_def encodeBlock_def Let_def beValue_def by simp
qed

lemma encode_blocks_eq: "encode_blocks (length data div 8) data = Some (b58Encode data)"
proof (induction data rule: data_block_induct)
  case (short data)
  then show ?case
    using encode_block_eq [of data] by (cases data) (simp_all add: b58Encode_short)
next
  case (block b data)
  then have "length (b @ data) div 8 = Suc (length data div 8)" by simp
  moreover have "encode_block b = Some (encodeBlock b 11)"
    using encode_block_eq [of b] block(1) by (simp add: B58_BLOCK_SIZES_def)
  ultimately show ?case using block by (simp add: b58Encode_block)
qed

lemma base58_encode_eq: "base58_encode data = Some (b58Encode data)"
  using encode_blocks_eq [of data] by (cases "data = []") (simp_all add: base58_encode_def b58Encode_def)

lemma write_varint_144: "write_varint 144 = [144, 1]"
  by (subst write_varint.simps, subst write_varint.simps) (simp add: drop_bit_eq_div word_le_def)

lemma get_account_address_as_str_eq:
  "get_account_address_as_str kec k =
     Some (buildAddress kec PREFIX_STANDARD (spend_public_key k) (view_public_key k))"
  by (simp add: get_account_address_as_str_def encode_addr_def base58_encode_eq Let_def
      CRYPTONOTE_PUBLIC_ADDRESS_BASE58_PREFIX_def write_varint_144 buildAddress_eq
      encodeVarint_PREFIX_STANDARD)

section \<open>Restoring a browser seed\<close>

text \<open>
  What is assumed of the primitives of the command-line wallet: reduction is modulo the group
  order, and multiplication of the base point agrees with the browser's library where that
  library returns a point.
\<close>

definition cli_primitives ::
    "(int \<Rightarrow> bytes res) \<Rightarrow> (bytes \<Rightarrow> bytes) \<Rightarrow> (bytes \<Rightarrow> bytes) \<Rightarrow> bool" where
  "cli_primitives multiply sc_reduce32 ge_scalarmult_base \<longleftrightarrow>
     (\<forall>b. length b = 32 \<longrightarrow> Inr (sc_reduce32 b) = scReduce32 b) \<and>
     (\<forall>b p. multiply (bytesToBigIntLE b) = Inr p \<longrightarrow> ge_scalarmult_base b = p)"

lemma scalarMultBase_Inr: "scalarMultBase multiply b = Inr p \<Longrightarrow> multiply (bytesToBigIntLE b) = Inr p"
  by (simp add: scalarMultBase_def Let_def split: if_splits)

lemma cli_restores_wallet:
  assumes "cli_primitives multiply red base" "is_crc32 crc32"
    and "scReduce32 r = Inr s" "walletFromSpendSecret kec multiply s = Inr w"
  shows "\<exists>k. words_to_secret_key crc32 WORDS_EN PREFIX_LEN_EN (mnemonic w) = Some k \<and>
    get_account_address_as_str kec (account_generate kec red base k) = Some (address w) \<and>
    bytesToHex (spend_secret_key (account_generate kec red base k)) = spendKeyHex w \<and>
    bytesToHex (view_secret_key (account_generate kec red base k)) = viewKeyHex w"
proof -
  have s: "length s = 32" "bytesToMnemonic s WORDS_EN PREFIX_LEN_EN = Inr (mnemonic w)"
    using walletFromSpendSecret_seed [OF assms(4)] by blast+
  then have k: "words_to_secret_key crc32 WORDS_EN PREFIX_LEN_EN (mnemonic w) = Some s"
    using words_to_secret_key_bytesToMnemonic [OF seedWords_WORDS_EN assms(2) s(1)] by auto
  obtain v ps pv where v: "scReduce32 (kec s) = Inr v" "scalarMultBase multiply s = Inr ps"
      "scalarMultBase multiply v = Inr pv"
    and w: "w = \<lparr>address = buildAddress kec PREFIX_STANDARD ps pv, mnemonic = mnemonic w,
      spendKeyHex = bytesToHex s, viewKeyHex = bytesToHex v\<rparr>"
    using assms(4) by (auto simp: walletFromSpendSecret_def bindR_eq_Inr Let_def)
  have red_s: "red s = s"
    using assms(1) s(1) scReduce32_idem [OF assms(3)] by (metis cli_primitives_def sum.inject(2))
  have "length (kec s) = 32" using v(1) by (simp add: scReduce32_def split: if_splits)
  then have red_v: "red (kec s) = v"
    using assms(1) v(1) by (metis cli_primitives_def sum.inject(2))
  have "base s = ps" "base v = pv"
    using assms(1) v(2,3)[THEN scalarMultBase_Inr] by (simp_all add: cli_primitives_def)
  then have acc: "account_generate kec red base s = \<lparr>spend_public_key = ps, view_public_key = pv,
      spend_secret_key = s, view_secret_key = v\<rparr>"
    by (simp add: account_generate_def generate_keys_def red_s red_v)
  show ?thesis
    using k acc w by (intro exI [of _ s]) (simp add: get_account_address_as_str_eq, metis wallet.select_convs)
qed

end
