(* ===== verification/Effects.thy ===== *)
theory Effects
  imports Prelude
begin

text \<open>
  Asynchronous code as a tree of effects: a program returns, throws, or awaits the response to an
  effect and goes on. \<open>run\<close> executes one program against a service, a function from an effect and
  a world to a response and the next world; \<open>istep\<close> interleaves several programs, one effect at a
  time, which is how a platform schedules concurrent requests between their awaits.

  \<open>guards\<close> is a specification of a program that holds whatever it is interleaved with: every
  effect it performs satisfies a guarantee as long as the responses satisfy a rely condition. The
  locale \<open>rely_guarantee\<close> connects it with a service that keeps an invariant.
\<close>

section \<open>Programs\<close>

datatype ('e, 'r, 'a) prog =
    Ret 'a
  | Throw js_error
  | Eff 'e "'r \<Rightarrow> ('e, 'r, 'a) prog"

primrec bindP :: "('e, 'r, 'a) prog \<Rightarrow> ('a \<Rightarrow> ('e, 'r, 'b) prog) \<Rightarrow> ('e, 'r, 'b) prog" where
  "bindP (Ret x) f = f x"
| "bindP (Throw e) f = Throw e"
| "bindP (Eff e k) f = Eff e (\<lambda>r. bindP (k r) f)"

text \<open>\<open>try { p } catch (e) { g }\<close>.\<close>

primrec catchP :: "('e, 'r, 'a) prog \<Rightarrow> (js_error \<Rightarrow> ('e, 'r, 'a) prog) \<Rightarrow> ('e, 'r, 'a) prog" where
  "catchP (Ret x) g = Ret x"
| "catchP (Throw e) g = g e"
| "catchP (Eff e k) g = Eff e (\<lambda>r. catchP (k r) g)"

definition liftR :: "'a res \<Rightarrow> ('e, 'r, 'a) prog" where
  "liftR x = (case x of Inl e \<Rightarrow> Throw e | Inr y \<Rightarrow> Ret y)"

primrec run :: "('e \<Rightarrow> 'w \<Rightarrow> 'r \<times> 'w) \<Rightarrow> ('e, 'r, 'a) prog \<Rightarrow> 'w \<Rightarrow> 'a res \<times> 'w" where
  "run h (Ret x) w = (Inr x, w)"
| "run h (Throw e) w = (Inl e, w)"
| "run h (Eff e k) w = (case h e w of (r, w') \<Rightarrow> run h (k r) w')"

text \<open>One program after another, each to its end.\<close>

primrec runAll :: "('e \<Rightarrow> 'w \<Rightarrow> 'r \<times> 'w) \<Rightarrow> ('e, 'r, 'a) prog list \<Rightarrow> 'w \<Rightarrow> 'a res list \<times> 'w" where
  "runAll h [] w = ([], w)"
| "runAll h (p # ps) w =
     (let (x, w') = run h p w; (xs, w'') = runAll h ps w' in (x # xs, w''))"

section \<open>Interleaving\<close>

inductive istep ::
    "('e \<Rightarrow> 'w \<Rightarrow> 'r \<times> 'w) \<Rightarrow> ('e, 'r, 'a) prog list \<times> 'w \<Rightarrow> ('e, 'r, 'a) prog list \<times> 'w \<Rightarrow> bool"
  for h where
  step: "i < length ps \<Longrightarrow> ps ! i = Eff e k \<Longrightarrow> h e w = (r, w') \<Longrightarrow>
    istep h (ps, w) (ps[i := k r], w')"

inductive_cases istep_cases: "istep h (ps, w) c"

text \<open>A schedule names the program that moves next; a program that has ended does not move.\<close>

fun schedule :: "('e \<Rightarrow> 'w \<Rightarrow> 'r \<times> 'w) \<Rightarrow> nat list \<Rightarrow> ('e, 'r, 'a) prog list \<times> 'w
    \<Rightarrow> ('e, 'r, 'a) prog list \<times> 'w" where
  "schedule h [] c = c"
| "schedule h (i # is) (ps, w) =
     (if i < length ps
      then case ps ! i of
             Eff e k \<Rightarrow> (case h e w of (r, w') \<Rightarrow> schedule h is (ps[i := k r], w'))
           | _ \<Rightarrow> schedule h is (ps, w)
      else schedule h is (ps, w))"

section \<open>Specifications that survive interleaving\<close>

primrec guards :: "('e \<Rightarrow> bool) \<Rightarrow> ('e \<Rightarrow> 'r \<Rightarrow> bool) \<Rightarrow> ('a \<Rightarrow> bool) \<Rightarrow> ('e, 'r, 'a) prog \<Rightarrow> bool" where
  "guards P Q R (Ret x) \<longleftrightarrow> R x"
| "guards P Q R (Throw e) \<longleftrightarrow> True"
| "guards P Q R (Eff e k) \<longleftrightarrow> P e \<and> (\<forall>r. Q e r \<longrightarrow> guards P Q R (k r))"

section \<open>Lemmas\<close>

lemma bindP_assoc: "bindP (bindP p f) g = bindP p (\<lambda>x. bindP (f x) g)"
  by (induction p) simp_all

lemma bindP_Ret [simp]: "bindP p Ret = p"
  by (induction p) simp_all

lemma liftR_simps [simp]: "liftR (Inl e) = Throw e" "liftR (Inr x) = Ret x"
  by (simp_all add: liftR_def)

lemma run_bindP:
  "run h (bindP p f) w =
     (case run h p w of (Inl e, w') \<Rightarrow> (Inl e, w') | (Inr x, w') \<Rightarrow> run h (f x) w')"
  by (induction p arbitrary: w) (simp_all split: prod.splits)

lemma run_catchP:
  "run h (catchP p g) w =
     (case run h p w of (Inl e, w') \<Rightarrow> run h (g e) w' | (Inr x, w') \<Rightarrow> (Inr x, w'))"
  by (induction p arbitrary: w) (simp_all split: prod.splits)

lemma run_if: "run h (if b then p else q) w = (if b then run h p w else run h q w)"
  by simp

lemma guards_mono:
  assumes "guards P Q R p" "\<And>e. P e \<Longrightarrow> P' e" "\<And>e r. Q' e r \<Longrightarrow> Q e r" "\<And>x. R x \<Longrightarrow> R' x"
  shows "guards P' Q' R' p"
  using assms by (induction p) auto

text \<open>As equations: the specification of a program is computed from its end.\<close>

lemma guards_bindP: "guards P Q R (bindP p f) \<longleftrightarrow> guards P Q (\<lambda>x. guards P Q R (f x)) p"
  by (induction p) simp_all

lemma guards_catchP:
  assumes "guards P Q R p" "\<And>e. guards P Q R (g e)"
  shows "guards P Q R (catchP p g)"
  using assms by (induction p) auto

lemma guards_liftR: "guards P Q R (liftR v) \<longleftrightarrow> (\<forall>x. v = Inr x \<longrightarrow> R x)"
  by (cases v) simp_all

lemma istep_schedule:
  "(istep h)\<^sup>*\<^sup>* c (schedule h is c)"
proof (induction h "is" c rule: schedule.induct)
  case (2 h i "is" ps w)
  show ?case
  proof (cases "i < length ps")
    case True
    show ?thesis
    proof (cases "ps ! i")
      case (Eff e k)
      obtain r w' where r: "h e w = (r, w')" by (cases "h e w")
      have "istep h (ps, w) (ps[i := k r], w')" using True Eff r by (rule istep.step)
      moreover have "(istep h)\<^sup>*\<^sup>* (ps[i := k r], w') (schedule h is (ps[i := k r], w'))"
        using "2.IH"(3) [OF True Eff r [symmetric]] by simp
      ultimately show ?thesis using True Eff r by simp
    qed (use 2 True in simp_all)
  qed (use 2 in simp)
qed simp

text \<open>A program run to its end alone is one of its interleavings.\<close>

lemma list_update_same: "xs ! i = y \<Longrightarrow> xs[i := y] = xs"
  by (metis list_update_id)

lemma run_istep:
  assumes "run h p w = (x, w')" "ps ! i = p" "i < length ps"
  shows "(istep h)\<^sup>*\<^sup>* (ps, w) (ps[i := liftR x], w')"
  using assms
proof (induction p arbitrary: w ps)
  case (Eff e k)
  obtain r v where r: "h e w = (r, v)" by (cases "h e w")
  have "istep h (ps, w) (ps[i := k r], v)" using Eff.prems(3,2) r by (rule istep.step)
  moreover have "(istep h)\<^sup>*\<^sup>* (ps[i := k r], v) ((ps[i := k r])[i := liftR x], w')"
    using Eff.prems r by (intro Eff.IH [of "k r"]) simp_all
  ultimately show ?case by (simp add: converse_rtranclp_into_rtranclp)
qed (auto simp: list_update_same)

section \<open>Rely and guarantee\<close>

locale rely_guarantee =
  fixes h :: "'e \<Rightarrow> 'w \<Rightarrow> 'r \<times> 'w"
    and Inv :: "'w \<Rightarrow> bool"
    and P :: "'e \<Rightarrow> bool"
    and Q :: "'e \<Rightarrow> 'r \<Rightarrow> bool"
  assumes rely: "Inv w \<Longrightarrow> h e w = (r, w') \<Longrightarrow> Q e r"
    and keep: "Inv w \<Longrightarrow> P e \<Longrightarrow> h e w = (r, w') \<Longrightarrow> Inv w'"
begin

lemma run_keeps:
  assumes "guards P Q R p" "Inv w" "run h p w = (x, w')"
  shows "Inv w' \<and> (\<forall>y. x = Inr y \<longrightarrow> R y)"
  using assms
proof (induction p arbitrary: w)
  case (Eff e k)
  obtain r v where r: "h e w = (r, v)" by (cases "h e w")
  then have "Q e r" "Inv v" using Eff.prems rely keep by auto
  then show ?case using Eff.IH [of "k r" v] Eff.prems r by simp
qed auto

text \<open>Under interleaving, with a condition on the result of each program.\<close>

lemma istep_keeps:
  assumes "istep h (ps, w) (qs, v)" "Inv w" "\<forall>i < length ps. guards P Q (R i) (ps ! i)"
  shows "Inv v \<and> length qs = length ps \<and> (\<forall>i < length qs. guards P Q (R i) (qs ! i))"
  using assms(1)
proof (cases rule: istep.cases)
  case (step i e k r)
  then have "guards P Q (R i) (Eff e k)" using assms(3) by metis
  then have "P e" "\<forall>r. Q e r \<longrightarrow> guards P Q (R i) (k r)" by simp_all
  then show ?thesis
    using step assms(2,3) rely [OF assms(2)] keep [OF assms(2)]
    by (auto simp: nth_list_update)
qed

lemma isteps_keep:
  assumes "(istep h)\<^sup>*\<^sup>* (ps, w) (qs, v)" "Inv w" "\<forall>i < length ps. guards P Q (R i) (ps ! i)"
  shows "Inv v \<and> length qs = length ps \<and> (\<forall>i < length qs. guards P Q (R i) (qs ! i))"
  using assms(1)
proof (induction qs v rule: rtranclp_induct2)
  case (step ps' w' qs v)
  then show ?case using istep_keeps [of ps' w' qs v R] by auto
qed (use assms in simp)

lemma isteps_result:
  assumes "(istep h)\<^sup>*\<^sup>* (ps, w) (qs, v)" "Inv w" "\<forall>i < length ps. guards P Q (R i) (ps ! i)"
    "i < length ps" "qs ! i = Ret y"
  shows "R i y"
  using isteps_keep [OF assms(1-3)] assms(4,5) by (metis guards.simps(1))

end

end
