(* ===== verification/Http.thy ===== *)
theory Http
  imports Prelude
begin

text \<open>
  Requests, responses and their headers, as the workers use them. Header names are in lower case
  and occur once. A body is absent, or is what reading it gives: the bytes, or an error when the
  stream breaks.
\<close>

type_synonym headers = "(ustring \<times> ustring) list"

record http_request =
  hreq_method :: ustring
  hreq_path :: ustring
  hreq_search :: ustring
  hreq_headers :: headers
  hreq_body :: bytes

record http_response =
  hres_status :: nat
  hres_headers :: headers
  hres_body :: "bytes res option"

text \<open>\<open>h.set(k, v)\<close>: one value for the name.\<close>

definition setHeader :: "ustring \<Rightarrow> ustring \<Rightarrow> headers \<Rightarrow> headers" where
  "setHeader k v hs = filter (\<lambda>(k', v'). k' \<noteq> k) hs @ [(k, v)]"

definition setHeaders :: "headers \<Rightarrow> headers \<Rightarrow> headers" where
  "setHeaders l hs = foldl (\<lambda>h (k, v). setHeader k v h) hs l"

text \<open>\<open>headers.get(name) || alt\<close>.\<close>

definition headerOr :: "headers \<Rightarrow> ustring \<Rightarrow> ustring \<Rightarrow> ustring" where
  "headerOr hs name alt =
     (case map_of hs name of None \<Rightarrow> alt | Some v \<Rightarrow> if v = [] then alt else v)"

text \<open>
  \<open>new Response(body, {status, headers})\<close>: the status must be from 200 to 599, and 204, 205 and 304
  admit no body.
\<close>

definition newResponse :: "bytes res option \<Rightarrow> nat \<Rightarrow> headers \<Rightarrow> http_response res" where
  "newResponse b st hs =
     (if st < 200 \<or> 599 < st then Inl RangeError
      else if b \<noteq> None \<and> (st = 204 \<or> st = 205 \<or> st = 304) then Inl TypeError
      else Inr \<lparr>hres_status = st, hres_headers = hs, hres_body = b\<rparr>)"

text \<open>\<open>arrayBuffer()\<close>.\<close>

definition readBody :: "http_response \<Rightarrow> bytes res" where
  "readBody resp = (case hres_body resp of None \<Rightarrow> Inr [] | Some b \<Rightarrow> b)"

section \<open>Lemmas\<close>

lemma map_of_setHeader: "map_of (setHeader k v hs) = (map_of hs)(k \<mapsto> v)"
proof -
  have "map_of (filter (\<lambda>(k', v'). k' \<noteq> k) hs) x = (if x = k then None else map_of hs x)" for x
    by (induction hs) auto
  then show ?thesis by (auto simp: setHeader_def map_add_def fun_eq_iff split: option.splits)
qed

lemma map_of_setHeaders:
  "distinct (map fst l) \<Longrightarrow>
     map_of (setHeaders l hs) x = (case map_of l x of None \<Rightarrow> map_of hs x | Some v \<Rightarrow> Some v)"
proof (induction l arbitrary: hs)
  case (Cons kv l)
  obtain k v where kv: "kv = (k, v)" by force
  have "map_of l k = None" using Cons.prems kv by (auto simp: map_of_eq_None_iff)
  then show ?case using Cons kv by (auto simp: map_of_setHeader setHeaders_def split: option.splits)
qed (simp add: setHeaders_def)

lemma newResponse_ok:
  "newResponse b st hs = Inr r \<Longrightarrow> hres_status r = st \<and> hres_headers r = hs \<and> hres_body r = b"
  by (auto simp: newResponse_def split: if_splits)

end
