(* ===== verification/Js_Number.thy ===== *)
theory Js_Number
  imports Js_String "HOL-Library.Log_Nat"
begin

text \<open>
  The \<open>Number\<close> type of the language. A finite number is the rational it stands for; the result
  of an arithmetic operator is the exact result rounded by \<open>fl\<close> to the nearest IEEE-754 double,
  ties to even. The two zeros are one value: nothing in the sources tells them apart. The
  locale \<open>rounding\<close> holds what the arithmetic of the components uses of rounding: it is
  monotone, it fixes the numbers it returns, and it fixes integers up to \<open>2 ^ 53\<close>.
\<close>

section \<open>Definitions\<close>

text \<open>The exponent of the leading digit of a positive rational, in a base.\<close>

definition leadExp :: "nat \<Rightarrow> rat \<Rightarrow> int" where
  "leadExp base x =
     (let (a, b) = quotient_of x;
          e = int (floorlog base (nat a)) - int (floorlog base (nat b))
      in if of_nat base powi e \<le> x then e else e - 1)"

definition bexp :: "rat \<Rightarrow> int" where
  "bexp x = leadExp 2 x"

definition roundEven :: "rat \<Rightarrow> int" where
  "roundEven x =
     (let f = \<lfloor>x\<rfloor>; d = x - of_int f
      in if d < 1 / 2 then f else if 1 / 2 < d then f + 1 else if even f then f else f + 1)"

text \<open>The exponent of the last place of the double nearest to a positive number.\<close>

definition ulpExp :: "rat \<Rightarrow> int" where
  "ulpExp x = max (bexp x) (- 1022) - 52"

definition flPos :: "rat \<Rightarrow> rat" where
  "flPos x = of_int (roundEven (x / 2 powi ulpExp x)) * 2 powi ulpExp x"

definition fl :: "rat \<Rightarrow> rat" where
  "fl x = (if x = 0 then 0 else if 0 < x then flPos x else - flPos (- x))"

text \<open>The operators on finite numbers whose results stay finite.\<close>

definition jsMul :: "rat \<Rightarrow> rat \<Rightarrow> rat" where
  "jsMul a b = fl (a * b)"

definition jsDiv :: "rat \<Rightarrow> rat \<Rightarrow> rat" where
  "jsDiv a b = fl (a / b)"

definition mathFloor :: "rat \<Rightarrow> int" where
  "mathFloor x = \<lfloor>x\<rfloor>"

section \<open>Numbers as text\<close>

text \<open>
  \<open>Number::toString\<close>. A candidate of \<open>k\<close> digits for a positive \<open>x\<close> is one of the two integers
  next to \<open>x\<close> scaled to \<open>k\<close> digits that rounds back to \<open>x\<close>; the nearer one is taken, the even one
  on a tie, and the number of digits is the least that has a candidate. A double has an exact
  decimal form of fewer than 1100 digits, so that the search below that bound finds one.
\<close>

definition digitCandidate :: "rat \<Rightarrow> nat \<Rightarrow> int option" where
  "digitCandidate x k =
     (let scale = 10 powi (leadExp 10 x + 1 - int k);
          q = x / scale; f = \<lfloor>q\<rfloor>;
          ok = (\<lambda>c. 0 < c \<and> fl (of_int c * scale) = x);
          first = (if q - of_int f < 1 / 2 \<or> q - of_int f = 1 / 2 \<and> even f then f else f + 1);
          second = (if first = f then f + 1 else f)
      in if ok first then Some first else if ok second then Some second else None)"

fun shortestDigits :: "rat \<Rightarrow> nat \<Rightarrow> nat \<Rightarrow> (int \<times> nat) option" where
  "shortestDigits x k 0 = None"
| "shortestDigits x k (Suc n) =
     (case digitCandidate x k of Some c \<Rightarrow> Some (c, k) | None \<Rightarrow> shortestDigits x (Suc k) n)"

text \<open>The digits, and the exponent \<open>n\<close> of the decimal point from the first of them.\<close>

definition decimalForm :: "rat \<Rightarrow> (ustring \<times> int) option" where
  "decimalForm x =
     map_option (\<lambda>(c, k).
       if c = 10 ^ k then (natToString (nat (c div 10)), leadExp 10 x + 2)
       else (natToString (nat c), leadExp 10 x + 1)) (shortestDigits x 1 1100)"

definition layoutDecimal :: "ustring \<Rightarrow> int \<Rightarrow> ustring" where
  "layoutDecimal ds n =
     (let k = int (length ds)
      in if k \<le> n \<and> n \<le> 21 then ds @ replicate (nat (n - k)) 48
         else if 0 < n \<and> n \<le> 21 then take (nat n) ds @ [46] @ drop (nat n) ds
         else if - 6 < n \<and> n \<le> 0 then u ''0.'' @ replicate (nat (- n)) 48 @ ds
         else take 1 ds @ (if k = 1 then [] else [46] @ drop 1 ds) @ u ''e'' @
              (if 0 < n - 1 then u ''+'' else u ''-'') @ natToString (nat \<bar>n - 1\<bar>))"

definition posToString :: "rat \<Rightarrow> ustring" where
  "posToString x = (case decimalForm x of None \<Rightarrow> [] | Some (ds, n) \<Rightarrow> layoutDecimal ds n)"

definition finToString :: "rat \<Rightarrow> ustring" where
  "finToString x =
     (if x = 0 then u ''0'' else if x < 0 then u ''-'' @ posToString (- x) else posToString x)"

text \<open>All values of the type; the range of the finite ones is below \<open>2 ^ 1024\<close>.\<close>

datatype jsnum = Fin rat | PInf | NInf | NaN

definition toDouble :: "rat \<Rightarrow> jsnum" where
  "toDouble x =
     (let r = fl x in if 2 ^ 1024 \<le> r then PInf else if r \<le> - (2 ^ 1024) then NInf else Fin r)"

primrec numToString :: "jsnum \<Rightarrow> ustring" where
  "numToString (Fin x) = finToString x"
| "numToString PInf = u ''Infinity''"
| "numToString NInf = u ''-Infinity''"
| "numToString NaN = u ''NaN''"

section \<open>The interface of rounding\<close>

locale rounding =
  fixes rnd :: "rat \<Rightarrow> rat"
  assumes rnd_mono: "x \<le> y \<Longrightarrow> rnd x \<le> rnd y"
    and rnd_idem: "rnd (rnd x) = rnd x"
    and rnd_int: "\<bar>n\<bar> \<le> 2 ^ 53 \<Longrightarrow> rnd (of_int n) = of_int n"
begin

lemma rnd_0 [simp]: "rnd 0 = 0"
  using rnd_int [of 0] by simp

lemma rnd_1 [simp]: "rnd 1 = 1"
  using rnd_int [of 1] by simp

lemma rnd_nonneg: "0 \<le> x \<Longrightarrow> 0 \<le> rnd x"
  using rnd_mono [of 0 x] by simp

lemma rnd_le_int: "x \<le> of_int n \<Longrightarrow> \<bar>n\<bar> \<le> 2 ^ 53 \<Longrightarrow> rnd x \<le> of_int n"
  using rnd_mono [of x "of_int n"] rnd_int [of n] by simp

lemma rnd_ge_int: "of_int n \<le> x \<Longrightarrow> \<bar>n\<bar> \<le> 2 ^ 53 \<Longrightarrow> of_int n \<le> rnd x"
  using rnd_mono [of "of_int n" x] rnd_int [of n] by simp

lemma rnd_le_fixed: "x \<le> y \<Longrightarrow> rnd y = y \<Longrightarrow> rnd x \<le> y"
  using rnd_mono [of x y] by simp

lemma rnd_div_bounds:
  "0 \<le> x \<Longrightarrow> x \<le> of_int n \<Longrightarrow> \<bar>n\<bar> \<le> 2 ^ 53 \<Longrightarrow> 1 \<le> k \<Longrightarrow> 0 \<le> rnd (x / k) \<and> rnd (x / k) \<le> of_int n"
proof -
  assume x: "0 \<le> x" "x \<le> of_int n" "\<bar>n\<bar> \<le> 2 ^ 53" "1 \<le> k"
  then have "x / k \<le> x" by (simp add: divide_le_eq mult_le_cancel_left1)
  with x show ?thesis by (intro conjI rnd_nonneg rnd_le_int) simp_all
qed

end

section \<open>Doubles round correctly\<close>

lemma rat_pow2: "(2 :: rat) powi int n = 2 ^ n"
  by simp

lemma pow2_pos [simp]: "0 < (2 :: rat) powi e"
  by (simp add: zero_less_power_int)

lemma floorlog_rat:
  assumes "0 < a" "1 < base"
  shows "of_nat base powi (int (floorlog base (nat a)) - 1) \<le> (of_int a :: rat)"
    "(of_int a :: rat) < of_nat base powi int (floorlog base (nat a))"
proof -
  let ?f = "floorlog base (nat a)"
  have b: "base ^ (?f - 1) \<le> nat a" "nat a < base ^ ?f"
    using floorlog_bounds [of "nat a" base] assms by simp_all
  have "?f \<noteq> 0" using assms by (simp add: floorlog_eq_zero_iff)
  then have e: "int ?f - 1 = int (?f - 1)" by simp
  have "int (base ^ (?f - 1)) \<le> a" "a < int (base ^ ?f)" using b assms by linarith+
  then have "(of_int (int (base ^ (?f - 1))) :: rat) \<le> of_int a"
    "(of_int a :: rat) < of_int (int (base ^ ?f))"
    by (simp_all only: of_int_le_iff of_int_less_iff)
  then show "of_nat base powi (int ?f - 1) \<le> (of_int a :: rat)"
    "(of_int a :: rat) < of_nat base powi int ?f"
    by (simp_all add: e)
qed

lemma leadExp_bounds:
  assumes "0 < x" "1 < base"
  shows "of_nat base powi leadExp base x \<le> x" "x < of_nat base powi (leadExp base x + 1)"
proof -
  let ?B = "of_nat base :: rat"
  have B: "?B \<noteq> 0" "0 < ?B powi k" for k using assms(2) by (simp_all add: zero_less_power_int)
  obtain a b where q: "quotient_of x = (a, b)" by (cases "quotient_of x")
  have b: "0 < b" using q by (rule quotient_of_denom_pos)
  have x: "x = of_int a / of_int b" using q by (rule quotient_of_div)
  then have a: "0 < a" using assms(1) b by (simp add: zero_less_divide_iff)
  let ?fa = "int (floorlog base (nat a))" and ?fb = "int (floorlog base (nat b))"
  let ?e = "?fa - ?fb"
  have be: "leadExp base x = (if ?B powi ?e \<le> x then ?e else ?e - 1)"
    by (simp add: leadExp_def q Let_def)
  note bounds = floorlog_rat [OF a assms(2)] floorlog_rat [OF b assms(2)]
  have "?B powi (?e - 1) = ?B powi (?fa - 1) / ?B powi ?fb"
    using power_int_diff [of ?B "?fa - 1" ?fb] B(1) by (simp add: algebra_simps)
  also have "\<dots> \<le> x"
    unfolding x using bounds a b B(2) by (intro frac_le) (simp_all add: order_less_imp_le)
  finally have lo: "?B powi (?e - 1) \<le> x" .
  have "x < ?B powi ?fa / ?B powi (?fb - 1)"
    unfolding x using bounds a b B(2) by (intro frac_less) (simp_all add: order_less_imp_le)
  also have "\<dots> = ?B powi (?e + 1)"
    using power_int_diff [of ?B ?fa "?fb - 1"] B(1) by (simp add: algebra_simps)
  finally have hi: "x < ?B powi (?e + 1)" .
  show "?B powi leadExp base x \<le> x" "x < ?B powi (leadExp base x + 1)"
    using lo hi by (auto simp: be)
qed

lemma bexp_bounds:
  assumes "0 < x"
  shows "2 powi bexp x \<le> x" "x < 2 powi (bexp x + 1)"
  using leadExp_bounds [OF assms, of 2] by (simp_all add: bexp_def)

lemma bexp_unique:
  assumes "2 powi e \<le> x" "x < 2 powi (e + 1)"
  shows "bexp x = e"
proof -
  have x: "0 < x" using assms(1) pow2_pos [of e] by linarith
  have mono: "(2 :: rat) powi m \<le> 2 powi n" if "m \<le> n" for m n :: int
    using that by (intro power_int_increasing) simp_all
  have "\<not> bexp x + 1 \<le> e" using mono [of "bexp x + 1" e] bexp_bounds(2) [OF x] assms(1) by fastforce
  moreover have "\<not> e + 1 \<le> bexp x" using mono [of "e + 1" "bexp x"] bexp_bounds(1) [OF x] assms(2) by fastforce
  ultimately show ?thesis by simp
qed

lemma bexp_mono: "0 < x \<Longrightarrow> x \<le> y \<Longrightarrow> bexp x \<le> bexp y"
proof (rule ccontr)
  assume x: "0 < x" "x \<le> y" and "\<not> bexp x \<le> bexp y"
  then have "bexp y + 1 \<le> bexp x" by simp
  then have "(2 :: rat) powi (bexp y + 1) \<le> 2 powi bexp x" by (intro power_int_increasing) simp_all
  also have "\<dots> \<le> x" using bexp_bounds(1) [OF x(1)] .
  finally show False using bexp_bounds(2) [of y] x by linarith
qed

lemma roundEven_of_int [simp]: "roundEven (of_int n) = n"
  by (simp add: roundEven_def)

lemma roundEven_mono: "x \<le> y \<Longrightarrow> roundEven x \<le> roundEven y"
proof -
  assume xy: "x \<le> y"
  then have "\<lfloor>x\<rfloor> \<le> \<lfloor>y\<rfloor>" by (rule floor_mono)
  then consider "\<lfloor>x\<rfloor> = \<lfloor>y\<rfloor>" | "\<lfloor>x\<rfloor> + 1 \<le> \<lfloor>y\<rfloor>" by linarith
  then show ?thesis
  proof cases
    case 1
    with xy show ?thesis by (auto simp: roundEven_def Let_def)
  next
    case 2
    then show ?thesis by (auto simp: roundEven_def Let_def)
  qed
qed

lemma roundEven_le: "x \<le> of_int n \<Longrightarrow> roundEven x \<le> n"
  using roundEven_mono [of x "of_int n"] by simp

lemma roundEven_ge: "of_int n \<le> x \<Longrightarrow> n \<le> roundEven x"
  using roundEven_mono [of "of_int n" x] by simp

text \<open>A number of at most 53 bits on a grid that is fine enough is a double.\<close>

lemma pow2_le_iff: "(2 :: rat) powi m \<le> 2 powi n \<longleftrightarrow> m \<le> n"
  by (metis linorder_not_le one_less_numeral_iff power_int_increasing power_int_strict_increasing
      semiring_norm(76) order_less_imp_le)

lemma pow2_int: "0 \<le> e \<Longrightarrow> (2 :: rat) powi e = of_int (2 ^ nat e)"
  by (cases e) simp_all

lemma flPos_grid:
  assumes "0 < m" "m \<le> 2 ^ 53" "- 1074 \<le> e"
  shows "flPos (of_int m * 2 powi e) = of_int m * 2 powi e"
proof -
  let ?x = "of_int m * 2 powi e :: rat" and ?g = "ulpExp (of_int m * 2 powi e)"
  have x: "0 < ?x" using assms(1) by simp
  have split: "?x / 2 powi g = of_int m * 2 powi (e - g)" for g
    by (simp add: power_int_diff)
  have "\<exists>k. ?x / 2 powi ?g = of_int k"
  proof (cases "m = 2 ^ 53")
    case True
    then have "?x = 2 powi (e + 53)" by (simp add: power_int_add)
    then have "bexp ?x = e + 53" by (intro bexp_unique) (simp_all add: power_int_add)
    then have "?g = e + 1" using assms(3) by (simp add: ulpExp_def)
    then have "?x / 2 powi ?g = of_int (2 ^ 52)"
      using True by (simp add: power_int_add)
    then show ?thesis by blast
  next
    case False
    then have "(of_int m :: rat) < of_int (2 ^ 53)" using assms(2) by (simp only: of_int_less_iff)
    then have "?x < 2 powi 53 * 2 powi e" by simp
    also have "\<dots> = 2 powi (e + 53)" by (simp add: power_int_add)
    finally have "\<not> 2 powi (e + 53) \<le> ?x" by simp
    then have "bexp ?x < e + 53"
      using bexp_bounds(1) [OF x] pow2_le_iff [of "e + 53" "bexp ?x"] by (meson linorder_not_le order_trans)
    then have "?g \<le> e" using assms(3) by (simp add: ulpExp_def)
    then have "?x / 2 powi ?g = of_int (m * 2 ^ nat (e - ?g))"
      unfolding split by (simp add: pow2_int)
    then show ?thesis by blast
  qed
  then obtain k where k: "?x / 2 powi ?g = of_int k" by blast
  then have "flPos ?x = of_int k * 2 powi ?g" by (simp add: flPos_def)
  also have "\<dots> = ?x" by (simp flip: k)
  finally show ?thesis .
qed

lemma ulpExp_scaled:
  assumes "0 < x"
  shows "0 \<le> x / 2 powi ulpExp x" "x / 2 powi ulpExp x < 2 ^ 53"
proof -
  let ?g = "ulpExp x"
  show "0 \<le> x / 2 powi ?g" using assms by simp
  have "x < 2 powi (bexp x + 1)" by (rule bexp_bounds(2) [OF assms])
  also have "\<dots> \<le> 2 powi (?g + 53)" unfolding pow2_le_iff by (simp add: ulpExp_def)
  also have "\<dots> = 2 ^ 53 * 2 powi ?g" by (simp add: power_int_add)
  finally show "x / 2 powi ?g < 2 ^ 53" by (simp add: divide_less_eq)
qed

lemma roundEven_scaled:
  assumes "0 < x"
  shows "0 \<le> roundEven (x / 2 powi ulpExp x)" "roundEven (x / 2 powi ulpExp x) \<le> 2 ^ 53"
  using roundEven_ge [of 0] roundEven_le [of _ "2 ^ 53"] ulpExp_scaled [OF assms]
  by (simp_all add: order_less_imp_le)

lemma flPos_nonneg: "0 < x \<Longrightarrow> 0 \<le> flPos x"
  using roundEven_scaled [of x] by (simp add: flPos_def)

lemma flPos_idem: "0 < x \<Longrightarrow> fl (flPos x) = flPos x"
proof -
  assume x: "0 < x"
  let ?m = "roundEven (x / 2 powi ulpExp x)"
  show ?thesis
  proof (cases "?m = 0")
    case False
    then have "0 < ?m" "?m \<le> 2 ^ 53" using roundEven_scaled [OF x] by simp_all
    moreover have "- 1074 \<le> ulpExp x" by (simp add: ulpExp_def)
    ultimately have "flPos (flPos x) = flPos x" and "0 < flPos x"
      using flPos_grid [of ?m "ulpExp x"] by (simp_all add: flPos_def)
    then show ?thesis by (simp add: fl_def)
  qed (simp add: fl_def flPos_def)
qed

lemma flPos_mono:
  assumes "0 < x" "x \<le> y"
  shows "flPos x \<le> flPos y"
proof (cases "ulpExp x = ulpExp y")
  case True
  have "x / 2 powi ulpExp y \<le> y / 2 powi ulpExp y" using assms(2) by (intro divide_right_mono) simp_all
  then have "roundEven (x / 2 powi ulpExp y) \<le> roundEven (y / 2 powi ulpExp y)" by (rule roundEven_mono)
  then show ?thesis unfolding flPos_def True by (intro mult_right_mono) simp_all
next
  case False
  have "ulpExp x \<le> ulpExp y" using bexp_mono [OF assms] by (auto simp: ulpExp_def)
  with False have less: "ulpExp x + 1 \<le> ulpExp y" and by_y: "bexp y = ulpExp y + 52"
    by (auto simp: ulpExp_def max_def split: if_splits)
  have "(of_int (roundEven (x / 2 powi ulpExp x)) :: rat) \<le> of_int (2 ^ 53)"
    using roundEven_scaled(2) [OF assms(1)] by (simp only: of_int_le_iff)
  then have "flPos x \<le> 2 ^ 53 * 2 powi ulpExp x" unfolding flPos_def by (intro mult_right_mono) simp_all
  also have "\<dots> = 2 powi (ulpExp x + 53)" by (simp add: power_int_add)
  also have "\<dots> \<le> 2 powi (ulpExp y + 52)" unfolding pow2_le_iff using less by simp
  also have "\<dots> = of_int (2 ^ 52) * 2 powi ulpExp y" by (simp add: power_int_add)
  also have "\<dots> \<le> flPos y"
  proof -
    have "2 powi (ulpExp y + 52) \<le> y" using bexp_bounds(1) [of y] assms by_y by simp
    then have "of_int (2 ^ 52) \<le> y / 2 powi ulpExp y" by (simp add: power_int_add le_divide_eq mult.commute)
    then have "2 ^ 52 \<le> roundEven (y / 2 powi ulpExp y)" by (rule roundEven_ge)
    then have "(of_int (2 ^ 52) :: rat) \<le> of_int (roundEven (y / 2 powi ulpExp y))"
      by (simp only: of_int_le_iff)
    then show ?thesis unfolding flPos_def by (intro mult_right_mono) simp_all
  qed
  finally show ?thesis .
qed

lemma fl_minus: "fl (- x) = - fl x"
  by (simp add: fl_def)

lemma fl_mono: "x \<le> y \<Longrightarrow> fl x \<le> fl y"
proof -
  assume xy: "x \<le> y"
  consider "0 < x" | "x \<le> 0" "0 \<le> y" | "y < 0" by linarith
  then show ?thesis
  proof cases
    case 1
    then show ?thesis using flPos_mono [of x y] xy by (simp add: fl_def)
  next
    case 2
    then have "fl x \<le> 0" "0 \<le> fl y"
      using flPos_nonneg [of "- x"] flPos_nonneg [of y] by (auto simp: fl_def)
    then show ?thesis by simp
  next
    case 3
    then show ?thesis using flPos_mono [of "- y" "- x"] xy by (simp add: fl_def)
  qed
qed

lemma fl_idem: "fl (fl x) = fl x"
proof (cases "x < 0")
  case True
  then show ?thesis using flPos_idem [of "- x"] by (simp add: fl_def [of x] fl_minus)
next
  case False
  then show ?thesis using flPos_idem [of x] by (cases "x = 0") (simp_all add: fl_def [of x] fl_def [of 0])
qed

lemma fl_of_int: "\<bar>n\<bar> \<le> 2 ^ 53 \<Longrightarrow> fl (of_int n) = of_int n"
  using flPos_grid [of n 0] flPos_grid [of "- n" 0] by (auto simp: fl_def)

interpretation double: rounding fl
  by unfold_locales (simp_all add: fl_mono fl_idem fl_of_int)

text \<open>Evaluating \<open>fl\<close> at a given number.\<close>

lemma fl_eval:
  assumes "2 powi e \<le> x" "x < 2 powi (e + 1)" "- 1022 \<le> e"
  shows "fl x = of_int (roundEven (x / 2 powi (e - 52))) * 2 powi (e - 52)"
proof -
  have "0 < x" using assms(1) pow2_pos [of e] by linarith
  then show ?thesis using bexp_unique [OF assms(1,2)] assms(3) by (simp add: fl_def flPos_def ulpExp_def)
qed

end
