(* ===== verification/Utf8.thy ===== *)
theory Utf8
  imports Prelude
begin

text \<open>
  The text encoding of the platform: \<open>TextEncoder\<close>, and \<open>TextDecoder\<close> as \<open>text()\<close> of a response uses
  it. Strings are sequences of 16-bit units. A surrogate without its partner is encoded as the
  replacement character; a malformed sequence of bytes is decoded to one replacement character
  for each maximal prefix of a well-formed sequence; a leading byte order mark is dropped.
\<close>

section \<open>Code points\<close>

definition isHigh :: "nat \<Rightarrow> bool" where
  "isHigh c \<longleftrightarrow> 55296 \<le> c \<and> c < 56320"

definition isLow :: "nat \<Rightarrow> bool" where
  "isLow c \<longleftrightarrow> 56320 \<le> c \<and> c < 57344"

text \<open>The units of a code point.\<close>

definition unitsOf :: "nat \<Rightarrow> ustring" where
  "unitsOf c = (if c < 65536 then [c] else [55296 + (c - 65536) div 1024, 56320 + (c - 65536) mod 1024])"

definition pairPoint :: "nat \<Rightarrow> nat \<Rightarrow> nat" where
  "pairPoint h l = 65536 + (h - 55296) * 1024 + (l - 56320)"

definition replacement :: nat where
  "replacement = 65533"

section \<open>Encoding\<close>

definition byteOf :: "nat \<Rightarrow> 8 word" where
  "byteOf n = of_nat n"

definition encodePoint :: "nat \<Rightarrow> bytes" where
  "encodePoint c =
     map byteOf
      (if c < 128 then [c]
       else if c < 2048 then [192 + c div 64, 128 + c mod 64]
       else if c < 65536 then [224 + c div 4096, 128 + c div 64 mod 64, 128 + c mod 64]
       else [240 + c div 262144, 128 + c div 4096 mod 64, 128 + c div 64 mod 64, 128 + c mod 64])"

fun utf8Encode :: "ustring \<Rightarrow> bytes" where
  "utf8Encode [] = []"
| "utf8Encode [c] = encodePoint (if isHigh c \<or> isLow c then replacement else c)"
| "utf8Encode (c # d # s) =
     (if isHigh c
      then if isLow d then encodePoint (pairPoint c d) @ utf8Encode s
           else encodePoint replacement @ utf8Encode (d # s)
      else encodePoint (if isLow c then replacement else c) @ utf8Encode (d # s))"

section \<open>Decoding\<close>

text \<open>
  The continuation bytes of a sequence: the code point and what follows, or \<open>None\<close> with the
  first byte that does not continue it put back.
\<close>

fun continueWith :: "nat \<Rightarrow> nat \<Rightarrow> nat \<Rightarrow> nat \<Rightarrow> bytes \<Rightarrow> nat option \<times> bytes" where
  "continueWith 0 lo hi c bs = (Some c, bs)"
| "continueWith (Suc n) lo hi c [] = (None, [])"
| "continueWith (Suc n) lo hi c (b # bs) =
     (if lo \<le> unat b \<and> unat b \<le> hi then continueWith n 128 191 (c * 64 + (unat b - 128)) bs
      else (None, b # bs))"

definition decodeLead :: "nat \<Rightarrow> bytes \<Rightarrow> nat option \<times> bytes" where
  "decodeLead b bs =
     (if b < 128 then (Some b, bs)
      else if 194 \<le> b \<and> b \<le> 223 then continueWith 1 128 191 (b - 192) bs
      else if b = 224 then continueWith 2 160 191 0 bs
      else if b = 237 then continueWith 2 128 159 13 bs
      else if 225 \<le> b \<and> b \<le> 239 then continueWith 2 128 191 (b - 224) bs
      else if b = 240 then continueWith 3 144 191 0 bs
      else if b = 244 then continueWith 3 128 143 4 bs
      else if 241 \<le> b \<and> b \<le> 243 then continueWith 3 128 191 (b - 240) bs
      else (None, bs))"

lemma continueWith_length: "continueWith n lo hi c bs = (r, rest) \<Longrightarrow> length rest \<le> length bs"
  by (induction n lo hi c bs rule: continueWith.induct) (auto split: if_splits)

lemma decodeLead_length: "decodeLead b bs = (r, rest) \<Longrightarrow> length rest \<le> length bs"
  by (auto simp: decodeLead_def split: if_splits dest: continueWith_length)

function decodeUnits :: "bytes \<Rightarrow> ustring" where
  "decodeUnits [] = []"
| "decodeUnits (b # bs) =
     (case decodeLead (unat b) bs of
        (r, rest) \<Rightarrow> unitsOf (case r of None \<Rightarrow> replacement | Some c \<Rightarrow> c) @ decodeUnits rest)"
  by pat_completeness auto
termination
  by (relation "measure length") (auto dest: decodeLead_length [OF sym])

definition utf8Decode :: "bytes \<Rightarrow> ustring" where
  "utf8Decode bs = decodeUnits (if take 3 bs = [239, 187, 191] then drop 3 bs else bs)"

section \<open>Round trip\<close>

text \<open>Strings of 16-bit units in which every surrogate has its partner.\<close>

fun wellFormed :: "ustring \<Rightarrow> bool" where
  "wellFormed [] \<longleftrightarrow> True"
| "wellFormed [c] \<longleftrightarrow> c < 65536 \<and> \<not> isHigh c \<and> \<not> isLow c"
| "wellFormed (c # d # s) \<longleftrightarrow>
     c < 65536 \<and> (if isHigh c then isLow d \<and> wellFormed s else \<not> isLow c \<and> wellFormed (d # s))"

lemma unat_byte: "n < 256 \<Longrightarrow> unat (byteOf n) = n"
  by (simp add: unat_of_nat byteOf_def)

lemma continueWith_num:
  "continueWith 1 lo hi c (b # bs) =
     (if lo \<le> unat b \<and> unat b \<le> hi then (Some (c * 64 + (unat b - 128)), bs) else (None, b # bs))"
  "continueWith 2 lo hi c (b # bs) =
     (if lo \<le> unat b \<and> unat b \<le> hi then continueWith 1 128 191 (c * 64 + (unat b - 128)) bs else (None, b # bs))"
  "continueWith 3 lo hi c (b # bs) =
     (if lo \<le> unat b \<and> unat b \<le> hi then continueWith 2 128 191 (c * 64 + (unat b - 128)) bs else (None, b # bs))"
  by (simp_all add: numeral_2_eq_2 numeral_3_eq_3)

lemmas decode_simps = encodePoint_def decodeLead_def unat_byte continueWith_num

lemma decode_two:
  assumes "128 \<le> c" "c < 2048"
  shows "decodeLead (192 + c div 64) (byteOf (128 + c mod 64) # bs) = (Some c, bs)"
proof -
  have "c div 64 < 32" "2 \<le> c div 64" "c mod 64 < 64" using assms by simp_all
  then show ?thesis by (simp add: decode_simps)
qed

lemma lead_three:
  assumes "a < 16" "b < 64" "d < 64" "a = 0 \<Longrightarrow> 32 \<le> b" "a = 13 \<Longrightarrow> b < 32"
  shows "decodeLead (224 + a) (byteOf (128 + b) # byteOf (128 + d) # bs) = (Some (a * 4096 + b * 64 + d), bs)"
  using assms by (cases "a = 0"; cases "a = 13") (simp_all add: decode_simps)

lemma lead_four:
  assumes "z \<le> 4" "a < 64" "b < 64" "d < 64" "z = 0 \<Longrightarrow> 16 \<le> a" "z = 4 \<Longrightarrow> a < 16"
  shows "decodeLead (240 + z) (byteOf (128 + a) # byteOf (128 + b) # byteOf (128 + d) # bs)
    = (Some (z * 262144 + a * 4096 + b * 64 + d), bs)"
  using assms by (cases "z = 0"; cases "z = 4") (simp_all add: decode_simps)

lemma decode_three:
  assumes "2048 \<le> c" "c < 65536" "\<not> (isHigh c \<or> isLow c)"
  shows "decodeLead (224 + c div 4096)
    (byteOf (128 + c div 64 mod 64) # byteOf (128 + c mod 64) # bs) = (Some c, bs)"
proof -
  let ?a = "c div 4096" and ?b = "c div 64 mod 64" and ?d = "c mod 64"
  have r: "?a < 16" "?b < 64" "?d < 64" using assms(2) by simp_all
  have c: "c = ?a * 4096 + ?b * 64 + ?d"
  proof -
    have "c div 64 = c div 64 div 64 * 64 + ?b" by simp
    moreover have "c div 64 div 64 = ?a" by (simp add: div_mult2_eq [symmetric])
    ultimately have "c div 64 = ?a * 64 + ?b" by linarith
    moreover have "c div 64 * 64 + ?d = c" by simp
    ultimately show ?thesis by linarith
  qed
  have "32 \<le> ?b" if "?a = 0" using c that assms(1) r by linarith
  moreover have "?b < 32" if "?a = 13"
    using c that assms(3) r unfolding isHigh_def isLow_def by linarith
  ultimately show ?thesis using lead_three [OF r, of bs] c by simp
qed

lemma decode_four:
  assumes "65536 \<le> c" "c < 1114112"
  shows "decodeLead (240 + c div 262144)
    (byteOf (128 + c div 4096 mod 64) # byteOf (128 + c div 64 mod 64) # byteOf (128 + c mod 64) # bs)
      = (Some c, bs)"
proof -
  let ?z = "c div 262144" and ?a = "c div 4096 mod 64" and ?b = "c div 64 mod 64" and ?d = "c mod 64"
  have r: "?z \<le> 4" "?a < 64" "?b < 64" "?d < 64" using assms(2) by simp_all
  have c: "c = ?z * 262144 + ?a * 4096 + ?b * 64 + ?d"
  proof -
    have "c div 4096 = c div 4096 div 64 * 64 + ?a" "c div 64 = c div 64 div 64 * 64 + ?b" by simp_all
    moreover have "c div 4096 div 64 = ?z" "c div 64 div 64 = c div 4096" by (simp_all add: div_mult2_eq [symmetric])
    ultimately have "c div 4096 = ?z * 64 + ?a" "c div 64 = c div 4096 * 64 + ?b" by simp_all
    moreover have "c div 64 * 64 + ?d = c" by simp
    ultimately show ?thesis by linarith
  qed
  have "16 \<le> ?a" if "?z = 0" using c that assms(1) r by linarith
  moreover have "?a < 16" if "?z = 4" using c that assms(2) r by linarith
  ultimately show ?thesis using lead_four [OF r, of bs] c by simp
qed

lemma decode_encodePoint:
  assumes "c < 1114112" "\<not> (isHigh c \<or> isLow c)"
  shows "decodeUnits (encodePoint c @ bs) = unitsOf c @ decodeUnits bs"
proof -
  consider "c < 128" | "128 \<le> c" "c < 2048" | "2048 \<le> c" "c < 65536" | "65536 \<le> c" by linarith
  then show ?thesis
  proof cases
    case 1
    then show ?thesis by (simp add: decode_simps)
  next
    case 2
    then have "c div 64 < 32" by simp
    then show ?thesis using 2 decode_two [OF 2, of bs] by (simp add: encodePoint_def unat_byte)
  next
    case 3
    then have "c div 4096 < 16" by simp
    then show ?thesis using 3 decode_three [OF 3 assms(2), of bs] by (simp add: encodePoint_def unat_byte)
  next
    case 4
    then have "c div 262144 \<le> 4" using assms(1) by simp
    then show ?thesis using 4 decode_four [OF 4 assms(1), of bs] by (simp add: encodePoint_def unat_byte)
  qed
qed

lemma pairPoint_units:
  assumes "isHigh h" "isLow l"
  shows "65536 \<le> pairPoint h l" "pairPoint h l < 1114112" "unitsOf (pairPoint h l) = [h, l]"
proof -
  obtain a b where ab: "h = 55296 + a" "a < 1024" "l = 56320 + b" "b < 1024"
    by (rule that [of "h - 55296" "l - 56320"]) (use assms in \<open>auto simp: isHigh_def isLow_def\<close>)
  show "65536 \<le> pairPoint h l" "pairPoint h l < 1114112" "unitsOf (pairPoint h l) = [h, l]"
    using ab by (simp_all add: pairPoint_def unitsOf_def)
qed

lemma decodeUnits_utf8Encode: "wellFormed s \<Longrightarrow> decodeUnits (utf8Encode s) = s"
proof (induction s rule: utf8Encode.induct)
  case (2 c)
  then show ?case using decode_encodePoint [of c "[]"] by (simp add: unitsOf_def)
next
  case (3 c d s)
  show ?case
  proof (cases "isHigh c")
    case True
    then have "isLow d" "wellFormed s" using "3.prems" by simp_all
    then show ?thesis
      using 3 True pairPoint_units [of c d] decode_encodePoint [of "pairPoint c d"]
      by (simp add: isHigh_def isLow_def)
  next
    case False
    then show ?thesis using 3 decode_encodePoint [of c] by (simp add: unitsOf_def)
  qed
qed simp

lemma utf8Encode_inject: "wellFormed s \<Longrightarrow> wellFormed t \<Longrightarrow> utf8Encode s = utf8Encode t \<Longrightarrow> s = t"
  using decodeUnits_utf8Encode by metis

lemma utf8Decode_utf8Encode:
  assumes "wellFormed s" "s = [] \<or> hd s \<noteq> 65279"
  shows "utf8Decode (utf8Encode s) = s"
proof -
  have "take 3 (utf8Encode s) \<noteq> [239, 187, 191]"
  proof
    assume bom: "take 3 (utf8Encode s) = [239, 187, 191]"
    have "s = decodeUnits ([239, 187, 191] @ drop 3 (utf8Encode s))"
      using decodeUnits_utf8Encode [OF assms(1)] bom by (metis append_take_drop_id)
    also have "\<dots> = 65279 # decodeUnits (drop 3 (utf8Encode s))"
      by (simp add: decodeLead_def continueWith_num unitsOf_def)
    finally show False using assms(2) by (metis list.discI list.sel(1))
  qed
  then show ?thesis using decodeUnits_utf8Encode [OF assms(1)] by (simp add: utf8Decode_def)
qed

lemma wellFormed_plain: "\<forall>c \<in> set s. c < 55296 \<Longrightarrow> wellFormed s"
  by (induction s rule: wellFormed.induct) (auto simp: isHigh_def isLow_def)

lemma wellFormed_append: "wellFormed s \<Longrightarrow> wellFormed t \<Longrightarrow> wellFormed (s @ t)"
proof (induction s rule: wellFormed.induct)
  case (2 c)
  then show ?case by (cases t) simp_all
qed (auto split: if_splits)

end
