(* ===== verification/Json.thy ===== *)
theory Json
  imports Js_Number Utf8
begin

text \<open>
  JSON values as the sources hold them after \<open>JSON.parse\<close>: property lookup, truthiness,
  conversion to a string, the property order of objects, and \<open>JSON.stringify\<close>. A missing
  property or the value \<open>undefined\<close> is \<open>None\<close>. An object is the list of its own properties in
  the order the language keeps them: index keys ascending, then the others as they were added.
\<close>

section \<open>Values\<close>

datatype json =
    JNull
  | JBool bool
  | JNum jsnum
  | JStr ustring
  | JArr "json list"
  | JObj "(ustring \<times> json) list"

definition truthy :: "json option \<Rightarrow> bool" where
  "truthy v =
     (case v of
        None \<Rightarrow> False
      | Some JNull \<Rightarrow> False
      | Some (JBool b) \<Rightarrow> b
      | Some (JNum n) \<Rightarrow> n \<noteq> Fin 0 \<and> n \<noteq> NaN
      | Some (JStr s) \<Rightarrow> s \<noteq> []
      | Some _ \<Rightarrow> True)"

text \<open>
  \<open>v.name\<close> for a name that is no property of the built-in prototypes: an own property of an
  object, \<open>undefined\<close> on other values; reading a property of \<open>null\<close> throws.
\<close>

definition getProp :: "json \<Rightarrow> ustring \<Rightarrow> json option res" where
  "getProp v name =
     (case v of
        JNull \<Rightarrow> Inl TypeError
      | JObj kvs \<Rightarrow> Inr (map_of kvs name)
      | _ \<Rightarrow> Inr None)"

text \<open>
  \<open>String(v)\<close>. An object with an own property \<open>toString\<close>, which can hold no function, has no
  primitive value and throws.
\<close>

fun jsToString :: "json \<Rightarrow> ustring res"
  and jsJoin :: "json list \<Rightarrow> ustring list res" where
  "jsToString JNull = Inr (u ''null'')"
| "jsToString (JBool b) = Inr (if b then u ''true'' else u ''false'')"
| "jsToString (JNum n) = Inr (numToString n)"
| "jsToString (JStr s) = Inr s"
| "jsToString (JArr vs) = (case jsJoin vs of Inl e \<Rightarrow> Inl e | Inr ss \<Rightarrow> Inr (joinWith (u '','') ss))"
| "jsToString (JObj kvs) =
     (if map_of kvs (u ''toString'') = None then Inr (u ''[object Object]'') else Inl TypeError)"
| "jsJoin [] = Inr []"
| "jsJoin (v # vs) =
     (case (if v = JNull then Inr [] else jsToString v) of
        Inl e \<Rightarrow> Inl e
      | Inr s \<Rightarrow> (case jsJoin vs of Inl e \<Rightarrow> Inl e | Inr ss \<Rightarrow> Inr (s # ss)))"

text \<open>\<open>String(v || '')\<close>.\<close>

definition stringOrEmpty :: "json option \<Rightarrow> ustring res" where
  "stringOrEmpty v = (if truthy v then jsToString (the v) else Inr [])"

section \<open>Objects\<close>

text \<open>An array-index key: the decimal form of an integer below \<open>2 ^ 32 - 1\<close>.\<close>

definition indexKey :: "ustring \<Rightarrow> nat option" where
  "indexKey k =
     (case parseUnsigned 10 k of
        None \<Rightarrow> None
      | Some n \<Rightarrow> if natToString n = k \<and> n < 2 ^ 32 - 1 then Some n else None)"

fun insertIndexKey :: "nat \<Rightarrow> ustring \<Rightarrow> json \<Rightarrow> (ustring \<times> json) list \<Rightarrow> (ustring \<times> json) list" where
  "insertIndexKey n k v [] = [(k, v)]"
| "insertIndexKey n k v ((k', v') # kvs) =
     (case indexKey k' of
        None \<Rightarrow> (k, v) # (k', v') # kvs
      | Some m \<Rightarrow> if n < m then (k, v) # (k', v') # kvs else (k', v') # insertIndexKey n k v kvs)"

text \<open>Assignment to a property: in place when it exists.\<close>

definition objSet :: "ustring \<Rightarrow> json \<Rightarrow> (ustring \<times> json) list \<Rightarrow> (ustring \<times> json) list" where
  "objSet k v kvs =
     (if k \<in> fst ` set kvs then map (\<lambda>(k', v'). (k', if k' = k then v else v')) kvs
      else case indexKey k of
             None \<Rightarrow> kvs @ [(k, v)]
           | Some n \<Rightarrow> insertIndexKey n k v kvs)"

section \<open>Text\<close>

definition hex4 :: "nat \<Rightarrow> ustring" where
  "hex4 c = padStart 4 48 (natToRadix 16 c)"

definition quoteUnit :: "nat \<Rightarrow> ustring" where
  "quoteUnit c =
     (if c = 8 then [92, 98] else if c = 9 then [92, 116] else if c = 10 then [92, 110]
      else if c = 12 then [92, 102] else if c = 13 then [92, 114]
      else if c = 34 then [92, 34] else if c = 92 then [92, 92]
      else if c < 32 \<or> isHigh c \<or> isLow c then [92, 117] @ hex4 c
      else [c])"

text \<open>Surrogates that form a pair are written as they are, others escaped.\<close>

fun quoteUnits :: "ustring \<Rightarrow> ustring" where
  "quoteUnits [] = []"
| "quoteUnits [c] = quoteUnit c"
| "quoteUnits (c # d # s) =
     (if isHigh c \<and> isLow d then c # d # quoteUnits s
      else quoteUnit c @ quoteUnits (d # s))"

definition quoteJSON :: "ustring \<Rightarrow> ustring" where
  "quoteJSON s = [34] @ quoteUnits s @ [34]"

fun stringify :: "json \<Rightarrow> ustring" where
  "stringify JNull = u ''null''"
| "stringify (JBool b) = (if b then u ''true'' else u ''false'')"
| "stringify (JNum n) = (case n of Fin x \<Rightarrow> finToString x | _ \<Rightarrow> u ''null'')"
| "stringify (JStr s) = quoteJSON s"
| "stringify (JArr vs) = [91] @ joinWith [44] (map stringify vs) @ [93]"
| "stringify (JObj kvs) =
     [123] @ joinWith [44] (map (\<lambda>(k, v). quoteJSON k @ [58] @ stringify v) kvs) @ [125]"

section \<open>Lemmas\<close>

lemma truthy_simps [simp, js_simps]:
  "\<not> truthy None" "\<not> truthy (Some JNull)" "truthy (Some (JBool b)) = b"
  "truthy (Some (JStr s)) \<longleftrightarrow> s \<noteq> []" "truthy (Some (JArr vs))" "truthy (Some (JObj kvs))"
  by (simp_all add: truthy_def)

lemma getProp_simps [simp, js_simps]:
  "getProp JNull name = Inl TypeError"
  "getProp (JBool b) name = Inr None"
  "getProp (JNum n) name = Inr None"
  "getProp (JStr s) name = Inr None"
  "getProp (JArr vs) name = Inr None"
  "getProp (JObj kvs) name = Inr (map_of kvs name)"
  by (simp_all add: getProp_def)

text \<open>Reading a property that was just assigned, and the others.\<close>

lemma map_of_insertIndexKey:
  "k \<notin> fst ` set kvs \<Longrightarrow> map_of (insertIndexKey n k v kvs) = (map_of kvs)(k \<mapsto> v)"
  by (induction n k v kvs rule: insertIndexKey.induct) (auto split: option.splits)

lemma map_of_replace:
  "map_of (map (\<lambda>(k', v'). (k', if k' = k then v else v')) kvs) x
     = (if x = k then map_option (\<lambda>_. v) (map_of kvs k) else map_of kvs x)"
  by (induction kvs) auto

lemma map_of_objSet: "map_of (objSet k v kvs) = (map_of kvs)(k \<mapsto> v)"
proof (cases "k \<in> fst ` set kvs")
  case True
  then have "\<exists>y. map_of kvs k = Some y" by (metis map_of_eq_None_iff not_None_eq)
  with True show ?thesis by (auto simp: objSet_def map_of_replace fun_eq_iff)
next
  case False
  then have "map_of kvs k = None" by (simp add: map_of_eq_None_iff)
  with False show ?thesis
    by (cases "indexKey k")
      (simp_all add: objSet_def map_of_insertIndexKey map_add_def fun_eq_iff split: option.splits)
qed

end
