(* ===== verification/Wordmine_Words.thy ===== *)
theory Wordmine_Words
  imports Js_String
begin

text \<open>
  The solution words of the game, \<^verbatim>\<open>wordmine/src/words.js\<close>, in the order of the file. The lemmas
  show that every word is five letters from \<open>A\<close> to \<open>Z\<close>, so that every word can be guessed, and
  that three words occur twice.
\<close>

section \<open>The list\<close>

definition WORDS_1 :: "string list" where
  "WORDS_1 =
    [
     ''ABOUT'', ''ABOVE'', ''ABUSE'', ''ACTOR'', ''ACUTE'', ''ADMIT'', ''ADOPT'', ''ADULT'', ''AFTER'', ''AGAIN'',
     ''AGENT'', ''AGREE'', ''AHEAD'', ''ALARM'', ''ALBUM'', ''ALERT'', ''ALIKE'', ''ALIVE'', ''ALLOW'', ''ALONE'',
     ''ALONG'', ''ALTER'', ''AMONG'', ''ANGER'', ''ANGLE'', ''ANGRY'', ''APART'', ''APPLE'', ''APPLY'', ''ARENA'',
     ''ARGUE'', ''ARISE'', ''ARRAY'', ''ASIDE'', ''ASSET'', ''AVOID'', ''AWAKE'', ''AWARD'', ''AWARE'', ''BADLY'',
     ''BAKER'', ''BASES'', ''BASIC'', ''BASIS'', ''BEACH'', ''BEGAN'', ''BEGIN'', ''BEGUN'', ''BEING'', ''BELOW'',
     ''BENCH'', ''BIRTH'', ''BLACK'', ''BLAME'', ''BLIND'', ''BLOCK'', ''BLOOD'', ''BOARD'', ''BOAST'', ''BOOST'',
     ''BOOTH'', ''BOUND'', ''BRAIN'', ''BRAND'', ''BRASS'', ''BRAVE'', ''BREAD'', ''BREAK'', ''BREED'', ''BRIEF'',
     ''BRING'', ''BROAD'', ''BROKE'', ''BROWN'', ''BUILD'', ''BUILT'', ''BUYER'', ''CABLE'', ''CALIF'', ''CARRY'',
     ''CATCH'', ''CAUSE'', ''CHAIN'', ''CHAIR'', ''CHART'', ''CHASE'', ''CHEAP'', ''CHECK'', ''CHEST'', ''CHIEF'',
     ''CHILD'', ''CHINA'', ''CHOSE'', ''CIVIL'', ''CLAIM'', ''CLASS'', ''CLEAN'', ''CLEAR'', ''CLICK'', ''CLIMB'',
     ''CLOCK'', ''CLOSE'', ''COACH'', ''COAST'', ''COULD'', ''COUNT'', ''COURT'', ''COVER'', ''CRAFT'', ''CRASH'',
     ''CREAM'', ''CRIME'', ''CROSS'', ''CROWD'', ''CROWN'', ''CURVE'', ''CYCLE'', ''DAILY'', ''DANCE'', ''DATED'',
     ''DEALT'', ''DEATH'', ''DEBUT'', ''DELAY'', ''DEPTH'', ''DOING'', ''DOUBT'', ''DOZEN'', ''DRAFT'', ''DRAMA'']"

definition WORDS_2 :: "string list" where
  "WORDS_2 =
    [
     ''DRAWN'', ''DREAM'', ''DRESS'', ''DRILL'', ''DRINK'', ''DRIVE'', ''DROVE'', ''DYING'', ''EAGER'', ''EARLY'',
     ''EARTH'', ''EIGHT'', ''ELITE'', ''EMPTY'', ''ENEMY'', ''ENJOY'', ''ENTER'', ''ENTRY'', ''EQUAL'', ''ERROR'',
     ''EVENT'', ''EVERY'', ''EXACT'', ''EXIST'', ''EXTRA'', ''FAITH'', ''FALSE'', ''FAULT'', ''FIBER'', ''FIELD'',
     ''FIFTH'', ''FIFTY'', ''FIGHT'', ''FINAL'', ''FIRST'', ''FIXED'', ''FLASH'', ''FLEET'', ''FLOOR'', ''FLUID'',
     ''FOCUS'', ''FORCE'', ''FORTH'', ''FORTY'', ''FORUM'', ''FOUND'', ''FRAME'', ''FRANK'', ''FRAUD'', ''FRESH'',
     ''FRONT'', ''FROST'', ''FRUIT'', ''FULLY'', ''FUNNY'', ''GIANT'', ''GIVEN'', ''GLASS'', ''GLOBE'', ''GOING'',
     ''GRACE'', ''GRADE'', ''GRAND'', ''GRANT'', ''GRASS'', ''GREAT'', ''GREEN'', ''GROSS'', ''GROUP'', ''GROWN'',
     ''GUARD'', ''GUESS'', ''GUEST'', ''GUIDE'', ''HAPPY'', ''HARRY'', ''HEART'', ''HEAVY'', ''HENCE'', ''HORSE'',
     ''HOTEL'', ''HOUSE'', ''HUMAN'', ''IDEAL'', ''IMAGE'', ''INDEX'', ''INNER'', ''INPUT'', ''ISSUE'', ''JAPAN'',
     ''JIMMY'', ''JOINT'', ''JONES'', ''JUDGE'', ''KNOWN'', ''LABEL'', ''LARGE'', ''LASER'', ''LATER'', ''LAUGH'',
     ''LAYER'', ''LEARN'', ''LEASE'', ''LEAST'', ''LEAVE'', ''LEGAL'', ''LEVEL'', ''LEWIS'', ''LIGHT'', ''LIMIT'',
     ''LINKS'', ''LIVES'', ''LOCAL'', ''LOGIC'', ''LOOSE'', ''LOWER'', ''LUCKY'', ''LUNCH'', ''LYING'', ''MAGIC'',
     ''MAJOR'', ''MAKER'', ''MARCH'', ''MARIA'', ''MATCH'', ''MAYBE'', ''MAYOR'', ''MEANT'', ''MEDIA'', ''METAL'']"

definition WORDS_3 :: "string list" where
  "WORDS_3 =
    [
     ''MIGHT'', ''MINOR'', ''MINUS'', ''MIXED'', ''MODEL'', ''MONEY'', ''MONTH'', ''MORAL'', ''MOTOR'', ''MOUNT'',
     ''MOUSE'', ''MOUTH'', ''MOVIE'', ''MUSIC'', ''NEEDS'', ''NEVER'', ''NEWLY'', ''NIGHT'', ''NOISE'', ''NORTH'',
     ''NOTED'', ''NOVEL'', ''NURSE'', ''OCCUR'', ''OCEAN'', ''OFFER'', ''OFTEN'', ''ORDER'', ''OTHER'', ''OUGHT'',
     ''PAINT'', ''PANEL'', ''PAPER'', ''PARTY'', ''PEACE'', ''PETER'', ''PHASE'', ''PHONE'', ''PHOTO'', ''PIECE'',
     ''PILOT'', ''PITCH'', ''PLACE'', ''PLAIN'', ''PLANE'', ''PLANT'', ''PLATE'', ''POINT'', ''POUND'', ''POWER'',
     ''PRESS'', ''PRICE'', ''PRIDE'', ''PRIME'', ''PRINT'', ''PRIOR'', ''PRIZE'', ''PROOF'', ''PROUD'', ''PROVE'',
     ''QUEEN'', ''QUICK'', ''QUIET'', ''QUITE'', ''RADIO'', ''RAISE'', ''RANGE'', ''RAPID'', ''RATIO'', ''REACH'',
     ''READY'', ''REFER'', ''RIGHT'', ''RIVAL'', ''RIVER'', ''ROBIN'', ''ROGER'', ''ROMAN'', ''ROUGH'', ''ROUND'',
     ''ROUTE'', ''ROYAL'', ''RURAL'', ''SCALE'', ''SCENE'', ''SCOPE'', ''SCORE'', ''SENSE'', ''SERVE'', ''SEVEN'',
     ''SHALL'', ''SHAPE'', ''SHARE'', ''SHARP'', ''SHEET'', ''SHELF'', ''SHELL'', ''SHIFT'', ''SHIRT'', ''SHOCK'',
     ''SHOOT'', ''SHORT'', ''SHOWN'', ''SIGHT'', ''SINCE'', ''SIXTH'', ''SIXTY'', ''SIZED'', ''SKILL'', ''SLEEP'',
     ''SLIDE'', ''SMALL'', ''SMART'', ''SMILE'', ''SMITH'', ''SMOKE'', ''SOLID'', ''SOLVE'', ''SORRY'', ''SOUND'',
     ''SOUTH'', ''SPACE'', ''SPARE'', ''SPEAK'', ''SPEED'', ''SPEND'', ''SPENT'', ''SPLIT'', ''SPOKE'', ''SPORT'']"

definition WORDS_4 :: "string list" where
  "WORDS_4 =
    [
     ''STAFF'', ''STAGE'', ''STAKE'', ''STAND'', ''START'', ''STATE'', ''STEAM'', ''STEEL'', ''STICK'', ''STILL'',
     ''STOCK'', ''STONE'', ''STOOD'', ''STORE'', ''STORM'', ''STORY'', ''STRIP'', ''STUCK'', ''STUDY'', ''STUFF'',
     ''STYLE'', ''SUGAR'', ''SUITE'', ''SUPER'', ''SWEET'', ''TABLE'', ''TAKEN'', ''TASTE'', ''TAXES'', ''TEACH'',
     ''TEETH'', ''TERRY'', ''TEXAS'', ''THANK'', ''THEFT'', ''THEIR'', ''THEME'', ''THERE'', ''THESE'', ''THICK'',
     ''THING'', ''THINK'', ''THIRD'', ''THOSE'', ''THREE'', ''THREW'', ''THROW'', ''TIGHT'', ''TIMES'', ''TIRED'',
     ''TITLE'', ''TODAY'', ''TOPIC'', ''TOTAL'', ''TOUCH'', ''TOUGH'', ''TOWER'', ''TRACK'', ''TRADE'', ''TRAIN'',
     ''TREAT'', ''TREND'', ''TRIAL'', ''TRIED'', ''TRIES'', ''TRUCK'', ''TRULY'', ''TRUST'', ''TRUTH'', ''TWICE'',
     ''UNCLE'', ''UNDER'', ''UNDUE'', ''UNION'', ''UNITY'', ''UNTIL'', ''UPPER'', ''UPSET'', ''URBAN'', ''USAGE'',
     ''USUAL'', ''VALID'', ''VALUE'', ''VIDEO'', ''VIRUS'', ''VISIT'', ''VITAL'', ''VOCAL'', ''VOICE'', ''WASTE'',
     ''WATCH'', ''WATER'', ''WHEEL'', ''WHERE'', ''WHICH'', ''WHILE'', ''WHITE'', ''WHOLE'', ''WHOSE'', ''WOMAN'',
     ''WOMEN'', ''WORLD'', ''WORRY'', ''WORSE'', ''WORST'', ''WORTH'', ''WOULD'', ''WOUND'', ''WRITE'', ''WRONG'',
     ''WROTE'', ''YIELD'', ''YOUNG'', ''YOUTH'', ''ZEBRA'', ''ZESTY'', ''ZONAL'',
     ''FROST'', ''BLOCK'', ''CHAIN'', ''MINER'', ''NONCE'', ''CHILL'', ''SNOWY'', ''ICILY'', ''GLINT'']"

definition WORDS :: "ustring list" where
  "WORDS = map u (WORDS_1 @ WORDS_2 @ WORDS_3 @ WORDS_4)"

section \<open>Lemmas\<close>

definition wordShape :: "string \<Rightarrow> bool" where
  "wordShape w \<longleftrightarrow> length w = 5 \<and> list_all (\<lambda>c. 65 \<le> (of_char c :: nat) \<and> (of_char c :: nat) \<le> 90) w"

lemma WORDS_1_facts: "length WORDS_1 = 130" "list_all wordShape WORDS_1"
  by (simp_all add: WORDS_1_def wordShape_def)

lemma WORDS_2_facts: "length WORDS_2 = 130" "list_all wordShape WORDS_2"
  by (simp_all add: WORDS_2_def wordShape_def)

lemma WORDS_3_facts: "length WORDS_3 = 130" "list_all wordShape WORDS_3"
  by (simp_all add: WORDS_3_def wordShape_def)

lemma WORDS_4_facts: "length WORDS_4 = 126" "list_all wordShape WORDS_4"
  by (simp_all add: WORDS_4_def wordShape_def)

lemma length_WORDS [simp]: "length WORDS = 516"
  by (simp add: WORDS_def WORDS_1_facts WORDS_2_facts WORDS_3_facts WORDS_4_facts)

lemma WORDS_shape: "w \<in> set WORDS \<Longrightarrow> guessPattern w"
proof -
  assume "w \<in> set WORDS"
  then obtain s where s: "s \<in> set (WORDS_1 @ WORDS_2 @ WORDS_3 @ WORDS_4)" "w = u s"
    by (auto simp: WORDS_def)
  have "list_all wordShape (WORDS_1 @ WORDS_2 @ WORDS_3 @ WORDS_4)"
    using WORDS_1_facts(2) WORDS_2_facts(2) WORDS_3_facts(2) WORDS_4_facts(2)
    by (simp only: list_all_append simp_thms)
  with s(1) have "wordShape s" by (auto simp: list_all_iff)
  then show ?thesis
    by (auto simp: s(2) wordShape_def guessPattern_def isUpperAZ_def list_all_iff u_def)
qed

end
