(* ===== verification/Wordmine_Worker.thy ===== *)
theory Wordmine_Worker
  imports Effects Http Json Wordmine_Words
begin

text \<open>
  The Wordmine worker, \<^verbatim>\<open>wordmine/src/worker.js\<close>, handler by handler, as programs over the effects
  they await: the key-value namespace, the clock, the random sources, the captcha service and the
  static assets. None of those services is defined here; they are the fields of the record
  \<open>outside\<close>, over an arbitrary type of stores, and every read of the clock or of a random source
  takes the next value of a supply.

  The values the worker keeps in the namespace are held as the records their JSON text denotes.
  The theory has the definitions and the facts on single functions; the invariants of the store
  are in \<open>Wordmine_Store\<close> and the behaviour over several requests in \<open>Wordmine_Game\<close>.
\<close>

text \<open>String literals are kept as they are written.\<close>

declare u_simps [simp del]

section \<open>Data\<close>

record session =
  word :: ustring
  started_at :: nat
  guess_count :: nat
  won :: bool
  lost :: bool
  claimed :: bool
  reward :: rat

text \<open>The last three fields are written by the payout daemon.\<close>

record claim =
  claim_address :: ustring
  amount :: rat
  amount_atomic :: int
  status :: ustring
  created_at :: nat
  tx_hash :: "ustring option"
  claim_fee :: "int option"
  claim_error :: "ustring option"

record faucet =
  faucet_at :: int
  balance :: "rat option"
  unlocked :: "rat option"

datatype kvval =
    VSession session
  | VClaim claim
  | VFaucet faucet
  | VText ustring

record wm_env =
  DISABLE_RATELIMIT :: "ustring option"
  TURNSTILE_SECRET :: "ustring option"
  FAUCET_ADDRESS :: "ustring option"

text \<open>
  A request as the handlers read it: \<open>req_json\<close> is what \<open>req.json()\<close> gives. Header names are in
  lower case.
\<close>

record request =
  req_method :: ustring
  pathname :: ustring
  searchParams :: "(ustring \<times> ustring) list"
  req_headers :: "(ustring \<times> ustring) list"
  req_json :: "json res"

datatype body = BJson json | BRaw bytes

record response =
  resp_status :: nat
  resp_headers :: "(ustring \<times> ustring) list"
  resp_body :: body

section \<open>Effects\<close>

datatype wm_eff =
    KvGet ustring
  | KvPut ustring kvval nat
  | DateNow
  | MathRandom
  | GetRandomValues nat
  | SiteVerify ustring ustring ustring
  | AssetsFetch request

datatype wm_resp =
    RKv "kvval option"
  | RUnit
  | RTime nat
  | RRandom rat
  | RBytes bytes
  | RJson json
  | RAsset response
  | RErr js_error

type_synonym 'a wm = "(wm_eff, wm_resp, 'a) prog"

definition kvGet :: "ustring \<Rightarrow> kvval option wm" where
  "kvGet key = Eff (KvGet key) (\<lambda>r. case r of RKv v \<Rightarrow> Ret v | RErr e \<Rightarrow> Throw e | _ \<Rightarrow> Throw TypeError)"

definition kvPut :: "ustring \<Rightarrow> kvval \<Rightarrow> nat \<Rightarrow> unit wm" where
  "kvPut key v ttl =
     Eff (KvPut key v ttl) (\<lambda>r. case r of RUnit \<Rightarrow> Ret () | RErr e \<Rightarrow> Throw e | _ \<Rightarrow> Throw TypeError)"

definition dateNow :: "nat wm" where
  "dateNow = Eff DateNow (\<lambda>r. case r of RTime t \<Rightarrow> Ret t | _ \<Rightarrow> Throw TypeError)"

definition mathRandom :: "rat wm" where
  "mathRandom = Eff MathRandom (\<lambda>r. case r of RRandom x \<Rightarrow> Ret x | _ \<Rightarrow> Throw TypeError)"

definition getRandomValues :: "nat \<Rightarrow> bytes wm" where
  "getRandomValues n = Eff (GetRandomValues n) (\<lambda>r. case r of RBytes b \<Rightarrow> Ret b | _ \<Rightarrow> Throw TypeError)"

definition siteVerify :: "ustring \<Rightarrow> ustring \<Rightarrow> ustring \<Rightarrow> json wm" where
  "siteVerify secret token ip =
     Eff (SiteVerify secret token ip)
       (\<lambda>r. case r of RJson j \<Rightarrow> Ret j | RErr e \<Rightarrow> Throw e | _ \<Rightarrow> Throw TypeError)"

definition assetsFetch :: "request \<Rightarrow> response wm" where
  "assetsFetch req =
     Eff (AssetsFetch req) (\<lambda>r. case r of RAsset x \<Rightarrow> Ret x | RErr e \<Rightarrow> Throw e | _ \<Rightarrow> Throw TypeError)"

text \<open>
  The read \<open>get(key, {type: 'json'})\<close> of a record of a given kind. A value of another kind under
  the key is an error; the store invariant excludes it.
\<close>

definition kvGetSession :: "ustring \<Rightarrow> session option wm" where
  "kvGetSession key =
     bindP (kvGet key) (\<lambda>v. case v of
       None \<Rightarrow> Ret None | Some (VSession s) \<Rightarrow> Ret (Some s) | Some _ \<Rightarrow> Throw TypeError)"

definition kvGetClaim :: "ustring \<Rightarrow> claim option wm" where
  "kvGetClaim key =
     bindP (kvGet key) (\<lambda>v. case v of
       None \<Rightarrow> Ret None | Some (VClaim c) \<Rightarrow> Ret (Some c) | Some _ \<Rightarrow> Throw TypeError)"

definition kvGetFaucet :: "ustring \<Rightarrow> faucet option wm" where
  "kvGetFaucet key =
     bindP (kvGet key) (\<lambda>v. case v of
       None \<Rightarrow> Ret None | Some (VFaucet f) \<Rightarrow> Ret (Some f) | Some _ \<Rightarrow> Throw TypeError)"

definition kvGetText :: "ustring \<Rightarrow> ustring option wm" where
  "kvGetText key =
     bindP (kvGet key) (\<lambda>v. case v of
       None \<Rightarrow> Ret None | Some (VText s) \<Rightarrow> Ret (Some s) | Some _ \<Rightarrow> Throw TypeError)"

section \<open>The services outside\<close>

text \<open>
  The store is read and written at a time in milliseconds. At step \<open>n\<close> the clock shows
  \<open>clock n\<close>, the random sources give \<open>random n\<close> and \<open>entropy n\<close>, and \<open>fault n\<close> says whether
  the remote operation of that step fails.
\<close>

record 's outside =
  kvget :: "'s \<Rightarrow> nat \<Rightarrow> ustring \<Rightarrow> kvval option"
  kvput :: "'s \<Rightarrow> nat \<Rightarrow> ustring \<Rightarrow> kvval \<Rightarrow> nat \<Rightarrow> 's"
  clock :: "nat \<Rightarrow> nat"
  random :: "nat \<Rightarrow> rat"
  entropy :: "nat \<Rightarrow> nat \<Rightarrow> bytes"
  fault :: "nat \<Rightarrow> js_error option"
  siteverify :: "ustring \<Rightarrow> ustring \<Rightarrow> ustring \<Rightarrow> json res"
  assets :: "request \<Rightarrow> response res"

record 's world =
  store :: 's
  tick :: nat

definition wm_remote :: "'s outside \<Rightarrow> 's world \<Rightarrow> wm_resp \<Rightarrow> wm_resp" where
  "wm_remote out w r = (case fault out (tick w) of None \<Rightarrow> r | Some e \<Rightarrow> RErr e)"

fun wm_handle :: "'s outside \<Rightarrow> wm_eff \<Rightarrow> 's world \<Rightarrow> wm_resp \<times> 's world" where
  "wm_handle out (KvGet key) w =
     (wm_remote out w (RKv (kvget out (store w) (clock out (tick w)) key)), w\<lparr>tick := Suc (tick w)\<rparr>)"
| "wm_handle out (KvPut key v ttl) w =
     (wm_remote out w RUnit,
      w\<lparr>store := (if fault out (tick w) = None
                  then kvput out (store w) (clock out (tick w)) key v ttl else store w),
        tick := Suc (tick w)\<rparr>)"
| "wm_handle out DateNow w = (RTime (clock out (tick w)), w\<lparr>tick := Suc (tick w)\<rparr>)"
| "wm_handle out MathRandom w = (RRandom (random out (tick w)), w\<lparr>tick := Suc (tick w)\<rparr>)"
| "wm_handle out (GetRandomValues n) w = (RBytes (entropy out (tick w) n), w\<lparr>tick := Suc (tick w)\<rparr>)"
| "wm_handle out (SiteVerify secret token ip) w =
     (wm_remote out w (case siteverify out secret token ip of Inl e \<Rightarrow> RErr e | Inr j \<Rightarrow> RJson j),
      w\<lparr>tick := Suc (tick w)\<rparr>)"
| "wm_handle out (AssetsFetch req) w =
     (wm_remote out w (case assets out req of Inl e \<Rightarrow> RErr e | Inr x \<Rightarrow> RAsset x),
      w\<lparr>tick := Suc (tick w)\<rparr>)"

section \<open>Helpers\<close>

definition jsonResponse :: "json \<Rightarrow> nat \<Rightarrow> response" where
  "jsonResponse b st =
     \<lparr>resp_status = st, resp_headers = [(u ''content-type'', u ''application/json'')], resp_body = BJson b\<rparr>"

definition errResponse :: "ustring \<Rightarrow> nat \<Rightarrow> response" where
  "errResponse msg st = jsonResponse (JObj [(u ''error'', JStr msg)]) st"

definition newId :: "ustring \<Rightarrow> ustring wm" where
  "newId prefix = bindP (getRandomValues 16) (\<lambda>a. Ret (prefix @ hexOfBytes a))"

definition clientIp :: "request \<Rightarrow> ustring" where
  "clientIp req =
     headerOr (req_headers req) (u ''cf-connecting-ip'') (headerOr (req_headers req) (u ''x-forwarded-for'') (u ''unknown''))"

datatype mark = Green | Yellow | Gray

text \<open>\<open>s[i]\<close>; \<open>None\<close> beyond the end.\<close>

definition charAt :: "ustring \<Rightarrow> nat \<Rightarrow> nat option" where
  "charAt s i = (if i < length s then Some (s ! i) else None)"

definition grade_first :: "ustring \<Rightarrow> ustring \<Rightarrow> mark list \<times> (nat option \<Rightarrow> nat)" where
  "grade_first guess answer =
     foldl (\<lambda>(marks, counts) i.
       if charAt guess i = charAt answer i then (marks[i := Green], counts)
       else (marks, counts(charAt answer i := counts (charAt answer i) + 1)))
     (replicate 5 Gray, \<lambda>c. 0) [0..<5]"

definition grade :: "ustring \<Rightarrow> ustring \<Rightarrow> mark list" where
  "grade guess answer =
     fst (foldl (\<lambda>(marks, counts) i.
       if marks ! i = Green then (marks, counts)
       else if counts (charAt guess i) \<noteq> 0
         then (marks[i := Yellow], counts(charAt guess i := counts (charAt guess i) - 1))
       else (marks, counts))
     (grade_first guess answer) [0..<5])"

definition maxReward :: "rat \<Rightarrow> rat" where
  "maxReward b = min 1 (jsDiv (max 0 b) 1000)"

definition verifyTurnstile :: "json option \<Rightarrow> ustring option \<Rightarrow> ustring \<Rightarrow> bool wm" where
  "verifyTurnstile token secret ip =
     (if secret = Some (u ''TEST'') then Ret True
      else case secret of
        None \<Rightarrow> Ret False
      | Some sec \<Rightarrow>
          if sec = [] then Ret False
          else if \<not> truthy token then Ret False
          else bindP (liftR (jsToString (the token))) (\<lambda>tok.
               bindP (siteVerify sec tok ip) (\<lambda>j.
               bindP (liftR (getProp j (u ''success''))) (\<lambda>s.
               Ret (truthy s)))))"

definition getFaucetBalance :: "(rat \<times> rat) wm" where
  "getFaucetBalance =
     bindP (kvGetFaucet (u ''faucet:balance'')) (\<lambda>rec. case rec of
       None \<Rightarrow> Ret (0, 0)
     | Some r \<Rightarrow>
         bindP dateNow (\<lambda>now.
         if int now - faucet_at r > 600000 then Ret (0, 0)
         else let b = (case balance r of None \<Rightarrow> 0 | Some x \<Rightarrow> x);
                  un = (case unlocked r of None \<Rightarrow> b | Some x \<Rightarrow> x)
              in Ret (b, un)))"

section \<open>Routes\<close>

definition jsInt :: "int \<Rightarrow> json" where
  "jsInt n = JNum (Fin (of_int n))"

definition jsRat :: "rat \<Rightarrow> json" where
  "jsRat x = JNum (Fin x)"

text \<open>
  The seconds left of a cooldown that started at the time the entry holds; 0 for an entry that is
  empty or holds no number.
\<close>

definition cooldownLeft :: "ustring option \<Rightarrow> int wm" where
  "cooldownLeft taken =
     (case taken of
        None \<Rightarrow> Ret 0
      | Some s \<Rightarrow>
          if s = [] then Ret 0
          else case parseInt 10 s of
            None \<Rightarrow> Ret 0
          | Some startedAt \<Rightarrow>
              bindP dateNow (\<lambda>now.
              Ret (max 0 (3600 - mathFloor (jsDiv (of_int (int now - startedAt)) 1000)))))"

definition pickWord :: "rat \<Rightarrow> ustring" where
  "pickWord r = WORDS ! nat (mathFloor (jsMul r (of_nat (length WORDS))))"

definition rateLimitOff :: "wm_env \<Rightarrow> bool" where
  "rateLimitOff env \<longleftrightarrow> DISABLE_RATELIMIT env = Some (u ''1'')"

definition startSession :: "wm_env \<Rightarrow> ustring \<Rightarrow> response wm" where
  "startSession env rlKey =
     bindP mathRandom (\<lambda>r.
     bindP (newId (u ''s_'')) (\<lambda>id.
     bindP dateNow (\<lambda>now.
     let session = \<lparr>word = pickWord r, started_at = now, guess_count = 0, won = False,
                    lost = False, claimed = False, reward = 0\<rparr>
     in bindP (kvPut (u ''session:'' @ id) (VSession session) 1800) (\<lambda>_.
        bindP (if rateLimitOff env then Ret ()
               else bindP dateNow (\<lambda>t. kvPut rlKey (VText (natToString t)) 3600)) (\<lambda>_.
        Ret (jsonResponse (JObj [(u ''session'', JStr id)]) 200))))))"

text \<open>\<open>await req.json().catch(() => ({}))\<close>.\<close>

definition bodyOf :: "request \<Rightarrow> json" where
  "bodyOf req = (case req_json req of Inl e \<Rightarrow> JObj [] | Inr v \<Rightarrow> v)"

definition handleStart :: "wm_env \<Rightarrow> request \<Rightarrow> response wm" where
  "handleStart env req =
     (let ip = clientIp req;
          rlKey = u ''ratelimit:'' @ ip
      in bindP (if rateLimitOff env then Ret None else kvGetText rlKey) (\<lambda>taken.
         bindP (cooldownLeft taken) (\<lambda>remaining.
         if remaining > 0
         then Ret (jsonResponse (JObj [(u ''error'', JStr (u ''cooldown'')),
                (u ''retry_after_seconds'', jsInt remaining)]) 429)
         else bindP (liftR (getProp (bodyOf req) (u ''captcha''))) (\<lambda>captcha.
              bindP (verifyTurnstile captcha (TURNSTILE_SECRET env) ip) (\<lambda>ok.
              if \<not> ok then Ret (errResponse (u ''captcha_failed'') 403)
              else startSession env rlKey)))))"

definition markJson :: "mark \<Rightarrow> json" where
  "markJson m = JStr (case m of Green \<Rightarrow> u ''green'' | Yellow \<Rightarrow> u ''yellow'' | Gray \<Rightarrow> u ''gray'')"

text \<open>The record after a guess, before the reward of a win is set.\<close>

definition gradedSession :: "session \<Rightarrow> ustring \<Rightarrow> session" where
  "gradedSession rec guess =
     (let n = guess_count rec + 1;
          w = list_all (\<lambda>m. m = Green) (grade guess (word rec))
      in rec\<lparr>guess_count := n, won := w, lost := \<not> w \<and> n \<ge> 6\<rparr>)"

definition sessionTtl :: "session \<Rightarrow> nat" where
  "sessionTtl rec = (if won rec then 900 else if lost rec then 300 else 1800)"

definition guessBody :: "mark list \<Rightarrow> session \<Rightarrow> json \<Rightarrow> json" where
  "guessBody marks rec token =
     JObj ([(u ''marks'', JArr (map markJson marks)), (u ''guesses'', jsInt (int (guess_count rec))),
            (u ''won'', JBool (won rec)), (u ''lost'', JBool (lost rec))] @
           (if won rec then [(u ''reward'', jsRat (reward rec)), (u ''claim_token'', token)]
            else if lost rec then [(u ''answer'', JStr (word rec))]
            else []))"

definition recordGuess :: "json \<Rightarrow> ustring \<Rightarrow> session \<Rightarrow> ustring \<Rightarrow> response wm" where
  "recordGuess token key rec guess =
     (let rec1 = gradedSession rec guess
      in bindP (if won rec1
                then bindP getFaucetBalance (\<lambda>(b, un).
                     Ret (rec1\<lparr>reward := jsDiv (maxReward un) (of_nat (guess_count rec1))\<rparr>))
                else Ret rec1) (\<lambda>rec2.
         bindP (kvPut key (VSession rec2) (sessionTtl rec2)) (\<lambda>_.
         Ret (jsonResponse (guessBody (grade guess (word rec)) rec2 token) 200))))"

definition handleGuess :: "request \<Rightarrow> response wm" where
  "handleGuess req =
     (let b = bodyOf req
      in bindP (liftR (getProp b (u ''session''))) (\<lambda>id.
         bindP (liftR (bindR (getProp b (u ''guess'')) stringOrEmpty)) (\<lambda>raw.
         let guess = toUpperCase raw
         in if \<not> guessPattern guess then Ret (errResponse (u ''bad_guess'') 400)
            else if \<not> truthy id then Ret (errResponse (u ''no_session'') 400)
            else bindP (liftR (jsToString (the id))) (\<lambda>sid.
                 let key = u ''session:'' @ sid
                 in bindP (kvGetSession key) (\<lambda>found. case found of
                      None \<Rightarrow> Ret (errResponse (u ''no_session'') 410)
                    | Some rec \<Rightarrow>
                        if won rec \<or> lost rec then Ret (errResponse (u ''already_finished'') 410)
                        else recordGuess (the id) key rec guess)))))"

definition enqueueClaim :: "ustring \<Rightarrow> rat \<Rightarrow> response wm" where
  "enqueueClaim addr rew =
     bindP (newId (u ''c_'')) (\<lambda>claimId.
     bindP dateNow (\<lambda>now.
     let claim = \<lparr>claim_address = addr, amount = rew, amount_atomic = mathFloor (jsMul rew (10 ^ 12)),
                  status = u ''pending'', created_at = now, tx_hash = None, claim_fee = None, claim_error = None\<rparr>
     in bindP (kvPut (u ''claim:'' @ claimId) (VClaim claim) 86400) (\<lambda>_.
        bindP dateNow (\<lambda>t.
        bindP (kvPut (u ''queue:'' @ natToString t @ u '':'' @ claimId) (VText claimId) 86400) (\<lambda>_.
        Ret (jsonResponse (JObj [(u ''claim_id'', JStr claimId)]) 200))))))"

definition handleClaim :: "request \<Rightarrow> response wm" where
  "handleClaim req =
     (let b = bodyOf req
      in bindP (liftR (getProp b (u ''token''))) (\<lambda>id.
         bindP (liftR (bindR (getProp b (u ''address'')) stringOrEmpty)) (\<lambda>raw.
         let addr = trim raw
         in if \<not> truthy id then Ret (errResponse (u ''no_token'') 400)
            else if \<not> addressPattern addr then Ret (errResponse (u ''bad_address'') 400)
            else bindP (liftR (jsToString (the id))) (\<lambda>sid.
                 let key = u ''session:'' @ sid
                 in bindP (kvGetSession key) (\<lambda>found. case found of
                      None \<Rightarrow> Ret (errResponse (u ''expired_or_unknown'') 410)
                    | Some rec \<Rightarrow>
                        if \<not> won rec then Ret (errResponse (u ''not_won'') 400)
                        else if claimed rec then Ret (errResponse (u ''already_claimed'') 409)
                        else bindP (kvPut key (VSession (rec\<lparr>claimed := True\<rparr>)) 900) (\<lambda>_.
                             enqueueClaim addr (reward rec)))))))"

text \<open>The JSON text of a claim; the daemon's fields are absent until it has written them.\<close>

definition claimJson :: "claim \<Rightarrow> json" where
  "claimJson c =
     JObj ([(u ''address'', JStr (claim_address c)), (u ''amount'', jsRat (amount c)),
            (u ''amount_atomic'', jsInt (amount_atomic c)), (u ''status'', JStr (status c)),
            (u ''created_at'', jsInt (int (created_at c)))] @
           (case tx_hash c of None \<Rightarrow> [] | Some h \<Rightarrow> [(u ''tx_hash'', JStr h)]) @
           (case claim_fee c of None \<Rightarrow> [] | Some f \<Rightarrow> [(u ''fee'', jsInt f)]) @
           (case claim_error c of None \<Rightarrow> [] | Some e \<Rightarrow> [(u ''error'', JStr e)]))"

definition handleClaimStatus :: "request \<Rightarrow> response wm" where
  "handleClaimStatus req =
     (case map_of (searchParams req) (u ''id'') of
        None \<Rightarrow> Ret (errResponse (u ''no_id'') 400)
      | Some cid \<Rightarrow>
          if cid = [] then Ret (errResponse (u ''no_id'') 400)
          else bindP (kvGetClaim (u ''claim:'' @ cid)) (\<lambda>found. case found of
                 None \<Rightarrow> Ret (errResponse (u ''unknown_claim'') 404)
               | Some rec \<Rightarrow> Ret (jsonResponse (claimJson rec) 200)))"

definition handleFaucet :: "wm_env \<Rightarrow> response wm" where
  "handleFaucet env =
     bindP getFaucetBalance (\<lambda>(b, un).
     Ret (jsonResponse (JObj [(u ''balance'', jsRat b), (u ''unlocked'', jsRat un),
       (u ''address'', JStr (case FAUCET_ADDRESS env of None \<Rightarrow> [] | Some a \<Rightarrow> a)),
       (u ''max_reward'', jsRat (maxReward un))]) 200))"

section \<open>Security headers\<close>

definition sq :: "string \<Rightarrow> ustring" where
  "sq s = [39] @ u s @ [39]"

definition CSP :: ustring where
  "CSP = joinWith (u ''; '')
     [u ''default-src '' @ sq ''self'',
      u ''script-src '' @ sq ''self'' @ u '' https://challenges.cloudflare.com'',
      u ''script-src-elem '' @ sq ''self'' @ u '' https://challenges.cloudflare.com'',
      u ''style-src '' @ sq ''self'' @ u '' '' @ sq ''unsafe-inline'',
      u ''img-src '' @ sq ''self'' @ u '' data:'',
      u ''frame-src https://challenges.cloudflare.com'',
      u ''connect-src '' @ sq ''self'' @ u '' https://challenges.cloudflare.com'',
      u ''font-src '' @ sq ''self'',
      u ''base-uri '' @ sq ''self'',
      u ''form-action '' @ sq ''self'',
      u ''frame-ancestors '' @ sq ''none'']"

definition SECURITY_HEADERS :: "(ustring \<times> ustring) list" where
  "SECURITY_HEADERS =
     [(u ''content-security-policy'', CSP),
      (u ''x-content-type-options'', u ''nosniff''),
      (u ''x-frame-options'', u ''DENY''),
      (u ''referrer-policy'', u ''strict-origin-when-cross-origin''),
      (u ''strict-transport-security'', u ''max-age=63072000; includeSubDomains; preload''),
      (u ''permissions-policy'', u ''accelerometer=(), camera=(), geolocation=(), gyroscope=(), microphone=(), payment=(), usb=()'')]"

definition withSecurityHeaders :: "response \<Rightarrow> response" where
  "withSecurityHeaders resp =
     resp\<lparr>resp_headers := setHeaders SECURITY_HEADERS (resp_headers resp)\<rparr>"

section \<open>Dispatcher\<close>

definition route :: "wm_env \<Rightarrow> request \<Rightarrow> response wm" where
  "route env req =
     (if pathname req = u ''/api/start'' \<and> req_method req = u ''POST'' then handleStart env req
      else if pathname req = u ''/api/guess'' \<and> req_method req = u ''POST'' then handleGuess req
      else if pathname req = u ''/api/claim'' \<and> req_method req = u ''POST'' then handleClaim req
      else if pathname req = u ''/api/claim_status'' \<and> req_method req = u ''GET'' then handleClaimStatus req
      else if pathname req = u ''/api/faucet'' \<and> req_method req = u ''GET'' then handleFaucet env
      else assetsFetch req)"

definition wm_fetch :: "wm_env \<Rightarrow> request \<Rightarrow> response wm" where
  "wm_fetch env req = bindP (route env req) (\<lambda>resp. Ret (withSecurityHeaders resp))"

end
