(* ===== verification/Wordmine_Grade.thy ===== *)
theory Wordmine_Grade
  imports Wordmine_Worker
begin

text \<open>
  What \<open>grade\<close> of the worker computes. The two passes over mutable marks and counters give, at
  each place, a mark that depends on counts of letters only: green where the letters agree,
  yellow at the first places of a letter as long as unmatched occurrences of it remain in the
  answer, gray elsewhere.
\<close>

section \<open>Counting\<close>

definition cnt :: "(nat \<Rightarrow> bool) \<Rightarrow> nat \<Rightarrow> nat" where
  "cnt P n = length (filter P [0..<n])"

lemma cnt_simps [simp]: "cnt P 0 = 0" "cnt P (Suc n) = cnt P n + (if P n then 1 else 0)"
  by (simp_all add: cnt_def)

lemma cnt_cong: "(\<And>i. i < n \<Longrightarrow> P i = Q i) \<Longrightarrow> cnt P n = cnt Q n"
  by (induction n) simp_all

lemma cnt_split: "cnt P n = cnt (\<lambda>i. P i \<and> Q i) n + cnt (\<lambda>i. P i \<and> \<not> Q i) n"
  by (induction n) auto

lemma cnt_first: "cnt (\<lambda>i. P i \<and> cnt P i < N) n = min (cnt P n) N"
  by (induction n) auto

section \<open>The specification of marks\<close>

definition agree :: "ustring \<Rightarrow> ustring \<Rightarrow> nat \<Rightarrow> bool" where
  "agree g a i \<longleftrightarrow> charAt g i = charAt a i"

definition unmatched :: "ustring \<Rightarrow> ustring \<Rightarrow> ustring \<Rightarrow> nat option \<Rightarrow> nat \<Rightarrow> nat" where
  "unmatched g a s c n = cnt (\<lambda>j. \<not> agree g a j \<and> charAt s j = c) n"

definition markSpec :: "ustring \<Rightarrow> ustring \<Rightarrow> nat \<Rightarrow> mark" where
  "markSpec g a i =
     (if agree g a i then Green
      else if unmatched g a g (charAt g i) i < unmatched g a a (charAt g i) 5 then Yellow
      else Gray)"

section \<open>The two passes\<close>

abbreviation first_step :: "ustring \<Rightarrow> ustring \<Rightarrow> mark list \<times> (nat option \<Rightarrow> nat) \<Rightarrow> nat
    \<Rightarrow> mark list \<times> (nat option \<Rightarrow> nat)" where
  "first_step g a \<equiv> \<lambda>(marks, counts) i.
     if charAt g i = charAt a i then (marks[i := Green], counts)
     else (marks, counts(charAt a i := counts (charAt a i) + 1))"

abbreviation second_step :: "ustring \<Rightarrow> mark list \<times> (nat option \<Rightarrow> nat) \<Rightarrow> nat
    \<Rightarrow> mark list \<times> (nat option \<Rightarrow> nat)" where
  "second_step g \<equiv> \<lambda>(marks, counts) i.
     if marks ! i = Green then (marks, counts)
     else if counts (charAt g i) \<noteq> 0
       then (marks[i := Yellow], counts(charAt g i := counts (charAt g i) - 1))
     else (marks, counts)"

lemma first_pass:
  assumes "n \<le> 5" "foldl (first_step g a) (replicate 5 Gray, \<lambda>c. 0) [0..<n] = (marks, counts)"
  shows "length marks = 5 \<and> (\<forall>i < 5. marks ! i = (if i < n \<and> agree g a i then Green else Gray)) \<and>
    (\<forall>c. counts c = unmatched g a a c n)"
  using assms
proof (induction n arbitrary: marks counts)
  case (Suc n)
  obtain m c where mc: "foldl (first_step g a) (replicate 5 Gray, \<lambda>c. 0) [0..<n] = (m, c)" by force
  have IH: "length m = 5" "\<forall>i < 5. m ! i = (if i < n \<and> agree g a i then Green else Gray)"
    "\<forall>x. c x = unmatched g a a x n"
    using Suc.IH [OF _ mc] Suc.prems(1) by auto
  have step: "first_step g a (m, c) n = (marks, counts)" using Suc.prems(2) mc by simp
  show ?case
  proof (cases "agree g a n")
    case True
    then have "marks = m[n := Green]" "counts = c" using step by (auto simp: agree_def)
    then show ?thesis using IH True Suc.prems(1) by (auto simp: unmatched_def nth_list_update less_Suc_eq)
  next
    case False
    then have "marks = m" "counts = c(charAt a n := c (charAt a n) + 1)"
      using step by (auto simp: agree_def)
    then show ?thesis using IH False by (auto simp: unmatched_def less_Suc_eq)
  qed
qed (auto simp: unmatched_def)

lemma second_pass:
  assumes "n \<le> 5" "foldl (second_step g) (grade_first g a) [0..<n] = (marks, counts)"
  shows "length marks = 5 \<and>
    (\<forall>i < 5. marks ! i = (if i < n then markSpec g a i else if agree g a i then Green else Gray)) \<and>
    (\<forall>c. counts c = unmatched g a a c 5 - unmatched g a g c n)"
  using assms
proof (induction n arbitrary: marks counts)
  case 0
  then show ?case using first_pass [of 5 g a marks counts] by (simp add: grade_first_def unmatched_def)
next
  case (Suc n)
  obtain m c where mc: "foldl (second_step g) (grade_first g a) [0..<n] = (m, c)" by force
  have IH: "length m = 5"
    "\<forall>i < 5. m ! i = (if i < n then markSpec g a i else if agree g a i then Green else Gray)"
    "\<forall>x. c x = unmatched g a a x 5 - unmatched g a g x n"
    using Suc.IH [OF _ mc] Suc.prems(1) by auto
  have step: "second_step g (m, c) n = (marks, counts)" using Suc.prems(2) mc by simp
  have n: "n < 5" using Suc.prems(1) by simp
  have suc: "unmatched g a g x (Suc n) =
      unmatched g a g x n + (if \<not> agree g a n \<and> charAt g n = x then 1 else 0)" for x
    by (simp add: unmatched_def)
  show ?case
  proof (cases "agree g a n")
    case True
    then have "m ! n = Green" using IH(2) n by simp
    then have "marks = m" "counts = c" using step by auto
    then show ?thesis using IH True n by (auto simp: suc less_Suc_eq markSpec_def)
  next
    case False
    then have gray: "m ! n \<noteq> Green" using IH(2) n by simp
    show ?thesis
    proof (cases "c (charAt g n) = 0")
      case True
      then have "marks = m" "counts = c" using step gray by auto
      then show ?thesis using IH False True n by (auto simp: suc less_Suc_eq markSpec_def)
    next
      case more: False
      then have "marks = m[n := Yellow]" "counts = c(charAt g n := c (charAt g n) - 1)"
        using step gray by auto
      then show ?thesis using IH False more n
        by (auto simp: suc less_Suc_eq markSpec_def nth_list_update)
    qed
  qed
qed

lemma grade_spec: "grade g a = map (markSpec g a) [0..<5]"
proof -
  obtain m c where mc: "foldl (second_step g) (grade_first g a) [0..<5] = (m, c)" by force
  then have "length m = 5" "\<forall>i < 5. m ! i = markSpec g a i" using second_pass [OF _ mc] by auto
  moreover have "grade g a = m" using mc by (simp add: grade_def)
  ultimately show ?thesis by (intro nth_equalityI) simp_all
qed

lemma length_grade [simp]: "length (grade g a) = 5"
  by (simp add: grade_spec)

section \<open>Consequences\<close>

lemma markSpec_Green: "markSpec g a i = Green \<longleftrightarrow> agree g a i"
  by (simp add: markSpec_def)

lemma grade_all_green:
  assumes "length g = 5" "length a = 5"
  shows "list_all (\<lambda>m. m = Green) (grade g a) \<longleftrightarrow> g = a"
proof -
  have "list_all (\<lambda>m. m = Green) (grade g a) \<longleftrightarrow> (\<forall>i < 5. agree g a i)"
    by (simp add: grade_spec list_all_length markSpec_Green)
  also have "\<dots> \<longleftrightarrow> g = a"
    using assms by (auto simp: agree_def charAt_def intro: nth_equalityI)
  finally show ?thesis .
qed

text \<open>
  The colored marks of a letter are as many as its occurrences in both words allow.
\<close>

definition colored :: "ustring \<Rightarrow> ustring \<Rightarrow> nat option \<Rightarrow> nat" where
  "colored g a c = cnt (\<lambda>i. charAt g i = c \<and> grade g a ! i \<noteq> Gray) 5"

lemma colored_letters:
  "colored g a c = min (cnt (\<lambda>i. charAt g i = c) 5) (cnt (\<lambda>i. charAt a i = c) 5)"
proof -
  let ?P = "\<lambda>i. \<not> agree g a i \<and> charAt g i = c" and ?N = "unmatched g a a c 5"
  let ?green = "cnt (\<lambda>i. charAt g i = c \<and> agree g a i) 5"
  have "colored g a c = cnt (\<lambda>i. charAt g i = c \<and> markSpec g a i \<noteq> Gray) 5"
    unfolding colored_def grade_spec by (rule cnt_cong) simp
  also have "\<dots> = cnt (\<lambda>i. (charAt g i = c \<and> markSpec g a i \<noteq> Gray) \<and> agree g a i) 5
      + cnt (\<lambda>i. (charAt g i = c \<and> markSpec g a i \<noteq> Gray) \<and> \<not> agree g a i) 5"
    by (rule cnt_split)
  also have "cnt (\<lambda>i. (charAt g i = c \<and> markSpec g a i \<noteq> Gray) \<and> agree g a i) 5 = ?green"
    by (rule cnt_cong) (auto simp: markSpec_def)
  also have "cnt (\<lambda>i. (charAt g i = c \<and> markSpec g a i \<noteq> Gray) \<and> \<not> agree g a i) 5
      = cnt (\<lambda>i. ?P i \<and> cnt ?P i < ?N) 5"
    by (rule cnt_cong) (auto simp: markSpec_def unmatched_def)
  also have "\<dots> = min (cnt ?P 5) ?N" by (rule cnt_first)
  also have "?green + min (cnt ?P 5) ?N = min (?green + cnt ?P 5) (?green + ?N)" by simp
  also have "?green + cnt ?P 5 = cnt (\<lambda>i. charAt g i = c) 5"
    unfolding cnt_split [of "\<lambda>i. charAt g i = c" 5 "agree g a"] by (simp add: conj_commute)
  also have "?green = cnt (\<lambda>i. charAt a i = c \<and> agree g a i) 5"
    by (rule cnt_cong) (auto simp: agree_def)
  also have "\<dots> + ?N = cnt (\<lambda>i. charAt a i = c) 5"
    unfolding cnt_split [of "\<lambda>i. charAt a i = c" 5 "agree g a"] unmatched_def by (simp add: conj_commute)
  finally show ?thesis .
qed

end
