(* ===== verification/Wordmine_Store.thy ===== *)
theory Wordmine_Store
  imports Wordmine_Grade
begin

text \<open>
  The invariant of the key-value namespace of the worker: under every key the value is of the
  kind its prefix says, sessions and claims are well formed, rewards are within bounds. It is
  kept by every request under every interleaving of requests, whatever the services answer,
  provided the namespace behaves as one consistent store.

  The invariant carries a further property \<open>F\<close> of the session under each identifier, and a
  condition \<open>N\<close> on the identifiers that are still to be drawn and \<open>T\<close> on the times that are still to
  be read. The locale \<open>session_property\<close> says
  which properties the handlers keep; it is interpreted for the trivial one, for sessions that
  are finished and for sessions that are claimed.
\<close>

section \<open>What the worker relies on of its services\<close>

text \<open>
  A value that was put is read until its time to live has passed and not after; other keys are
  not affected.
\<close>

definition kv_laws :: "'s outside \<Rightarrow> bool" where
  "kv_laws out \<longleftrightarrow>
     (\<forall>s t k v ttl t'. t \<le> t' \<longrightarrow>
        kvget out (kvput out s t k v ttl) t' k = (if t' < t + 1000 * ttl then Some v else None)) \<and>
     (\<forall>s t k v ttl t' k'. k' \<noteq> k \<longrightarrow> kvget out (kvput out s t k v ttl) t' k' = kvget out s t' k')"

text \<open>
  Time does not go back; \<open>Math.random()\<close> is a multiple of \<open>2 ^ -53\<close> below 1;
  \<open>getRandomValues\<close> fills its array.
\<close>

definition supply_laws :: "'s outside \<Rightarrow> bool" where
  "supply_laws out \<longleftrightarrow>
     mono (clock out) \<and> (\<forall>n. 0 \<le> random out n \<and> random out n \<le> 1 - 1 / 2 ^ 53) \<and>
     (\<forall>n len. length (entropy out n len) = len)"

section \<open>Well-formed values\<close>

definition session_ok :: "session \<Rightarrow> bool" where
  "session_ok s \<longleftrightarrow>
     word s \<in> set WORDS \<and> 0 \<le> reward s \<and> reward s \<le> 1 \<and> \<not> (won s \<and> lost s) \<and>
     (won s \<longrightarrow> 1 \<le> guess_count s \<and> guess_count s \<le> 6) \<and> (lost s \<longrightarrow> guess_count s = 6) \<and>
     (\<not> won s \<and> \<not> lost s \<longrightarrow> guess_count s \<le> 5) \<and> (claimed s \<longrightarrow> won s)"

definition claim_ok :: "claim \<Rightarrow> bool" where
  "claim_ok c \<longleftrightarrow>
     addressPattern (claim_address c) \<and> 0 \<le> amount c \<and> amount c \<le> 1 \<and>
     0 \<le> amount_atomic c \<and> amount_atomic c \<le> 10 ^ 12"

type_synonym sprop = "ustring \<Rightarrow> session \<Rightarrow> bool"

definition typed :: "sprop \<Rightarrow> ustring \<Rightarrow> kvval \<Rightarrow> bool" where
  "typed F k v \<longleftrightarrow>
     (startsWith (u ''session:'') k \<longrightarrow> (\<exists>s. v = VSession s \<and> session_ok s \<and> F (drop 8 k) s)) \<and>
     (startsWith (u ''claim:'') k \<longrightarrow> (\<exists>c. v = VClaim c \<and> claim_ok c)) \<and>
     (startsWith (u ''faucet:'') k \<longrightarrow> (\<exists>f. v = VFaucet f)) \<and>
     (startsWith (u ''ratelimit:'') k \<longrightarrow> (\<exists>t. v = VText t)) \<and>
     (startsWith (u ''queue:'') k \<longrightarrow> (\<exists>t. v = VText t))"

definition store_ok :: "'s outside \<Rightarrow> sprop \<Rightarrow> 's \<Rightarrow> nat \<Rightarrow> bool" where
  "store_ok out F s t \<longleftrightarrow> (\<forall>t' k v. t \<le> t' \<longrightarrow> kvget out s t' k = Some v \<longrightarrow> typed F k v)"

definition sessionId :: "bytes \<Rightarrow> ustring" where
  "sessionId b = u ''s_'' @ hexOfBytes b"

definition wm_inv ::
    "'s outside \<Rightarrow> sprop \<Rightarrow> (ustring \<Rightarrow> bool) \<Rightarrow> (nat \<Rightarrow> bool) \<Rightarrow> 's world \<Rightarrow> bool" where
  "wm_inv out F N T w \<longleftrightarrow>
     kv_laws out \<and> supply_laws out \<and> store_ok out F (store w) (clock out (tick w)) \<and>
     (\<forall>n \<ge> tick w. N (sessionId (entropy out n 16)) \<and> T (clock out n))"

text \<open>What a request promises of its effects, and may rely on of the responses.\<close>

definition cooldownEntry :: "(nat \<Rightarrow> bool) \<Rightarrow> ustring \<Rightarrow> kvval \<Rightarrow> nat \<Rightarrow> bool" where
  "cooldownEntry T k v ttl \<longleftrightarrow>
     (startsWith (u ''ratelimit:'') k \<longrightarrow> ttl = 3600 \<and> (\<exists>t. v = VText (natToString t) \<and> T t))"

definition putOk :: "sprop \<Rightarrow> (nat \<Rightarrow> bool) \<Rightarrow> wm_eff \<Rightarrow> bool" where
  "putOk F T e =
     (case e of KvPut k v ttl \<Rightarrow> typed F k v \<and> 60 \<le> ttl \<and> cooldownEntry T k v ttl | _ \<Rightarrow> True)"

definition respOk ::
    "sprop \<Rightarrow> (ustring \<Rightarrow> bool) \<Rightarrow> (nat \<Rightarrow> bool) \<Rightarrow> wm_eff \<Rightarrow> wm_resp \<Rightarrow> bool" where
  "respOk F N T e r =
     (case (e, r) of
        (KvGet k, RKv (Some v)) \<Rightarrow> typed F k v
      | (DateNow, RTime t) \<Rightarrow> T t
      | (MathRandom, RRandom x) \<Rightarrow> 0 \<le> x \<and> x \<le> 1 - 1 / 2 ^ 53
      | (GetRandomValues n, RBytes b) \<Rightarrow> length b = n \<and> (n = 16 \<longrightarrow> N (sessionId b))
      | _ \<Rightarrow> True)"

section \<open>The services keep the invariant\<close>

lemma clock_mono: "supply_laws out \<Longrightarrow> m \<le> n \<Longrightarrow> clock out m \<le> clock out n"
  by (auto simp: supply_laws_def mono_def)

lemma store_ok_later: "store_ok out F s t \<Longrightarrow> t \<le> t' \<Longrightarrow> store_ok out F s t'"
  unfolding store_ok_def by (meson order_trans)

lemma store_ok_put:
  assumes "kv_laws out" "store_ok out F s t" "typed F k v"
  shows "store_ok out F (kvput out s t k v ttl) t"
  unfolding store_ok_def
proof (intro allI impI)
  fix t' k' v'
  assume t: "t \<le> t'" and get: "kvget out (kvput out s t k v ttl) t' k' = Some v'"
  show "typed F k' v'"
  proof (cases "k' = k")
    case True
    then have "v' = v" using get t assms(1) by (auto simp: kv_laws_def split: if_splits)
    then show ?thesis using True assms(3) by simp
  next
    case False
    then have "kvget out s t' k' = Some v'" using get assms(1) by (auto simp: kv_laws_def)
    then show ?thesis using t assms(2) by (auto simp: store_ok_def)
  qed
qed

interpretation wm: rely_guarantee "wm_handle out" "wm_inv out F N T" "putOk F T" "respOk F N T"
  for out :: "'s outside" and F N T
proof
  fix w w' e r
  assume inv: "wm_inv out F N T w" and h: "wm_handle out e w = (r, w')"
  show "respOk F N T e r"
    using inv h
    by (cases e) (auto simp: respOk_def wm_inv_def wm_remote_def store_ok_def supply_laws_def
        split: option.splits sum.splits)
  assume p: "putOk F T e"
  have later: "store_ok out F s (clock out (Suc (tick w)))"
    if "store_ok out F s (clock out (tick w))" for s
    using store_ok_later [OF that] clock_mono [of out "tick w" "Suc (tick w)"] inv
    by (simp add: wm_inv_def)
  show "wm_inv out F N T w'"
  proof (cases e)
    case (KvPut k v ttl)
    then show ?thesis
      using inv h p later store_ok_put [of out F "store w" "clock out (tick w)" k v ttl]
      by (auto simp: wm_inv_def putOk_def)
  qed (use inv h later in \<open>auto simp: wm_inv_def\<close>)
qed

section \<open>The specification of each step\<close>

named_theorems guard_simps \<open>the specification of a program, computed\<close>

lemma guards_kvGet [guard_simps]:
  "guards (putOk F T) (respOk F N T) R (kvGet k) \<longleftrightarrow> R None \<and> (\<forall>x. typed F k x \<longrightarrow> R (Some x))"
  by (auto simp: kvGet_def putOk_def respOk_def split: wm_resp.splits option.splits)

lemma guards_steps [guard_simps]:
  "guards (putOk F T) (respOk F N T) R2 (kvPut k v ttl) \<longleftrightarrow> typed F k v \<and> 60 \<le> ttl \<and> cooldownEntry T k v ttl \<and> R2 ()"
  "guards (putOk F T) (respOk F N T) R3 dateNow \<longleftrightarrow> (\<forall>t. T t \<longrightarrow> R3 t)"
  "guards (putOk F T) (respOk F N T) R4 mathRandom \<longleftrightarrow> (\<forall>x. 0 \<le> x \<and> x \<le> 1 - 1 / 2 ^ 53 \<longrightarrow> R4 x)"
  "guards (putOk F T) (respOk F N T) R5 (getRandomValues n) \<longleftrightarrow> (\<forall>b. length b = n \<and> (n = 16 \<longrightarrow> N (sessionId b)) \<longrightarrow> R5 b)"
  "guards (putOk F T) (respOk F N T) R6 (siteVerify sec tok ip) \<longleftrightarrow> (\<forall>j. R6 j)"
  "guards (putOk F T) (respOk F N T) R7 (assetsFetch req) \<longleftrightarrow> (\<forall>x. R7 x)"
  by (auto simp: kvPut_def dateNow_def mathRandom_def getRandomValues_def siteVerify_def
      assetsFetch_def putOk_def respOk_def split: wm_resp.splits option.splits)

declare guards_bindP [guard_simps] guards_liftR [guard_simps]

lemma typed_simps [simp]:
  "typed F (u ''session:'' @ k) v \<longleftrightarrow> (\<exists>s. v = VSession s \<and> session_ok s \<and> F k s)"
  "typed F (u ''claim:'' @ k) v \<longleftrightarrow> (\<exists>c. v = VClaim c \<and> claim_ok c)"
  "typed F (u ''faucet:balance'') v \<longleftrightarrow> (\<exists>f. v = VFaucet f)"
  "typed F (u ''ratelimit:'' @ k) v \<longleftrightarrow> (\<exists>t. v = VText t)"
  "typed F (u ''queue:'' @ k) v \<longleftrightarrow> (\<exists>t. v = VText t)"
  by (simp_all add: typed_def startsWith_def u_simps)

lemma cooldownEntry_simps [simp]:
  "cooldownEntry T (u ''session:'' @ k) v ttl" "cooldownEntry T (u ''claim:'' @ k) v ttl"
  "cooldownEntry T (u ''queue:'' @ k) v ttl"
  "cooldownEntry T (u ''ratelimit:'' @ k) v ttl \<longleftrightarrow> ttl = 3600 \<and> (\<exists>t. v = VText (natToString t) \<and> T t)"
  by (simp_all add: cooldownEntry_def startsWith_def u_simps)

lemma guards_typed_gets [guard_simps]:
  "guards (putOk F T) (respOk F N T) R1 (kvGetSession (u ''session:'' @ k)) \<longleftrightarrow>
     R1 None \<and> (\<forall>s. session_ok s \<and> F k s \<longrightarrow> R1 (Some s))"
  "guards (putOk F T) (respOk F N T) R2 (kvGetClaim (u ''claim:'' @ k)) \<longleftrightarrow>
     R2 None \<and> (\<forall>c. claim_ok c \<longrightarrow> R2 (Some c))"
  "guards (putOk F T) (respOk F N T) R3 (kvGetFaucet (u ''faucet:balance'')) \<longleftrightarrow> R3 None \<and> (\<forall>f. R3 (Some f))"
  "guards (putOk F T) (respOk F N T) R4 (kvGetText (u ''ratelimit:'' @ k)) \<longleftrightarrow> R4 None \<and> (\<forall>t. R4 (Some t))"
  unfolding kvGetSession_def kvGetClaim_def kvGetFaucet_def kvGetText_def guard_simps typed_simps
  by (auto split: option.splits kvval.splits)

section \<open>Numbers\<close>

lemma maxReward_bounds: "0 \<le> maxReward b" "maxReward b \<le> 1"
  using double.rnd_nonneg [of "max 0 b / 1000"] by (auto simp: maxReward_def jsDiv_def)

lemma reward_bounds:
  "1 \<le> n \<Longrightarrow> 0 \<le> jsDiv (maxReward b) (of_nat n) \<and> jsDiv (maxReward b) (of_nat n) \<le> 1"
  using double.rnd_div_bounds [of "maxReward b" 1 "of_nat n"] maxReward_bounds [of b]
  by (simp add: jsDiv_def)

lemma amount_atomic_bounds:
  assumes "0 \<le> r" "r \<le> 1"
  shows "0 \<le> mathFloor (jsMul r (10 ^ 12))" "mathFloor (jsMul r (10 ^ 12)) \<le> 10 ^ 12"
proof -
  have "0 \<le> fl (r * 10 ^ 12)" using assms by (intro double.rnd_nonneg) simp
  moreover have "fl (r * 10 ^ 12) \<le> of_int (10 ^ 12)" using assms by (intro double.rnd_le_int) simp_all
  ultimately show "0 \<le> mathFloor (jsMul r (10 ^ 12))" "mathFloor (jsMul r (10 ^ 12)) \<le> 10 ^ 12"
    by (simp_all add: mathFloor_def jsMul_def floor_le_iff)
qed

text \<open>The index of the word is in range for every value of \<open>Math.random()\<close>.\<close>

lemma random_top: "fl ((1 - 1 / 2 ^ 53) * 516) < 516"
proof -
  have "fl ((1 - 1 / 2 ^ 53) * 516) =
      of_int (roundEven ((1 - 1 / 2 ^ 53) * 516 / 2 powi (9 - 52))) * 2 powi (9 - 52)"
    by (rule fl_eval) (simp_all add: power_int_numeral)
  also have "(1 - 1 / 2 ^ 53) * 516 / 2 powi (9 - 52) = (4538783999459328 :: rat) - 129 / 256"
    by (simp add: power_int_minus)
  also have "roundEven \<dots> = 4538783999459327"
  proof -
    have "\<lfloor>(4538783999459328 :: rat) - 129 / 256\<rfloor> = 4538783999459327" by (rule floor_unique) simp_all
    then show ?thesis unfolding roundEven_def Let_def by simp
  qed
  finally show ?thesis by (simp add: power_int_minus)
qed

lemma pickWord_mem:
  assumes "0 \<le> x" "x \<le> 1 - 1 / 2 ^ 53"
  shows "pickWord x \<in> set WORDS"
proof -
  have "fl (x * 516) \<le> fl ((1 - 1 / 2 ^ 53) * 516)"
    using assms(2) by (intro fl_mono mult_right_mono) simp_all
  then have "fl (x * 516) < 516" using random_top by simp
  moreover have "0 \<le> fl (x * 516)" using assms(1) by (intro double.rnd_nonneg) simp
  ultimately have "nat \<lfloor>fl (x * 516)\<rfloor> < 516" by (simp add: nat_less_iff floor_less_iff)
  then show ?thesis unfolding pickWord_def mathFloor_def jsMul_def by (intro nth_mem) simp
qed

section \<open>Every request keeps the invariant\<close>

lemma gradedSession_ok:
  assumes "session_ok rec" "\<not> won rec" "\<not> lost rec"
  shows "session_ok (gradedSession rec g)"
  using assms by (auto simp: session_ok_def gradedSession_def Let_def)

lemma gradedSession_won:
  assumes "session_ok rec" "\<not> won rec" "\<not> lost rec" "won (gradedSession rec g)" "0 \<le> r" "r \<le> 1"
  shows "session_ok (gradedSession rec g\<lparr>reward := r\<rparr>)"
  using gradedSession_ok [OF assms(1-3), of g] assms(5,6) by (simp add: session_ok_def)

lemma guards_getFaucetBalance:
  "(\<And>b un. R (b, un)) \<Longrightarrow> guards (putOk F T) (respOk F N T) R getFaucetBalance"
  unfolding getFaucetBalance_def by (simp add: guard_simps Let_def)

lemma guards_newId: "(\<And>b. length b = 16 \<Longrightarrow> R (prefix @ hexOfBytes b)) \<Longrightarrow> guards (putOk F T) (respOk F N T) R (newId prefix)"
  by (simp add: newId_def guard_simps)

lemma guards_verifyTurnstile: "(\<And>b. R b) \<Longrightarrow> guards (putOk F T) (respOk F N T) R (verifyTurnstile tok sec ip)"
  by (simp add: verifyTurnstile_def guard_simps split: option.splits)

lemma guards_cooldownLeft: "(\<And>n. 0 \<le> n \<Longrightarrow> R n) \<Longrightarrow> guards (putOk F T) (respOk F N T) R (cooldownLeft taken)"
  by (simp add: cooldownLeft_def guard_simps split: option.splits)

section \<open>Security headers\<close>

definition hasSecurityHeaders :: "response \<Rightarrow> bool" where
  "hasSecurityHeaders resp \<longleftrightarrow>
     (\<forall>(k, v) \<in> set SECURITY_HEADERS. map_of (resp_headers resp) k = Some v)"

lemma withSecurityHeaders_has: "hasSecurityHeaders (withSecurityHeaders resp)"
proof -
  have d: "distinct (map fst SECURITY_HEADERS)" by (simp add: SECURITY_HEADERS_def)
  then show ?thesis
    by (auto simp: hasSecurityHeaders_def withSecurityHeaders_def map_of_setHeaders)
qed

section \<open>Properties of sessions that every request keeps\<close>

abbreviation newSession :: "ustring \<Rightarrow> nat \<Rightarrow> session" where
  "newSession w t \<equiv> \<lparr>word = w, started_at = t, guess_count = 0, won = False, lost = False,
     claimed = False, reward = 0\<rparr>"

locale session_property =
  fixes F :: sprop and N :: "ustring \<Rightarrow> bool"
  assumes keep_new: "N i \<Longrightarrow> F i (newSession w t)"
    and keep_guess: "F i s \<Longrightarrow> \<not> won s \<Longrightarrow> \<not> lost s \<Longrightarrow> F i (gradedSession s g)"
    and keep_win: "F i s \<Longrightarrow> \<not> won s \<Longrightarrow> \<not> lost s \<Longrightarrow> F i (gradedSession s g\<lparr>reward := r\<rparr>)"
    and keep_claim: "F i s \<Longrightarrow> won s \<Longrightarrow> \<not> claimed s \<Longrightarrow> F i (s\<lparr>claimed := True\<rparr>)"
begin

lemma guards_startSession: "(\<And>x. R x) \<Longrightarrow> guards (putOk F T) (respOk F N T) R (startSession env (u ''ratelimit:'' @ ip))"
  unfolding startSession_def newId_def
  by (auto simp: guard_simps Let_def session_ok_def pickWord_mem keep_new sessionId_def)

lemma guards_handleStart: "(\<And>x. R x) \<Longrightarrow> guards (putOk F T) (respOk F N T) R (handleStart env req)"
  unfolding handleStart_def Let_def
  by (auto simp: guard_simps intro!: guards_cooldownLeft guards_verifyTurnstile guards_startSession)

lemma guards_recordGuess:
  assumes "session_ok rec" "\<not> won rec" "\<not> lost rec" "F sid rec" "\<And>x. R x"
  shows "guards (putOk F T) (respOk F N T) R (recordGuess tok (u ''session:'' @ sid) rec g)"
proof -
  let ?rec = "gradedSession rec g"
  have ok: "session_ok ?rec" by (rule gradedSession_ok [OF assms(1-3)])
  show ?thesis
  proof (cases "won ?rec")
    case True
    have "1 \<le> guess_count ?rec" by (simp add: gradedSession_def Let_def)
    then have "session_ok (?rec\<lparr>reward := jsDiv (maxReward un) (of_nat (guess_count ?rec))\<rparr>)" for un
      using reward_bounds [of "guess_count ?rec" un] gradedSession_won [OF assms(1-3) True] by blast
    then show ?thesis
      using True assms(5) keep_win [OF assms(4,2,3)]
      by (auto simp: recordGuess_def guard_simps Let_def sessionTtl_def intro!: guards_getFaucetBalance)
  next
    case False
    then show ?thesis
      using ok assms(5) keep_guess [OF assms(4,2,3)] by (simp add: recordGuess_def guard_simps Let_def sessionTtl_def)
  qed
qed

lemma guards_handleGuess: "(\<And>x. R x) \<Longrightarrow> guards (putOk F T) (respOk F N T) R (handleGuess req)"
  unfolding handleGuess_def Let_def
  by (auto simp: guard_simps intro!: guards_recordGuess)

lemma guards_enqueueClaim:
  assumes "addressPattern addr" "0 \<le> r" "r \<le> 1" "\<And>x. R x"
  shows "guards (putOk F T) (respOk F N T) R (enqueueClaim addr r)"
  using assms amount_atomic_bounds [OF assms(2,3)]
  by (simp add: enqueueClaim_def newId_def guard_simps Let_def claim_ok_def)

lemma guards_handleClaim: "(\<And>x. R x) \<Longrightarrow> guards (putOk F T) (respOk F N T) R (handleClaim req)"
  unfolding handleClaim_def Let_def
  by (auto simp: guard_simps session_ok_def keep_claim intro!: guards_enqueueClaim)

lemma guards_route: "(\<And>x. R x) \<Longrightarrow> guards (putOk F T) (respOk F N T) R (route env req)"
  unfolding route_def handleClaimStatus_def handleFaucet_def
  by (auto simp: guard_simps intro!: guards_handleStart guards_handleGuess guards_handleClaim
      guards_getFaucetBalance split: option.splits)

lemma guards_wm_fetch: "guards (putOk F T) (respOk F N T) hasSecurityHeaders (wm_fetch env req)"
  unfolding wm_fetch_def guards_bindP by (rule guards_route) (simp add: withSecurityHeaders_has)

end

section \<open>The properties\<close>

text \<open>Nothing more than the invariant.\<close>

definition anySession :: sprop where
  "anySession i s = True"

text \<open>The session under one identifier is finished, or is claimed.\<close>

definition finishedAt :: "ustring \<Rightarrow> sprop" where
  "finishedAt sid i s \<longleftrightarrow> (i = sid \<longrightarrow> won s \<or> lost s)"

definition claimedAt :: "ustring \<Rightarrow> sprop" where
  "claimedAt sid i s \<longleftrightarrow> (i = sid \<longrightarrow> claimed s \<and> won s)"

interpretation anyp: session_property anySession N for N
  by unfold_locales (simp_all add: anySession_def)

interpretation finished: session_property "finishedAt sid" "\<lambda>i. i \<noteq> sid" for sid
  by unfold_locales (auto simp: finishedAt_def)

interpretation claimedp: session_property "claimedAt sid" "\<lambda>i. i \<noteq> sid" for sid
  by unfold_locales (auto simp: claimedAt_def gradedSession_def Let_def)

end
