(* ===== verification/Wordmine_Game.thy ===== *)
theory Wordmine_Game
  imports Wordmine_Store
begin

text \<open>
  The worker over several requests: what holds when requests are served one after the other, and
  what still holds, or no longer holds, when they are interleaved at their awaits. A claimed
  session is never claimed again by a request that starts afterwards; two requests that both read
  the session before either writes it are both granted.
\<close>

section \<open>Requests for one session\<close>

definition names :: "ustring \<Rightarrow> ustring \<Rightarrow> request \<Rightarrow> bool" where
  "names field sid req \<longleftrightarrow>
     (\<exists>v. getProp (bodyOf req) field = Inr (Some v) \<and> jsToString v = Inr sid)"

definition claimsFor :: "ustring \<Rightarrow> request \<Rightarrow> bool" where
  "claimsFor sid req \<longleftrightarrow>
     pathname req = u ''/api/claim'' \<and> req_method req = u ''POST'' \<and> names (u ''token'') sid req"

definition guessesFor :: "ustring \<Rightarrow> request \<Rightarrow> bool" where
  "guessesFor sid req \<longleftrightarrow>
     pathname req = u ''/api/guess'' \<and> req_method req = u ''POST'' \<and> names (u ''session'') sid req"

definition granted :: "response res \<Rightarrow> bool" where
  "granted x = (case x of Inl e \<Rightarrow> False | Inr resp \<Rightarrow> resp_status resp = 200)"

lemma route_claim: "claimsFor sid req \<Longrightarrow> route env req = handleClaim req"
  by (simp add: route_def claimsFor_def)

lemma route_guess: "guessesFor sid req \<Longrightarrow> route env req = handleGuess req"
  by (simp add: route_def guessesFor_def)

lemma status_withSecurityHeaders [simp]: "resp_status (withSecurityHeaders r) = resp_status r"
  by (simp add: withSecurityHeaders_def)

lemma status_errResponse [simp]: "resp_status (errResponse m st) = st"
  "resp_status (jsonResponse b st) = st"
  by (simp_all add: errResponse_def jsonResponse_def)

section \<open>Refusals\<close>

text \<open>Once the session is claimed, a claim for it is refused; once finished, a guess is refused.\<close>

lemma claim_refused:
  assumes "claimsFor sid req"
  shows "guards (putOk (claimedAt sid) T) (respOk (claimedAt sid) N T) (\<lambda>r. resp_status r \<noteq> 200) (wm_fetch env req)"
proof -
  obtain v where v: "getProp (bodyOf req) (u ''token'') = Inr (Some v)" "jsToString v = Inr sid"
    using assms by (auto simp: claimsFor_def names_def)
  have "guards (putOk (claimedAt sid) T) (respOk (claimedAt sid) N T) (\<lambda>r. resp_status r \<noteq> 200) (handleClaim req)"
    unfolding handleClaim_def Let_def by (simp add: guard_simps v claimedAt_def)
  then show ?thesis unfolding wm_fetch_def guards_bindP route_claim [OF assms] by simp
qed

lemma claims_refused:
  "guards (putOk (claimedAt sid) T) (respOk (claimedAt sid) (\<lambda>i. i \<noteq> sid) T)
     (\<lambda>r. claimsFor sid req \<longrightarrow> resp_status r \<noteq> 200) (wm_fetch env req)"
proof (cases "claimsFor sid req")
  case True
  then show ?thesis using claim_refused by simp
next
  case False
  then show ?thesis by (intro guards_mono [OF claimedp.guards_wm_fetch]) simp_all
qed

lemma guess_refused:
  assumes "guessesFor sid req"
  shows "guards (putOk (finishedAt sid) T) (respOk (finishedAt sid) N T) (\<lambda>r. resp_status r \<noteq> 200) (wm_fetch env req)"
proof -
  obtain v where v: "getProp (bodyOf req) (u ''session'') = Inr (Some v)" "jsToString v = Inr sid"
    using assms by (auto simp: guessesFor_def names_def)
  have "guards (putOk (finishedAt sid) T) (respOk (finishedAt sid) N T) (\<lambda>r. resp_status r \<noteq> 200) (handleGuess req)"
    unfolding handleGuess_def Let_def by (auto simp: guard_simps v finishedAt_def)
  then show ?thesis unfolding wm_fetch_def guards_bindP route_guess [OF assms] by simp
qed

section \<open>A granted claim marks the session\<close>

text \<open>Writing one session narrows the property of the store to it.\<close>

lemma store_ok_focus:
  assumes "kv_laws out" "store_ok out anySession s t" "typed G (u ''session:'' @ sid) v"
    "\<And>i x. i \<noteq> sid \<Longrightarrow> G i x"
  shows "store_ok out G (kvput out s t (u ''session:'' @ sid) v ttl) t"
  unfolding store_ok_def
proof (intro allI impI)
  fix t' k' v'
  let ?k = "u ''session:'' @ sid"
  assume t: "t \<le> t'" and get: "kvget out (kvput out s t ?k v ttl) t' k' = Some v'"
  show "typed G k' v'"
  proof (cases "k' = ?k")
    case True
    then have "v' = v" using get t assms(1) by (auto simp: kv_laws_def split: if_splits)
    then show ?thesis using True assms(3) by simp
  next
    case False
    then have "kvget out s t' k' = Some v'" using get assms(1) by (auto simp: kv_laws_def)
    then have ty: "typed anySession k' v'" using t assms(2) by (auto simp: store_ok_def)
    have "drop 8 k' \<noteq> sid" if "startsWith (u ''session:'') k'"
      using that False by (auto simp: startsWith_iff)
    with ty assms(4) show ?thesis by (auto simp: typed_def)
  qed
qed

lemma store_ok_session:
  assumes "store_ok out F s t" "kvget out s t (u ''session:'' @ sid) = Some v"
  shows "\<exists>rec. v = VSession rec \<and> session_ok rec \<and> F sid rec"
proof -
  have "typed F (u ''session:'' @ sid) v" using assms unfolding store_ok_def by blast
  then show ?thesis by simp
qed

named_theorems run_simps \<open>running one effect\<close>

lemma run_effects [run_simps]:
  "run (wm_handle out) (kvGet k) w =
     (case fault out (tick w) of
        None \<Rightarrow> (Inr (kvget out (store w) (clock out (tick w)) k), w\<lparr>tick := Suc (tick w)\<rparr>)
      | Some e \<Rightarrow> (Inl e, w\<lparr>tick := Suc (tick w)\<rparr>))"
  "run (wm_handle out) (kvPut k v ttl) w =
     (case fault out (tick w) of
        None \<Rightarrow> (Inr (), w\<lparr>store := kvput out (store w) (clock out (tick w)) k v ttl, tick := Suc (tick w)\<rparr>)
      | Some e \<Rightarrow> (Inl e, w\<lparr>tick := Suc (tick w)\<rparr>))"
  "run (wm_handle out) dateNow w = (Inr (clock out (tick w)), w\<lparr>tick := Suc (tick w)\<rparr>)"
  "run (wm_handle out) mathRandom w = (Inr (random out (tick w)), w\<lparr>tick := Suc (tick w)\<rparr>)"
  "run (wm_handle out) (getRandomValues n) w = (Inr (entropy out (tick w) n), w\<lparr>tick := Suc (tick w)\<rparr>)"
  by (simp_all add: kvGet_def kvPut_def dateNow_def mathRandom_def getRandomValues_def wm_remote_def
      split: option.splits)

declare run_bindP [run_simps]

lemma run_liftR [run_simps]: "run h (liftR x) w = (x, w)"
  by (cases x) simp_all

lemma granted_claim:
  assumes "claimsFor sid req" "run (wm_handle out) (handleClaim req) w = (Inr resp, w')"
    "resp_status resp = 200"
  obtains rec addr w1 where "kvget out (store w) (clock out (tick w)) (u ''session:'' @ sid) = Some (VSession rec)"
    "won rec" "\<not> claimed rec" "addressPattern addr"
    "w1 = w\<lparr>store := kvput out (store w) (clock out (Suc (tick w))) (u ''session:'' @ sid)
        (VSession (rec\<lparr>claimed := True\<rparr>)) 900, tick := Suc (Suc (tick w))\<rparr>"
    "run (wm_handle out) (enqueueClaim addr (reward rec)) w1 = (Inr resp, w')"
proof -
  obtain v where v: "getProp (bodyOf req) (u ''token'') = Inr (Some v)" "jsToString v = Inr sid"
    using assms(1) by (auto simp: claimsFor_def names_def)
  show thesis
    using assms(2,3) that
    unfolding handleClaim_def Let_def kvGetSession_def
    by (auto simp: run_simps v split: if_splits option.splits sum.splits kvval.splits)
qed

lemma granted_claim_locks:
  assumes "wm_inv out anySession (\<lambda>i. i \<noteq> sid) T w" "claimsFor sid req"
    "run (wm_handle out) (wm_fetch env req) w = (Inr resp, w')" "resp_status resp = 200"
  shows "wm_inv out (claimedAt sid) (\<lambda>i. i \<noteq> sid) T w'"
proof -
  from assms(3) obtain r where r: "run (wm_handle out) (handleClaim req) w = (Inr r, w')"
    and "resp_status r = 200"
    unfolding wm_fetch_def route_claim [OF assms(2)] run_bindP using assms(4)
    by (auto split: sum.splits prod.splits)
  then obtain rec addr w1 where
    rec: "kvget out (store w) (clock out (tick w)) (u ''session:'' @ sid) = Some (VSession rec)"
      "won rec" "\<not> claimed rec" "addressPattern addr"
    and w1: "w1 = w\<lparr>store := kvput out (store w) (clock out (Suc (tick w))) (u ''session:'' @ sid)
        (VSession (rec\<lparr>claimed := True\<rparr>)) 900, tick := Suc (Suc (tick w))\<rparr>"
    and rest: "run (wm_handle out) (enqueueClaim addr (reward rec)) w1 = (Inr r, w')"
    using granted_claim [OF assms(2) r] by metis
  have laws: "kv_laws out" "supply_laws out" and st: "store_ok out anySession (store w) (clock out (tick w))"
    using assms(1) by (simp_all add: wm_inv_def)
  have ok: "session_ok rec" using store_ok_session [OF st rec(1)] by simp
  then have "typed (claimedAt sid) (u ''session:'' @ sid) (VSession (rec\<lparr>claimed := True\<rparr>))"
    using rec(2) by (simp add: session_ok_def claimedAt_def)
  moreover have "store_ok out anySession (store w) (clock out (Suc (tick w)))"
    using store_ok_later [OF st clock_mono [OF laws(2)]] by simp
  ultimately have "store_ok out (claimedAt sid) (store w1) (clock out (Suc (tick w)))"
    unfolding w1 using store_ok_focus [OF laws(1), of "store w"] by (simp add: claimedAt_def)
  then have "store_ok out (claimedAt sid) (store w1) (clock out (tick w1))"
    using store_ok_later clock_mono [OF laws(2), of "Suc (tick w)" "tick w1"] w1 by fastforce
  then have "wm_inv out (claimedAt sid) (\<lambda>i. i \<noteq> sid) T w1"
    using assms(1) laws w1 by (auto simp: wm_inv_def)
  moreover have "guards (putOk (claimedAt sid) T) (respOk (claimedAt sid) (\<lambda>i. i \<noteq> sid) T) (\<lambda>_. True)
      (enqueueClaim addr (reward rec))"
    using ok rec by (intro claimedp.guards_enqueueClaim) (simp_all add: session_ok_def)
  ultimately show ?thesis using wm.run_keeps rest by blast
qed

section \<open>Requests one after the other\<close>

definition serve :: "'s outside \<Rightarrow> wm_env \<Rightarrow> request list \<Rightarrow> 's world \<Rightarrow> response res list \<times> 's world" where
  "serve out env reqs w = runAll (wm_handle out) (map (wm_fetch env) reqs) w"

lemma serve_simps [simp]:
  "serve out env [] w = ([], w)"
  "serve out env (req # reqs) w =
     (let (x, w') = run (wm_handle out) (wm_fetch env req) w; (xs, w'') = serve out env reqs w'
      in (x # xs, w''))"
  by (simp_all add: serve_def)

lemma serve_refuses:
  assumes "wm_inv out (claimedAt sid) (\<lambda>i. i \<noteq> sid) T w"
  shows "(req, x) \<in> set (zip reqs (fst (serve out env reqs w))) \<Longrightarrow> claimsFor sid req \<Longrightarrow> \<not> granted x"
  using assms
proof (induction reqs arbitrary: w)
  case (Cons r reqs)
  obtain y w' where y: "run (wm_handle out) (wm_fetch env r) w = (y, w')" by force
  have inv: "wm_inv out (claimedAt sid) (\<lambda>i. i \<noteq> sid) T w'"
    using wm.run_keeps [OF claimedp.guards_wm_fetch Cons.prems(3) y] by blast
  have "\<not> granted y" if "claimsFor sid r"
    using wm.run_keeps [OF claim_refused [OF that] Cons.prems(3) y] by (auto simp: granted_def split: sum.splits)
  then show ?case using Cons.IH [OF _ Cons.prems(2) inv] Cons.prems(1,2) y by (auto split: prod.splits)
qed simp

lemma granted_filter_empty:
  assumes "wm_inv out (claimedAt sid) (\<lambda>i. i \<noteq> sid) T w"
  shows "filter (\<lambda>(req, x). claimsFor sid req \<and> granted x) (zip reqs (fst (serve out env reqs w))) = []"
  using serve_refuses [OF assms] by (auto simp: filter_empty_conv)

lemma serve_claim_once:
  assumes "wm_inv out anySession (\<lambda>i. i \<noteq> sid) T w"
  shows "length (filter (\<lambda>(req, x). claimsFor sid req \<and> granted x)
    (zip reqs (fst (serve out env reqs w)))) \<le> 1"
  using assms
proof (induction reqs arbitrary: w)
  case (Cons r reqs)
  obtain y w' where y: "run (wm_handle out) (wm_fetch env r) w = (y, w')" by force
  obtain ys w'' where ys: "serve out env reqs w' = (ys, w'')" by force
  show ?case
  proof (cases "claimsFor sid r \<and> granted y")
    case True
    then obtain resp where "y = Inr resp" "resp_status resp = 200"
      by (auto simp: granted_def split: sum.splits)
    then have "wm_inv out (claimedAt sid) (\<lambda>i. i \<noteq> sid) T w'"
      using granted_claim_locks [OF Cons.prems] True y by blast
    then show ?thesis using granted_filter_empty [of out sid T w' reqs env] True y ys by simp
  next
    case False
    have "wm_inv out anySession (\<lambda>i. i \<noteq> sid) T w'"
      using wm.run_keeps [OF anyp.guards_wm_fetch Cons.prems y] by blast
    from Cons.IH [OF this] show ?thesis using False y ys by auto
  qed
qed simp

section \<open>Six guesses\<close>

text \<open>The session under one identifier has at least a number of guesses behind it.\<close>

definition countAt :: "ustring \<Rightarrow> nat \<Rightarrow> sprop" where
  "countAt sid c i s \<longleftrightarrow> (i = sid \<longrightarrow> c \<le> guess_count s)"

interpretation counted: session_property "countAt sid c" "\<lambda>i. i \<noteq> sid" for sid c
  by unfold_locales (auto simp: countAt_def gradedSession_def Let_def)

lemma run_getFaucetBalance_store:
  "run (wm_handle out) getFaucetBalance w = (x, w') \<Longrightarrow> store w' = store w \<and> tick w \<le> tick w'"
  unfolding getFaucetBalance_def kvGetFaucet_def
  by (auto simp: run_simps Let_def split: option.splits kvval.splits if_splits sum.splits)

lemma run_recordGuess:
  assumes "run (wm_handle out) (recordGuess tok key rec g) w = (Inr resp, w')"
  obtains rec2 n where "guess_count rec2 = guess_count rec + 1" "word rec2 = word rec"
    "won rec2 \<longleftrightarrow> won (gradedSession rec g)" "lost rec2 \<longleftrightarrow> lost (gradedSession rec g)"
    "claimed rec2 \<longleftrightarrow> claimed rec" "tick w \<le> n"
    "w' = \<lparr>store = kvput out (store w) (clock out n) key (VSession rec2) (sessionTtl rec2), tick = Suc n\<rparr>"
    "resp = jsonResponse (guessBody (grade g (word rec)) rec2 tok) 200"
    "\<not> won (gradedSession rec g) \<longrightarrow> rec2 = gradedSession rec g"
proof -
  let ?rec = "gradedSession rec g"
  have cnt: "guess_count ?rec = guess_count rec + 1" "word ?rec = word rec" "claimed ?rec = claimed rec"
    by (simp_all add: gradedSession_def Let_def)
  show thesis
  proof (cases "won ?rec")
    case True
    obtain x w1 where b: "run (wm_handle out) getFaucetBalance w = (x, w1)" by force
    have st: "store w1 = store w" "tick w \<le> tick w1"
      using run_getFaucetBalance_store [OF b] by simp_all
    obtain un where x: "x = Inr un" using assms True b
      by (auto simp: recordGuess_def run_simps Let_def split: sum.splits)
    show ?thesis
      using assms True b x st cnt
      by (intro that [of "?rec\<lparr>reward := jsDiv (maxReward (snd un)) (of_nat (guess_count ?rec))\<rparr>" "tick w1"])
        (auto simp: recordGuess_def run_simps Let_def sessionTtl_def split: option.splits prod.splits)
  next
    case False
    then show ?thesis
      using assms cnt
      by (intro that [of ?rec "tick w"])
        (auto simp: recordGuess_def run_simps Let_def split: option.splits)
  qed
qed

lemma granted_guess:
  assumes "guessesFor sid req" "run (wm_handle out) (handleGuess req) w = (Inr resp, w')"
    "resp_status resp = 200"
  obtains rec tok g where "kvget out (store w) (clock out (tick w)) (u ''session:'' @ sid) = Some (VSession rec)"
    "\<not> won rec" "\<not> lost rec" "guessPattern g"
    "run (wm_handle out) (recordGuess tok (u ''session:'' @ sid) rec g) (w\<lparr>tick := Suc (tick w)\<rparr>) = (Inr resp, w')"
proof -
  obtain v where v: "getProp (bodyOf req) (u ''session'') = Inr (Some v)" "jsToString v = Inr sid"
    using assms(1) by (auto simp: guessesFor_def names_def)
  show thesis
    using assms(2,3) that
    unfolding handleGuess_def Let_def kvGetSession_def
    by (auto simp: run_simps v split: if_splits option.splits sum.splits kvval.splits)
qed

lemma granted_guess_counts:
  assumes "wm_inv out (countAt sid c) (\<lambda>i. i \<noteq> sid) T w" "guessesFor sid req"
    "run (wm_handle out) (wm_fetch env req) w = (Inr resp, w')" "resp_status resp = 200"
  shows "c < 6 \<and> wm_inv out (countAt sid (Suc c)) (\<lambda>i. i \<noteq> sid) T w'"
proof -
  from assms(3) obtain r where r: "run (wm_handle out) (handleGuess req) w = (Inr r, w')"
    and "resp_status r = 200"
    unfolding wm_fetch_def route_guess [OF assms(2)] run_bindP using assms(4)
    by (auto split: sum.splits prod.splits)
  then obtain rec tok g where
    rec: "kvget out (store w) (clock out (tick w)) (u ''session:'' @ sid) = Some (VSession rec)"
      "\<not> won rec" "\<not> lost rec"
    and rest: "run (wm_handle out) (recordGuess tok (u ''session:'' @ sid) rec g) (w\<lparr>tick := Suc (tick w)\<rparr>) = (Inr r, w')"
    using granted_guess [OF assms(2) r] by metis
  have laws: "kv_laws out" "supply_laws out" and st: "store_ok out (countAt sid c) (store w) (clock out (tick w))"
    using assms(1) by (simp_all add: wm_inv_def)
  have ok: "session_ok rec" "c \<le> guess_count rec"
    using store_ok_session [OF st rec(1)] by (simp_all add: countAt_def)
  have keep: "wm_inv out (countAt sid c) (\<lambda>i. i \<noteq> sid) T w'"
    using wm.run_keeps [OF counted.guards_wm_fetch assms(1,3)] by blast
  obtain rec2 n where r2: "guess_count rec2 = guess_count rec + 1" "tick (w\<lparr>tick := Suc (tick w)\<rparr>) \<le> n"
      "w' = \<lparr>store = kvput out (store (w\<lparr>tick := Suc (tick w)\<rparr>)) (clock out n) (u ''session:'' @ sid)
          (VSession rec2) (sessionTtl rec2), tick = Suc n\<rparr>"
    by (rule run_recordGuess [OF rest]) blast
  have "store_ok out (countAt sid (Suc c)) (store w') (clock out (tick w'))"
    unfolding store_ok_def
  proof (intro allI impI)
    fix t k v assume t: "clock out (tick w') \<le> t" and get: "kvget out (store w') t k = Some v"
    have old: "typed (countAt sid c) k v" using keep t get by (auto simp: wm_inv_def store_ok_def)
    show "typed (countAt sid (Suc c)) k v"
    proof (cases "k = u ''session:'' @ sid")
      case True
      have "clock out n \<le> t" using t r2(3) clock_mono [OF laws(2), of n "Suc n"] by simp
      then have "v = VSession rec2" using get True laws(1) r2(3) by (auto simp: kv_laws_def split: if_splits)
      then show ?thesis using True old r2(1) ok(2) by (auto simp: countAt_def)
    next
      case False
      then have "drop 8 k \<noteq> sid" if "startsWith (u ''session:'') k"
        using that by (auto simp: startsWith_iff)
      then show ?thesis using old by (auto simp: typed_def countAt_def)
    qed
  qed
  then show ?thesis using keep ok rec(2,3) by (auto simp: wm_inv_def session_ok_def)
qed

lemma serve_guess_limit:
  assumes "wm_inv out (countAt sid c) (\<lambda>i. i \<noteq> sid) T w" "c \<le> 6"
  shows "length (filter (\<lambda>(req, x). guessesFor sid req \<and> granted x)
    (zip reqs (fst (serve out env reqs w)))) \<le> 6 - c"
  using assms
proof (induction reqs arbitrary: w c)
  case (Cons r reqs)
  obtain y w' where y: "run (wm_handle out) (wm_fetch env r) w = (y, w')" by force
  obtain ys w'' where ys: "serve out env reqs w' = (ys, w'')" by force
  show ?case
  proof (cases "guessesFor sid r \<and> granted y")
    case True
    then obtain resp where "y = Inr resp" "resp_status resp = 200"
      by (auto simp: granted_def split: sum.splits)
    then have c: "c < 6" "wm_inv out (countAt sid (Suc c)) (\<lambda>i. i \<noteq> sid) T w'"
      using granted_guess_counts [OF Cons.prems(1)] True y by blast+
    then show ?thesis using Cons.IH [OF c(2)] True y ys by simp
  next
    case False
    have "wm_inv out (countAt sid c) (\<lambda>i. i \<noteq> sid) T w'"
      using wm.run_keeps [OF counted.guards_wm_fetch Cons.prems(1) y] by blast
    from Cons.IH [OF this Cons.prems(2)] show ?thesis using False y ys by auto
  qed
qed simp

end
