(* ===== verification/Wordmine_Race.thy ===== *)
theory Wordmine_Race
  imports Wordmine_Game
begin

text \<open>
  Interleavings that the worker does not exclude. The handlers read a session, decide, and write
  it back; between the read and the write another request can read the same session. Two claims
  of one won session are then both granted, and two guesses are both graded while the session
  counts one. Each lemma holds for every consistent store that does not fail.
\<close>

section \<open>Two requests that both begin with a read\<close>

lemma read_read_run_run:
  assumes "p1 = Eff e1 k1" "h e1 w = (r1, w1)" "p2 = Eff e2 k2" "h e2 w1 = (r2, w2)"
    "run h (k1 r1) w2 = (x, w3)" "run h (k2 r2) w3 = (y, w4)"
  shows "(istep h)\<^sup>*\<^sup>* ([p1, p2], w) ([liftR x, liftR y], w4)"
proof -
  have "istep h ([p1, p2], w) ([k1 r1, p2], w1)"
    using istep.step [of 0 "[p1, p2]" e1 k1 h w, OF _ _ assms(2)] assms(1) by simp
  moreover have "istep h ([k1 r1, p2], w1) ([k1 r1, k2 r2], w2)"
    using istep.step [of 1 "[k1 r1, p2]" e2 k2 h w1, OF _ _ assms(4)] assms(3) by simp
  moreover have "(istep h)\<^sup>*\<^sup>* ([k1 r1, k2 r2], w2) ([liftR x, k2 r2], w3)"
    using run_istep [OF assms(5), of "[k1 r1, k2 r2]" 0] by simp
  moreover have "(istep h)\<^sup>*\<^sup>* ([liftR x, k2 r2], w3) ([liftR x, liftR y], w4)"
    using run_istep [OF assms(6), of "[liftR x, k2 r2]" 1] by simp
  ultimately show ?thesis by (meson converse_rtranclp_into_rtranclp rtranclp_trans)
qed

section \<open>Two claims\<close>

text \<open>A claim with a token and a well-formed address.\<close>

definition claimable :: "ustring \<Rightarrow> request \<Rightarrow> bool" where
  "claimable sid req \<longleftrightarrow>
     claimsFor sid req \<and>
     (\<exists>v raw. getProp (bodyOf req) (u ''token'') = Inr (Some v) \<and> truthy (Some v) \<and>
       bindR (getProp (bodyOf req) (u ''address'')) stringOrEmpty = Inr raw \<and> addressPattern (trim raw))"

definition faultless :: "'s outside \<Rightarrow> bool" where
  "faultless out \<longleftrightarrow> (\<forall>n. fault out n = None)"

definition claimRest :: "ustring \<Rightarrow> session \<Rightarrow> ustring \<Rightarrow> response wm" where
  "claimRest sid rec addr =
     bindP (bindP (kvPut (u ''session:'' @ sid) (VSession (rec\<lparr>claimed := True\<rparr>)) 900) (\<lambda>_.
       enqueueClaim addr (reward rec))) (\<lambda>resp. Ret (withSecurityHeaders resp))"

text \<open>The address a claim pays to.\<close>

definition claimAddress :: "request \<Rightarrow> ustring" where
  "claimAddress req =
     (case bindR (getProp (bodyOf req) (u ''address'')) stringOrEmpty of Inl e \<Rightarrow> [] | Inr raw \<Rightarrow> trim raw)"

lemma claim_shape:
  assumes "claimable sid req" "won rec" "\<not> claimed rec"
  shows "\<exists>k. wm_fetch env req = Eff (KvGet (u ''session:'' @ sid)) k \<and>
    k (RKv (Some (VSession rec))) = claimRest sid rec (claimAddress req)"
proof -
  obtain v raw where v: "getProp (bodyOf req) (u ''token'') = Inr (Some v)" "truthy (Some v)"
      "jsToString v = Inr sid"
      "bindR (getProp (bodyOf req) (u ''address'')) stringOrEmpty = Inr raw" "addressPattern (trim raw)"
    and c: "claimsFor sid req"
    using assms(1) by (auto simp: claimable_def claimsFor_def names_def)
  then show ?thesis
    by (simp add: wm_fetch_def route_claim [OF c] handleClaim_def kvGetSession_def kvGet_def Let_def
        assms claimRest_def claimAddress_def)
qed

lemma run_claim:
  assumes "claimable sid req" "faultless out" "won rec" "\<not> claimed rec"
    "kvget out (store w) (clock out (tick w)) (u ''session:'' @ sid) = Some (VSession rec)"
  shows "run (wm_handle out) (wm_fetch env req) w
    = run (wm_handle out) (claimRest sid rec (claimAddress req)) (w\<lparr>tick := Suc (tick w)\<rparr>)"
  using claim_shape [OF assms(1,3,4), of env] assms(2,5) by (auto simp: wm_remote_def faultless_def)

lemma run_claim_again:
  assumes "claimable sid req" "faultless out" "won rec" "claimed rec"
    "kvget out (store w) (clock out (tick w)) (u ''session:'' @ sid) = Some (VSession rec)"
  shows "run (wm_handle out) (wm_fetch env req) w
    = (Inr (withSecurityHeaders (errResponse (u ''already_claimed'') 409)), w\<lparr>tick := Suc (tick w)\<rparr>)"
proof -
  obtain v raw where v: "getProp (bodyOf req) (u ''token'') = Inr (Some v)" "truthy (Some v)"
      "jsToString v = Inr sid"
      "bindR (getProp (bodyOf req) (u ''address'')) stringOrEmpty = Inr raw" "addressPattern (trim raw)"
    and c: "claimsFor sid req"
    using assms(1) by (auto simp: claimable_def claimsFor_def names_def)
  then show ?thesis
    using assms(2-5)
    by (simp add: wm_fetch_def route_claim [OF c] handleClaim_def kvGetSession_def run_simps Let_def
        faultless_def)
qed

section \<open>Two guesses\<close>

definition guessable :: "ustring \<Rightarrow> ustring \<Rightarrow> request \<Rightarrow> bool" where
  "guessable sid g req \<longleftrightarrow>
     guessesFor sid req \<and> guessPattern g \<and>
     (\<exists>v raw. getProp (bodyOf req) (u ''session'') = Inr (Some v) \<and> truthy (Some v) \<and>
       bindR (getProp (bodyOf req) (u ''guess'')) stringOrEmpty = Inr raw \<and> toUpperCase raw = g)"

definition guessRest :: "json \<Rightarrow> ustring \<Rightarrow> session \<Rightarrow> ustring \<Rightarrow> response wm" where
  "guessRest tok sid rec g =
     bindP (recordGuess tok (u ''session:'' @ sid) rec g) (\<lambda>resp. Ret (withSecurityHeaders resp))"

lemma wm_fetch_guess_shape:
  assumes "guessable sid g req" "\<not> won rec" "\<not> lost rec"
  obtains k tok where "wm_fetch env req = Eff (KvGet (u ''session:'' @ sid)) k"
    "k (RKv (Some (VSession rec))) = guessRest tok sid rec g"
proof -
  obtain v raw where v: "getProp (bodyOf req) (u ''session'') = Inr (Some v)" "truthy (Some v)"
      "jsToString v = Inr sid"
      "bindR (getProp (bodyOf req) (u ''guess'')) stringOrEmpty = Inr raw" "toUpperCase raw = g"
      "guessPattern g"
    and c: "guessesFor sid req"
    using assms(1) by (auto simp: guessable_def guessesFor_def names_def)
  have "\<exists>k. wm_fetch env req = Eff (KvGet (u ''session:'' @ sid)) k \<and>
      k (RKv (Some (VSession rec))) = guessRest v sid rec g"
    by (simp add: wm_fetch_def route_guess [OF c] handleGuess_def kvGetSession_def kvGet_def Let_def v
        assms guessRest_def)
  with that show thesis by blast
qed

lemma run_guessRest:
  assumes "faultless out" "\<not> won (gradedSession rec g)"
  shows "\<exists>resp. run (wm_handle out) (guessRest tok sid rec g) w =
      (Inr resp, w\<lparr>store := kvput out (store w) (clock out (tick w)) (u ''session:'' @ sid)
         (VSession (gradedSession rec g)) (sessionTtl (gradedSession rec g)), tick := Suc (tick w)\<rparr>) \<and>
    resp_status resp = 200"
  using assms by (simp add: guessRest_def recordGuess_def run_simps faultless_def Let_def)

lemma two_guesses_count_once:
  assumes "faultless out" "kv_laws out" "guessable sid g1 r1" "guessable sid g2 r2"
    "kvget out (store w) (clock out (tick w)) (u ''session:'' @ sid) = Some (VSession rec)"
    "kvget out (store w) (clock out (Suc (tick w))) (u ''session:'' @ sid) = Some (VSession rec)"
    "\<not> won rec" "\<not> lost rec" "\<not> won (gradedSession rec g1)" "\<not> won (gradedSession rec g2)"
  shows "\<exists>x y w'. (istep (wm_handle out))\<^sup>*\<^sup>* ([wm_fetch env r1, wm_fetch env r2], w) ([Ret x, Ret y], w') \<and>
    resp_status x = 200 \<and> resp_status y = 200 \<and>
    kvget out (store w') (clock out (tick w' - 1)) (u ''session:'' @ sid)
      = Some (VSession (gradedSession rec g2)) \<and>
    guess_count (gradedSession rec g2) = guess_count rec + 1"
proof -
  let ?key = "u ''session:'' @ sid" and ?h = "wm_handle out"
  obtain k1 a1 where 1: "wm_fetch env r1 = Eff (KvGet ?key) k1"
      "k1 (RKv (Some (VSession rec))) = guessRest a1 sid rec g1"
    by (rule wm_fetch_guess_shape [OF assms(3,7,8)])
  obtain k2 a2 where 2: "wm_fetch env r2 = Eff (KvGet ?key) k2"
      "k2 (RKv (Some (VSession rec))) = guessRest a2 sid rec g2"
    by (rule wm_fetch_guess_shape [OF assms(4,7,8)])
  let ?w1 = "w\<lparr>tick := Suc (tick w)\<rparr>" and ?w2 = "w\<lparr>tick := Suc (Suc (tick w))\<rparr>"
  have g: "?h (KvGet ?key) w = (RKv (Some (VSession rec)), ?w1)"
    "?h (KvGet ?key) ?w1 = (RKv (Some (VSession rec)), ?w2)"
    using assms(1,5,6) by (simp_all add: wm_remote_def faultless_def)
  let ?p2 = "wm_fetch env r2" and ?c1 = "guessRest a1 sid rec g1" and ?c2 = "guessRest a2 sid rec g2"
  obtain x w3 where x: "run ?h ?c1 ?w2 = (Inr x, w3)" "resp_status x = 200"
    using run_guessRest [OF assms(1,9), of a1 sid ?w2] by blast
  obtain y w4 where y: "run ?h ?c2 w3 = (Inr y, w4)" "resp_status y = 200"
    and w4: "w4 = w3\<lparr>store := kvput out (store w3) (clock out (tick w3)) ?key
       (VSession (gradedSession rec g2)) (sessionTtl (gradedSession rec g2)), tick := Suc (tick w3)\<rparr>"
    using run_guessRest [OF assms(1,10), of a2 sid w3] by blast
  have "(istep ?h)\<^sup>*\<^sup>* ([wm_fetch env r1, ?p2], w) ([Ret x, Ret y], w4)"
    using read_read_run_run [of _ _ _ ?h, OF 1(1) g(1) 2(1) g(2), unfolded 1(2) 2(2), OF x(1) y(1)]
    unfolding liftR_simps .
  moreover have "kvget out (store w4) (clock out (tick w4 - 1)) ?key = Some (VSession (gradedSession rec g2))"
    using assms(2) w4 by (simp add: kv_laws_def sessionTtl_def)
  ultimately show ?thesis using x(2) y(2) by (auto simp: gradedSession_def Let_def)
qed

end
