(* ===== verification/Effect_Count.thy ===== *)
theory Effect_Count
  imports Effects
begin

text \<open>
  How often a program performs effects of a kind. \<open>spends C p R E n\<close> says that, whatever the
  responses are, \<open>p\<close> performs at most \<open>n\<close> effects that satisfy \<open>C\<close> and ends with a value of
  which, with what is left of \<open>n\<close>, \<open>R\<close> holds, or with an error of which \<open>E\<close> holds. With every effect
  counted it bounds the length of every interleaving, so that interleavings end.
\<close>

section \<open>Counting\<close>

primrec spends ::
    "('e \<Rightarrow> bool) \<Rightarrow> ('e, 'r, 'a) prog \<Rightarrow> ('a \<Rightarrow> nat \<Rightarrow> bool) \<Rightarrow> (js_error \<Rightarrow> nat \<Rightarrow> bool) \<Rightarrow> nat \<Rightarrow> bool" where
  "spends C (Ret x) R E n \<longleftrightarrow> R x n"
| "spends C (Throw e) R E n \<longleftrightarrow> E e n"
| "spends C (Eff e k) R E n \<longleftrightarrow>
     (if C e then 0 < n \<and> (\<forall>r. spends C (k r) R E (n - 1)) else \<forall>r. spends C (k r) R E n)"

abbreviation (input) anyEffect :: "'e \<Rightarrow> bool" where
  "anyEffect e \<equiv> True"

abbreviation (input) anyEnd :: "'a \<Rightarrow> nat \<Rightarrow> bool" where
  "anyEnd x n \<equiv> True"

lemma spends_bindP: "spends C (bindP p f) R E n \<longleftrightarrow> spends C p (\<lambda>x m. spends C (f x) R E m) E n"
  by (induction p arbitrary: n) simp_all

lemma spends_catchP: "spends C (catchP p g) R E n \<longleftrightarrow> spends C p R (\<lambda>e m. spends C (g e) R E m) n"
  by (induction p arbitrary: n) simp_all

lemma spends_liftR:
  "spends C (liftR v) R E n \<longleftrightarrow> (case v of Inl e \<Rightarrow> E e n | Inr x \<Rightarrow> R x n)"
  by (cases v) simp_all

lemma spends_mono:
  assumes "spends C p R E m" "m \<le> n" "\<And>x i j. R x i \<Longrightarrow> i \<le> j \<Longrightarrow> R' x j" "\<And>x i j. E x i \<Longrightarrow> i \<le> j \<Longrightarrow> E' x j"
  shows "spends C p R' E' n"
  using assms(1,2)
proof (induction p arbitrary: m n)
  case (Eff e k)
  show ?case
  proof (cases "C e")
    case True
    then have "0 < m" "\<forall>r. spends C (k r) R E (m - 1)" using Eff.prems(1) by simp_all
    then show ?thesis using True Eff.prems(2) Eff.IH [of _ "m - 1" "n - 1"] by auto
  next
    case False
    then show ?thesis using Eff.prems Eff.IH [of _ m n] by auto
  qed
qed (use assms(3,4) in auto)

section \<open>Interleavings end\<close>

abbreviation ends :: "('e, 'r, 'a) prog \<Rightarrow> nat \<Rightarrow> bool" where
  "ends p n \<equiv> spends anyEffect p anyEnd anyEnd n"

lemma istep_spends:
  assumes "istep h (ps, w) (qs, v)" "\<forall>i < length ps. ends (ps ! i) (b i)"
  obtains i where "i < length ps" "0 < b i" "length qs = length ps"
    "\<forall>j < length qs. ends (qs ! j) ((b(i := b i - 1)) j)"
  using assms(1)
proof (cases rule: istep.cases)
  case (step i e k r)
  have "ends (Eff e k) (b i)" using assms(2) step by metis
  then have "0 < b i" "\<forall>r. ends (k r) (b i - 1)" by simp_all
  then show thesis using step assms(2) by (intro that [of i]) (auto simp: nth_list_update)
qed

lemma interleaving_ends:
  assumes "(istep h ^^ n) (ps, w) (qs, v)" "\<forall>i < length ps. ends (ps ! i) (b i)"
  shows "n \<le> (\<Sum>i < length ps. b i)"
  using assms
proof (induction n arbitrary: ps w b)
  case (Suc n)
  obtain ps' w' where s: "istep h (ps, w) (ps', w')" "(istep h ^^ n) (ps', w') (qs, v)"
    using relpowp_Suc_D2 [OF Suc.prems(1)] by (metis surj_pair)
  obtain i where i: "i < length ps" "0 < b i" "length ps' = length ps"
      "\<forall>j < length ps'. ends (ps' ! j) ((b(i := b i - 1)) j)"
    by (rule istep_spends [OF s(1) Suc.prems(2)])
  have "(\<Sum>j < length ps. (b(i := b i - 1)) j) + 1 = (\<Sum>j < length ps. b j)"
    using i(1,2) by (simp add: sum.remove [of "{..<length ps}" i])
  then show ?case using Suc.IH [OF s(2) i(4)] i(3) by simp
qed simp

lemma interleaving_ends_const:
  assumes "(istep h ^^ n) (ps, w) (qs, v)" "\<forall>p \<in> set ps. ends p c"
  shows "n \<le> c * length ps"
  using interleaving_ends [OF assms(1), of "\<lambda>i. c"] assms(2) by (simp add: mult.commute)

text \<open>When no program can move, every program has a value or has failed.\<close>

lemma stuck_finished:
  assumes "\<And>c. \<not> istep h (ps, w) c" "p \<in> set ps"
  shows "(\<exists>x. p = Ret x) \<or> (\<exists>e. p = Throw e)"
proof (cases p)
  case (Eff e k)
  obtain i where "i < length ps" "ps ! i = p" using assms(2) by (auto simp: in_set_conv_nth)
  moreover obtain r w' where "h e w = (r, w')" by (cases "h e w")
  ultimately show ?thesis using istep.step assms(1) Eff by metis
qed simp_all

end
