(* ===== verification/Wordmine_Bounds.thy ===== *)
theory Wordmine_Bounds
  imports Effect_Count Wordmine_Store
begin

text \<open>
  Bounds on what the worker pays, picks and does: the atomic amount of a claim by the number of
  guesses, the index of the word for every value of \<open>Math.random()\<close>, and the number of calls to
  services that a request makes.
\<close>

declare u_simps [simp del]

section \<open>Amounts\<close>

lemma fl_grid:
  assumes "0 < m" "m \<le> 2 ^ 53" "- 1074 \<le> e"
  shows "fl (of_int m * 2 powi e) = of_int m * 2 powi e"
  using flPos_grid [OF assms] assms(1) by (simp add: fl_def)

text \<open>An amount is bounded through doubles on the way: one above the share, one above the product.\<close>

lemma share_atomic:
  assumes "0 \<le> x" "x \<le> 1 / of_nat n" "1 / of_nat n \<le> (of_int k * 2 powi (- 50) :: rat)"
    "of_int k * 2 powi (- 50) * 10 ^ 12 \<le> (of_int j * 2 powi (- 2) :: rat)"
    "0 < k" "k \<le> 2 ^ 53" "0 < j" "j \<le> 2 ^ 53"
  shows "mathFloor (jsMul (fl x) (10 ^ 12)) \<le> j div 4"
proof -
  have "fl x \<le> of_int k * 2 powi (- 50)"
    by (rule double.rnd_le_fixed [OF order_trans [OF assms(2,3)] fl_grid]) (use assms in simp_all)
  then have "fl x * 10 ^ 12 \<le> of_int j * 2 powi (- 2)"
    using assms(4) by (simp add: order_trans [OF mult_right_mono])
  then have "fl (fl x * 10 ^ 12) \<le> of_int j * 2 powi (- 2)"
    by (rule double.rnd_le_fixed [OF _ fl_grid]) (use assms in simp_all)
  also have "\<dots> < of_int (j div 4 + 1)"
  proof -
    have "j < 4 * (j div 4 + 1)" by simp
    then have "(of_int j :: rat) < of_int (4 * (j div 4 + 1))" by (simp only: of_int_less_iff)
    then show ?thesis by (simp add: power_int_minus)
  qed
  finally show ?thesis by (simp add: mathFloor_def jsMul_def floor_le_iff)
qed

lemma reward_atomic:
  assumes "1 \<le> n" "n \<le> 6"
  shows "mathFloor (jsMul (jsDiv (maxReward b) (of_nat n)) (10 ^ 12)) \<le> 10 ^ 12 div int n"
proof -
  have x: "0 \<le> maxReward b / of_nat n" "maxReward b / of_nat n \<le> 1 / of_nat n"
    using maxReward_bounds [of b] assms by (simp_all add: divide_right_mono)
  note share = share_atomic [OF x, folded jsDiv_def]
  consider "n = 1" | "n = 2" | "n = 3" | "n = 4" | "n = 5" | "n = 6" using assms by linarith
  then show ?thesis
  proof cases
    case 1 then show ?thesis using share [of "2 ^ 50" "4 * 10 ^ 12"] by (simp add: power_int_minus)
  next
    case 2 then show ?thesis using share [of "2 ^ 49" "2 * 10 ^ 12"] by (simp add: power_int_minus)
  next
    case 3 then show ?thesis using share [of "2 ^ 50 div 3 + 1" "1333333333335"] by (simp add: power_int_minus)
  next
    case 4 then show ?thesis using share [of "2 ^ 48" "10 ^ 12"] by (simp add: power_int_minus)
  next
    case 5 then show ?thesis using share [of "2 ^ 50 div 5 + 1" "800000000001"] by (simp add: power_int_minus)
  next
    case 6 then show ?thesis using share [of "2 ^ 50 div 6 + 1" "666666666667"] by (simp add: power_int_minus)
  qed
qed

section \<open>Words\<close>

text \<open>Every index is reached: from a multiple of \<open>1 / 1024\<close>, where the product is exact.\<close>

lemma pickWord_reaches:
  assumes "i < 516"
  shows "\<exists>x. 0 \<le> x \<and> x \<le> 1 - 1 / 2 ^ 53 \<and> pickWord x = WORDS ! i"
proof -
  define k :: int where "k = (256 * int i + 128) div 129"
  have k: "256 * int i \<le> 129 * k" "129 * k < 256 * (int i + 1)" "0 \<le> k" "k < 1024"
    using assms unfolding k_def by simp_all
  have grid: "fl (of_int k / 1024 * 516) = of_int (129 * k) * 2 powi (- 8)"
  proof (cases "k = 0")
    case False
    then have "fl (of_int (129 * k) * 2 powi (- 8)) = of_int (129 * k) * 2 powi (- 8)"
      using k by (intro fl_grid) simp_all
    then show ?thesis by (simp add: power_int_minus)
  qed (simp add: fl_def)
  have "\<lfloor>of_int (129 * k) * 2 powi (- 8) :: rat\<rfloor> = int i"
  proof (rule floor_unique)
    have "(of_int (256 * int i) :: rat) \<le> of_int (129 * k)" using k(1) by (simp only: of_int_le_iff)
    then show "of_int (int i) \<le> (of_int (129 * k) * 2 powi (- 8) :: rat)" by (simp add: power_int_minus)
    have "(of_int (129 * k) :: rat) < of_int (256 * (int i + 1))" using k(2) by (simp only: of_int_less_iff)
    then show "of_int (129 * k) * 2 powi (- 8) < (of_int (int i) + 1 :: rat)" by (simp add: power_int_minus)
  qed
  then have "pickWord (of_int k / 1024) = WORDS ! i"
    unfolding pickWord_def mathFloor_def jsMul_def length_WORDS of_nat_numeral grid by simp
  moreover have "of_int k / 1024 \<le> (1 - 1 / 2 ^ 53 :: rat)"
  proof -
    have "(of_int k :: rat) \<le> of_int 1023" using k(4) by (simp only: of_int_le_iff)
    then show ?thesis by simp
  qed
  ultimately show ?thesis using k(3) by (intro exI [of _ "of_int k / 1024"]) simp
qed

section \<open>Calls to services\<close>

named_theorems spend_simps \<open>the number of effects of a program, computed\<close>

lemma spends_effects [spend_simps]:
  "spends anyEffect (kvGet key) R1 anyEnd n \<longleftrightarrow> 0 < n \<and> (\<forall>v. R1 v (n - 1))"
  "spends anyEffect (kvPut key v ttl) R2 anyEnd n \<longleftrightarrow> 0 < n \<and> R2 () (n - 1)"
  "spends anyEffect dateNow R3 anyEnd n \<longleftrightarrow> 0 < n \<and> (\<forall>t. R3 t (n - 1))"
  "spends anyEffect mathRandom R4 anyEnd n \<longleftrightarrow> 0 < n \<and> (\<forall>x. R4 x (n - 1))"
  "spends anyEffect (getRandomValues m) R5 anyEnd n \<longleftrightarrow> 0 < n \<and> (\<forall>b. R5 b (n - 1))"
  "spends anyEffect (siteVerify sec tok ip) R6 anyEnd n \<longleftrightarrow> 0 < n \<and> (\<forall>j. R6 j (n - 1))"
  "spends anyEffect (assetsFetch req) R7 anyEnd n \<longleftrightarrow> 0 < n \<and> (\<forall>x. R7 x (n - 1))"
  by (auto simp: kvGet_def kvPut_def dateNow_def mathRandom_def getRandomValues_def siteVerify_def
      assetsFetch_def split: wm_resp.splits)

declare spends_bindP [spend_simps]

lemma spends_liftR_any [spend_simps]: "spends C (liftR v) R anyEnd n \<longleftrightarrow> (\<forall>x. v = Inr x \<longrightarrow> R x n)"
  by (simp add: spends_liftR split: sum.splits)

lemmas typed_reads = kvGetSession_def kvGetClaim_def kvGetFaucet_def kvGetText_def

lemma spends_getFaucetBalance:
  "(\<And>x m. n \<le> m + 2 \<Longrightarrow> R x m) \<Longrightarrow> 2 \<le> n \<Longrightarrow> spends anyEffect getFaucetBalance R anyEnd n"
  unfolding getFaucetBalance_def typed_reads
  by (auto simp: spend_simps Let_def split: option.splits kvval.splits)

lemma ends_startSession: "6 \<le> n \<Longrightarrow> ends (startSession env rlKey) n"
  unfolding startSession_def newId_def by (auto simp: spend_simps Let_def)

lemma ends_handleStart: "ends (handleStart env req) 9"
  unfolding handleStart_def Let_def typed_reads cooldownLeft_def verifyTurnstile_def
  by (auto simp: spend_simps intro!: ends_startSession split: option.splits kvval.splits)

lemma ends_handleGuess: "ends (handleGuess req) 9"
  unfolding handleGuess_def Let_def typed_reads recordGuess_def
  by (auto simp: spend_simps intro!: spends_getFaucetBalance split: option.splits kvval.splits)

lemma ends_handleClaim: "ends (handleClaim req) 9"
  unfolding handleClaim_def enqueueClaim_def newId_def Let_def typed_reads
  by (auto simp: spend_simps split: option.splits kvval.splits)

lemma ends_wm_fetch: "ends (wm_fetch env req) 9"
  unfolding wm_fetch_def route_def handleClaimStatus_def handleFaucet_def typed_reads
  using ends_handleStart ends_handleGuess ends_handleClaim
  by (auto simp: spend_simps intro!: spends_getFaucetBalance split: option.splits kvval.splits)

end
