(* ===== verification/Wordmine_Claim.thy ===== *)
theory Wordmine_Claim
  imports Wordmine_Race Wordmine_Bounds
begin

text \<open>
  What a granted claim and a winning guess leave in the store when no service fails: the claim
  that the payout daemon will read, the reward by the balance and the number of guesses, and the
  two claims that two interleaved requests leave for one win.
\<close>

declare u_simps [simp del]

section \<open>The claim that is stored\<close>

definition pendingClaim :: "ustring \<Rightarrow> rat \<Rightarrow> nat \<Rightarrow> claim" where
  "pendingClaim addr r t =
     \<lparr>claim_address = addr, amount = r, amount_atomic = mathFloor (jsMul r (10 ^ 12)),
      status = u ''pending'', created_at = t, tx_hash = None, claim_fee = None, claim_error = None\<rparr>"

definition claimIdOf :: "bytes \<Rightarrow> ustring" where
  "claimIdOf b = u ''c_'' @ hexOfBytes b"

lemma key_prefixes_differ [simp]:
  "u ''queue:'' @ x \<noteq> u ''claim:'' @ y" "u ''claim:'' @ y \<noteq> u ''queue:'' @ x"
  "u ''session:'' @ x \<noteq> u ''claim:'' @ y" "u ''claim:'' @ y \<noteq> u ''session:'' @ x"
  "u ''queue:'' @ x \<noteq> u ''session:'' @ y" "u ''session:'' @ y \<noteq> u ''queue:'' @ x"
  by (simp_all add: u_simps)

lemma claimIdOf_inject: "claimIdOf a = claimIdOf b \<longleftrightarrow> a = b"
  by (simp add: claimIdOf_def hexOfBytes_inject)

lemma kv_get_put:
  assumes "kv_laws out"
  shows "t \<le> t' \<Longrightarrow> t' < t + 1000 * ttl \<Longrightarrow> kvget out (kvput out s t k v ttl) t' k = Some v"
    and "k' \<noteq> k \<Longrightarrow> kvget out (kvput out s t k v ttl) t' k' = kvget out s t' k'"
  using assms by (auto simp: kv_laws_def)

text \<open>Small sums, as the counter of effects writes them.\<close>

lemma tick_sums:
  fixes n :: nat
  shows "n + 1 = Suc n"
    "n + 2 = Suc (Suc n)"
    "n + 3 = Suc (Suc (Suc n))"
    "n + 4 = Suc (Suc (Suc (Suc n)))"
    "n + 5 = Suc (Suc (Suc (Suc (Suc n))))"
    "n + 6 = Suc (Suc (Suc (Suc (Suc (Suc n)))))"
  by simp_all

text \<open>The rest of a claim, run alone: five effects after the session is written.\<close>

lemma run_claimRest_store:
  assumes "faultless out"
  shows "run (wm_handle out) (claimRest sid rec addr) w =
    (Inr (withSecurityHeaders (jsonResponse
        (JObj [(u ''claim_id'', JStr (claimIdOf (entropy out (tick w + 1) 16)))]) 200)),
     \<lparr>store = kvput out (kvput out (kvput out (store w) (clock out (tick w)) (u ''session:'' @ sid)
           (VSession (rec\<lparr>claimed := True\<rparr>)) 900)
         (clock out (tick w + 3)) (u ''claim:'' @ claimIdOf (entropy out (tick w + 1) 16))
           (VClaim (pendingClaim addr (reward rec) (clock out (tick w + 2)))) 86400)
       (clock out (tick w + 5)) (u ''queue:'' @ natToString (clock out (tick w + 4)) @ u '':'' @
           claimIdOf (entropy out (tick w + 1) 16)) (VText (claimIdOf (entropy out (tick w + 1) 16))) 86400,
      tick = tick w + 6\<rparr>)"
  using assms
  by (simp add: claimRest_def enqueueClaim_def newId_def run_simps faultless_def Let_def claimIdOf_def
      pendingClaim_def tick_sums)

lemma claimRest_kept:
  assumes "faultless out" "kv_laws out" "run (wm_handle out) (claimRest sid rec addr) w = (x, w')"
    "k \<noteq> claimIdOf (entropy out (tick w + 1) 16)"
  shows "kvget out (store w') t (u ''claim:'' @ k) = kvget out (store w) t (u ''claim:'' @ k)"
  using assms(3,4) kv_get_put(2) [OF assms(2)] unfolding run_claimRest_store [OF assms(1)] by auto

lemma claimRest_stores:
  assumes "faultless out" "kv_laws out" "run (wm_handle out) (claimRest sid rec addr) w = (x, w')"
    "clock out (tick w + 3) \<le> t" "t < clock out (tick w + 3) + 86400000"
  shows "kvget out (store w') t (u ''claim:'' @ claimIdOf (entropy out (tick w + 1) 16))
    = Some (VClaim (pendingClaim addr (reward rec) (clock out (tick w + 2))))"
  using assms(3-5) kv_get_put [OF assms(2)] unfolding run_claimRest_store [OF assms(1)] by auto

lemma claimRest_marks:
  assumes "faultless out" "kv_laws out" "run (wm_handle out) (claimRest sid rec addr) w = (x, w')"
    "clock out (tick w) \<le> t" "t < clock out (tick w) + 900000"
  shows "kvget out (store w') t (u ''session:'' @ sid) = Some (VSession (rec\<lparr>claimed := True\<rparr>))"
  using assms(3-5) kv_get_put [OF assms(2)] unfolding run_claimRest_store [OF assms(1)] by auto

text \<open>
  Two claims of one win, interleaved at their reads, leave two claims of the full reward, each
  with an identifier of its own, to the addresses of the two requests.
\<close>

lemma two_claims_stored:
  assumes "faultless out" "kv_laws out" "supply_laws out" "claimable sid r1" "claimable sid r2"
    "kvget out (store w) (clock out (tick w)) (u ''session:'' @ sid) = Some (VSession rec)"
    "kvget out (store w) (clock out (Suc (tick w))) (u ''session:'' @ sid) = Some (VSession rec)"
    "won rec" "\<not> claimed rec" "entropy out (tick w + 3) 16 \<noteq> entropy out (tick w + 9) 16"
    "clock out (tick w + 14) < clock out (tick w) + 86400000"
  shows "\<exists>x y w' i1 i2 t1 t2.
    (istep (wm_handle out))\<^sup>*\<^sup>* ([wm_fetch env r1, wm_fetch env r2], w) ([Ret x, Ret y], w') \<and>
    resp_status x = 200 \<and> resp_status y = 200 \<and> i1 \<noteq> i2 \<and>
    kvget out (store w') (clock out (tick w')) (u ''claim:'' @ i1)
      = Some (VClaim (pendingClaim (claimAddress r1) (reward rec) t1)) \<and>
    kvget out (store w') (clock out (tick w')) (u ''claim:'' @ i2)
      = Some (VClaim (pendingClaim (claimAddress r2) (reward rec) t2))"
proof -
  let ?key = "u ''session:'' @ sid" and ?h = "wm_handle out"
  let ?p2 = "wm_fetch env r2" and ?c1 = "claimRest sid rec (claimAddress r1)"
    and ?c2 = "claimRest sid rec (claimAddress r2)"
  obtain k1 where 1: "wm_fetch env r1 = Eff (KvGet ?key) k1" "k1 (RKv (Some (VSession rec))) = ?c1"
    using claim_shape [OF assms(4,8,9)] by blast
  obtain k2 where 2: "?p2 = Eff (KvGet ?key) k2" "k2 (RKv (Some (VSession rec))) = ?c2"
    using claim_shape [OF assms(5,8,9)] by blast
  let ?w1 = "w\<lparr>tick := Suc (tick w)\<rparr>" and ?w2 = "w\<lparr>tick := tick w + 2\<rparr>"
  have g: "?h (KvGet ?key) w = (RKv (Some (VSession rec)), ?w1)"
    "?h (KvGet ?key) ?w1 = (RKv (Some (VSession rec)), ?w2)"
    using assms(1,6,7) by (simp_all add: wm_remote_def faultless_def)
  obtain x w3 where x: "run ?h ?c1 ?w2 = (Inr x, w3)" "resp_status x = 200" "tick w3 = tick w + 8"
    using run_claimRest_store [OF assms(1), of sid rec "claimAddress r1" ?w2] by simp
  obtain y w4 where y: "run ?h ?c2 w3 = (Inr y, w4)" "resp_status y = 200" "tick w4 = tick w + 14"
    using run_claimRest_store [OF assms(1), of sid rec "claimAddress r2" w3] x(3) by simp
  have steps: "(istep ?h)\<^sup>*\<^sup>* ([wm_fetch env r1, ?p2], w) ([Ret x, Ret y], w4)"
    using read_read_run_run [of _ _ _ ?h, OF 1(1) g(1) 2(1) g(2), unfolded 1(2) 2(2), OF x(1) y(1)]
    unfolding liftR_simps .
  let ?i1 = "claimIdOf (entropy out (tick w + 3) 16)" and ?i2 = "claimIdOf (entropy out (tick w + 9) 16)"
  note mono = clock_mono [OF assms(3)]
  have n1: "tick ?w2 + 1 = tick w + 3" "tick ?w2 + 3 = tick w + 5" by simp_all
  have n2: "tick w3 + 1 = tick w + 9" "tick w3 + 3 = tick w + 11" using x(3) by simp_all
  have "\<exists>t. kvget out (store w3) (clock out (tick w4)) (u ''claim:'' @ ?i1)
      = Some (VClaim (pendingClaim (claimAddress r1) (reward rec) t))"
    using claimRest_stores [OF assms(1,2) x(1), of "clock out (tick w4)", unfolded n1] y(3) assms(11)
      mono [of "tick w + 5" "tick w + 14"] mono [of "tick w" "tick w + 5"] by auto
  then have c1: "\<exists>t. kvget out (store w4) (clock out (tick w4)) (u ''claim:'' @ ?i1)
      = Some (VClaim (pendingClaim (claimAddress r1) (reward rec) t))"
    using claimRest_kept [OF assms(1,2) y(1), of ?i1, unfolded n2] assms(10) by (simp add: claimIdOf_inject)
  have c2: "\<exists>t. kvget out (store w4) (clock out (tick w4)) (u ''claim:'' @ ?i2)
      = Some (VClaim (pendingClaim (claimAddress r2) (reward rec) t))"
    using claimRest_stores [OF assms(1,2) y(1), of "clock out (tick w4)", unfolded n2] y(3) assms(11)
      mono [of "tick w + 11" "tick w + 14"] mono [of "tick w" "tick w + 11"] by auto
  have "?i1 \<noteq> ?i2" using assms(10) by (simp add: claimIdOf_inject)
  then show ?thesis using steps x(2) y(2) c1 c2 by blast
qed

section \<open>The reward of a win\<close>

lemma run_getFaucetBalance:
  assumes "faultless out"
    "kvget out (store w) (clock out (tick w)) (u ''faucet:balance'') = Some (VFaucet f)" "unlocked f = Some un"
  shows "\<exists>b. run (wm_handle out) getFaucetBalance w =
    (Inr (b, if int (clock out (tick w + 1)) - faucet_at f > 600000 then 0 else un), w\<lparr>tick := tick w + 2\<rparr>)"
  using assms by (simp add: getFaucetBalance_def kvGetFaucet_def run_simps faultless_def Let_def)

lemma gradedSession_word:
  "length (word rec) = 5 \<Longrightarrow>
     gradedSession rec (word rec) = rec\<lparr>guess_count := guess_count rec + 1, won := True, lost := False\<rparr>"
  using grade_all_green [of "word rec" "word rec"] by (simp add: gradedSession_def Let_def)

lemma winning_guess:
  assumes "faultless out" "kv_laws out" "guessable sid (word rec) req"
    "kvget out (store w) (clock out (tick w)) (u ''session:'' @ sid) = Some (VSession rec)" "\<not> won rec" "\<not> lost rec"
    "kvget out (store w) (clock out (tick w + 1)) (u ''faucet:balance'') = Some (VFaucet f)" "unlocked f = Some un"
  shows "\<exists>resp w'. run (wm_handle out) (wm_fetch env req) w = (Inr resp, w') \<and> resp_status resp = 200 \<and>
    tick w' = tick w + 4 \<and>
    kvget out (store w') (clock out (tick w + 3)) (u ''session:'' @ sid)
      = Some (VSession (rec\<lparr>guess_count := guess_count rec + 1, won := True, lost := False,
          reward := jsDiv (maxReward (if int (clock out (tick w + 2)) - faucet_at f > 600000 then 0 else un))
            (of_nat (guess_count rec + 1))\<rparr>))"
proof -
  obtain k tok where k: "wm_fetch env req = Eff (KvGet (u ''session:'' @ sid)) k"
      "k (RKv (Some (VSession rec))) = guessRest tok sid rec (word rec)"
    by (rule wm_fetch_guess_shape [OF assms(3,5,6)])
  have len: "length (word rec) = 5" using assms(3) by (simp add: guessable_def guessPattern_def)
  define avail where "avail = (if int (clock out (tick w + 2)) - faucet_at f > 600000 then 0 else un)"
  let ?w1 = "w\<lparr>tick := Suc (tick w)\<rparr>"
  obtain b where b: "run (wm_handle out) getFaucetBalance ?w1 = (Inr (b, avail), w\<lparr>tick := tick w + 3\<rparr>)"
    using run_getFaucetBalance [of out ?w1 f un] assms(1,7,8) by (auto simp: avail_def)
  have "run (wm_handle out) (wm_fetch env req) w = run (wm_handle out) (guessRest tok sid rec (word rec)) ?w1"
    using assms(1,4) k by (simp add: wm_remote_def faultless_def)
  moreover have "fault out n = None" for n using assms(1) by (simp add: faultless_def)
  ultimately show ?thesis
    using len kv_get_put(1) [OF assms(2)] unfolding avail_def [symmetric]
    by (simp add: guessRest_def recordGuess_def gradedSession_word b run_simps Let_def sessionTtl_def)
qed

end
