(* ===== verification/Wordmine_Start.thy ===== *)
theory Wordmine_Start
  imports Wordmine_Game
begin

text \<open>
  Starting a game: the cooldown of an address, the captcha, and what the responses reveal of the
  word. After a granted start every later start from the address is refused for an hour, under
  every interleaving of other requests; without a configured captcha secret no game starts; and
  until the game ends the responses depend on the word through the marks only.
\<close>

section \<open>Whole seconds\<close>

text \<open>The rounded quotient by 1000 has the floor of the exact one.\<close>

lemma floor_div_1000:
  assumes "0 \<le> d" "d < 2 ^ 40"
  shows "mathFloor (jsDiv (of_int d) 1000) = d div 1000"
proof -
  let ?q = "d div 1000" and ?m = "1024 * (d div 1000 + 1) - 1"
  have q: "0 \<le> ?q" "?q < 2 ^ 40" using assms by (simp_all add: pos_imp_zdiv_nonneg_iff)
  have "of_int ?q \<le> (of_int d / 1000 :: rat)"
  proof -
    have "?q * 1000 \<le> d" by simp
    then have "(of_int (?q * 1000) :: rat) \<le> of_int d" by (simp only: of_int_le_iff)
    then show ?thesis by simp
  qed
  then have lo: "of_int ?q \<le> fl (of_int d / 1000)" using q by (intro double.rnd_ge_int) simp_all
  have fixed: "fl (of_int ?m * 2 powi (- 10)) = of_int ?m * 2 powi (- 10)"
    using q flPos_grid [of ?m "- 10"] by (simp add: fl_def)
  have "(of_int d / 1000 :: rat) \<le> of_int ?m * 2 powi (- 10)"
  proof -
    have "1000 * ?q + 999 \<ge> d" by simp
    then have "1024 * d \<le> 1024 * (1000 * ?q + 999)" by simp
    then have "1024 * d \<le> 1000 * ?m" using q by simp
    then have "(of_int (1024 * d) :: rat) \<le> of_int (1000 * ?m)" by (simp only: of_int_le_iff)
    then show ?thesis by (simp add: power_int_minus)
  qed
  then have "fl (of_int d / 1000) \<le> of_int ?m * 2 powi (- 10)"
    using fixed by (rule double.rnd_le_fixed)
  also have "\<dots> < of_int (?q + 1)" by (simp add: power_int_minus)
  finally show ?thesis using lo by (simp add: mathFloor_def jsDiv_def floor_eq_iff)
qed

section \<open>Cooldown\<close>

definition startFrom :: "ustring \<Rightarrow> request \<Rightarrow> bool" where
  "startFrom ip req \<longleftrightarrow>
     pathname req = u ''/api/start'' \<and> req_method req = u ''POST'' \<and> clientIp req = ip"

lemma route_start: "startFrom ip req \<Longrightarrow> route env req = handleStart env req"
  by (simp add: route_def startFrom_def)

definition cooldownBody :: "int \<Rightarrow> json" where
  "cooldownBody left = JObj [(u ''error'', JStr (u ''cooldown'')), (u ''retry_after_seconds'', jsInt left)]"

lemma run_cooldownLeft:
  "run (wm_handle out) (cooldownLeft (Some (natToString t0))) w =
     (Inr (max 0 (3600 - mathFloor (jsDiv (of_int (int (clock out (tick w)) - int t0)) 1000))),
      w\<lparr>tick := Suc (tick w)\<rparr>)"
  using natToRadix_digits [of 10 t0] by (simp add: cooldownLeft_def run_simps parseInt_natToString)

text \<open>The refusal: the status, the exact number of seconds left, and no change of the store.\<close>

lemma handleStart_refused:
  assumes "\<not> rateLimitOff env" "fault out (tick w) = None" "clientIp req = ip"
    "kvget out (store w) (clock out (tick w)) (u ''ratelimit:'' @ ip) = Some (VText (natToString t0))"
    "t0 \<le> clock out (Suc (tick w))" "clock out (Suc (tick w)) < t0 + 3600000"
  shows "run (wm_handle out) (handleStart env req) w =
    (Inr (jsonResponse (cooldownBody (3600 - (int (clock out (Suc (tick w))) - int t0) div 1000)) 429),
     w\<lparr>tick := Suc (Suc (tick w))\<rparr>)"
proof -
  let ?d = "int (clock out (Suc (tick w))) - int t0"
  have "mathFloor (jsDiv (of_int ?d) 1000) = ?d div 1000" using assms(5,6) by (intro floor_div_1000) simp_all
  moreover have "?d div 1000 < 3600" using assms(6) by simp
  ultimately show ?thesis
    using assms
    by (simp add: handleStart_def kvGetText_def run_simps run_cooldownLeft Let_def cooldownBody_def)
qed

text \<open>
  The invariant of a cooldown that began at \<open>t0\<close>: until an hour has passed, the entry of the
  address holds a time that is not before \<open>t0\<close>.
\<close>

definition coolingAt :: "'s outside \<Rightarrow> ustring \<Rightarrow> nat \<Rightarrow> 's world \<Rightarrow> bool" where
  "coolingAt out ip t0 w \<longleftrightarrow>
     wm_inv out anySession (\<lambda>i. True) (\<lambda>t. t0 \<le> t) w \<and>
     (\<forall>t \<ge> clock out (tick w). t < t0 + 3600000 \<longrightarrow>
        (\<exists>t1 \<ge> t0. kvget out (store w) t (u ''ratelimit:'' @ ip) = Some (VText (natToString t1))))"

interpretation cooling: rely_guarantee "wm_handle out" "coolingAt out ip t0"
    "putOk anySession (\<lambda>t. t0 \<le> t)" "respOk anySession (\<lambda>i. True) (\<lambda>t. t0 \<le> t)"
  for out :: "'s outside" and ip t0
proof
  fix w w' :: "'s world" and e r
  assume inv: "coolingAt out ip t0 w" and h: "wm_handle out e w = (r, w')"
  then have wi: "wm_inv out anySession (\<lambda>i. True) (\<lambda>t. t0 \<le> t) w" by (simp add: coolingAt_def)
  show "respOk anySession (\<lambda>i. True) (\<lambda>t. t0 \<le> t) e r" using wm.rely [OF wi h] .
  assume p: "putOk anySession (\<lambda>t. t0 \<le> t) e"
  have wi': "wm_inv out anySession (\<lambda>i. True) (\<lambda>t. t0 \<le> t) w'" using wm.keep [OF wi p h] .
  let ?k = "u ''ratelimit:'' @ ip"
  have laws: "kv_laws out" "supply_laws out" "t0 \<le> clock out (tick w)"
    using wi by (auto simp: wm_inv_def)
  have tick: "tick w' = Suc (tick w)" using h by (cases e) auto
  have entry: "\<exists>t1 \<ge> t0. kvget out (store w') t ?k = Some (VText (natToString t1))"
    if t: "clock out (tick w') \<le> t" "t < t0 + 3600000" for t
  proof -
    have now: "clock out (tick w) \<le> t"
      using t(1) tick clock_mono [OF laws(2), of "tick w" "Suc (tick w)"] by simp
    then have old: "\<exists>t1 \<ge> t0. kvget out (store w) t ?k = Some (VText (natToString t1))"
      using inv t(2) by (simp add: coolingAt_def)
    show ?thesis
    proof (cases e)
      case (KvPut k v ttl)
      show ?thesis
      proof (cases "fault out (tick w) = None \<and> k = ?k")
        case True
        then have st: "store w' = kvput out (store w) (clock out (tick w)) ?k v ttl"
          using h KvPut by auto
        have v: "ttl = 3600" "\<exists>t1. v = VText (natToString t1) \<and> t0 \<le> t1"
          using p KvPut True by (simp_all add: putOk_def)
        have "kvget out (store w') t ?k = Some v"
          using laws now t(2) v(1) unfolding st by (simp add: kv_laws_def)
        then show ?thesis using v(2) by auto
      next
        case False
        then have "kvget out (store w') t ?k = kvget out (store w) t ?k"
          using h KvPut laws(1) by (auto simp: kv_laws_def)
        then show ?thesis using old by simp
      qed
    qed (use h old in auto)
  qed
  then show "coolingAt out ip t0 w'" using wi' by (simp add: coolingAt_def)
qed

lemma floor_div_less:
  assumes "d < 3600000"
  shows "mathFloor (jsDiv (of_int d) 1000) < 3600"
proof (cases "0 \<le> d")
  case True
  then show ?thesis using assms floor_div_1000 [of d] by simp
next
  case False
  then have "fl (of_int d / 1000) \<le> of_int 0" by (intro double.rnd_le_int) simp_all
  then show ?thesis by (simp add: mathFloor_def jsDiv_def floor_less_iff)
qed

lemma cooling_refused:
  assumes "coolingAt out ip t0 w" "\<not> rateLimitOff env" "fault out (tick w) = None" "startFrom ip req"
    "clock out (Suc (tick w)) < t0 + 3600000"
  shows "\<exists>x w'. run (wm_handle out) (wm_fetch env req) w = (Inr x, w') \<and> resp_status x = 429 \<and>
    store w' = store w"
proof -
  have "supply_laws out" using assms(1) by (simp add: coolingAt_def wm_inv_def)
  then have "clock out (tick w) < t0 + 3600000"
    using clock_mono [of out "tick w" "Suc (tick w)"] assms(5) by simp
  then obtain t1 where t1: "t0 \<le> t1"
      "kvget out (store w) (clock out (tick w)) (u ''ratelimit:'' @ ip) = Some (VText (natToString t1))"
    using assms(1) unfolding coolingAt_def by blast
  let ?d = "int (clock out (Suc (tick w))) - int t1"
  have "mathFloor (jsDiv (of_int ?d) 1000) < 3600" using t1(1) assms(5) by (intro floor_div_less) simp
  moreover have "clientIp req = ip" using assms(4) by (simp add: startFrom_def)
  ultimately show ?thesis
    using t1 assms(2,3)
    by (simp add: wm_fetch_def route_start [OF assms(4)] handleStart_def kvGetText_def run_simps
        run_cooldownLeft Let_def)
qed

text \<open>A granted start begins a cooldown at a time that it read.\<close>

lemma run_verifyTurnstile_store:
  "run (wm_handle out) (verifyTurnstile tok sec ip) w = (x, w') \<Longrightarrow> store w' = store w \<and> tick w \<le> tick w'"
  unfolding verifyTurnstile_def siteVerify_def
  by (auto simp: run_simps wm_remote_def split: option.splits if_splits sum.splits)

lemma run_startSession:
  assumes "run (wm_handle out) (startSession env rlKey) w = (Inr resp, w')" "\<not> rateLimitOff env"
  obtains sid s n where "tick w \<le> n" "resp = jsonResponse (JObj [(u ''session'', JStr sid)]) 200"
    "store w' = kvput out (kvput out (store w) (clock out n) (u ''session:'' @ sid) (VSession s) 1800)
       (clock out (n + 2)) rlKey (VText (natToString (clock out (n + 1)))) 3600"
    "tick w' = n + 3"
proof -
  have f: "fault out (tick w + 3) = None" "fault out (tick w + 5) = None"
    using assms by (auto simp: startSession_def newId_def run_simps Let_def eval_nat_numeral split: option.splits)
  show thesis
    using assms f
    by (intro that [of "tick w + 3" "u ''s_'' @ hexOfBytes (entropy out (Suc (tick w)) 16)"
          "newSession (pickWord (random out (tick w))) (clock out (tick w + 2))"])
      (auto simp: startSession_def newId_def run_simps Let_def eval_nat_numeral)
qed

lemma granted_start:
  assumes "run (wm_handle out) (handleStart env req) w = (Inr resp, w')" "resp_status resp = 200"
  obtains w1 where "store w1 = store w" "tick w \<le> tick w1"
    "run (wm_handle out) (startSession env (u ''ratelimit:'' @ clientIp req)) w1 = (Inr resp, w')"
proof -
  note result = that
  let ?key = "u ''ratelimit:'' @ clientIp req"
  let ?rest = "\<lambda>remaining.
      if remaining > 0
      then Ret (jsonResponse (JObj [(u ''error'', JStr (u ''cooldown'')),
             (u ''retry_after_seconds'', jsInt remaining)]) 429)
      else bindP (liftR (getProp (bodyOf req) (u ''captcha''))) (\<lambda>captcha.
           bindP (verifyTurnstile captcha (TURNSTILE_SECRET env) (clientIp req)) (\<lambda>ok.
           if \<not> ok then Ret (errResponse (u ''captcha_failed'') 403)
           else startSession env ?key))"
  have tail: thesis if t: "run (wm_handle out) (?rest r) v = (Inr resp, w')"
      and v: "store v = store w" "tick w \<le> tick v" for r v
  proof -
    have "\<not> r > 0" using t assms(2) by (auto split: if_splits)
    then obtain captcha ok v' where vt:
        "run (wm_handle out) (verifyTurnstile captcha (TURNSTILE_SECRET env) (clientIp req)) v = (Inr ok, v')"
      and "run (wm_handle out) (if \<not> ok then Ret (errResponse (u ''captcha_failed'') 403)
           else startSession env ?key) v' = (Inr resp, w')"
      using t by (auto simp: run_simps split: sum.splits prod.splits)
    then have "run (wm_handle out) (startSession env ?key) v' = (Inr resp, w')"
      using assms(2) by (auto split: if_splits)
    moreover have "store v' = store w" "tick w \<le> tick v'"
      using run_verifyTurnstile_store [OF vt] v by simp_all
    ultimately show thesis using result by blast
  qed
  obtain taken v where v: "run (wm_handle out)
      (if rateLimitOff env then Ret None else kvGetText ?key) w = (Inr taken, v)"
    and v_rest: "run (wm_handle out) (bindP (cooldownLeft taken) ?rest) v = (Inr resp, w')"
    using assms(1) by (auto simp: handleStart_def Let_def run_bindP split: sum.splits prod.splits)
  have keep_v: "store v = store w" "tick w \<le> tick v"
    using v by (auto simp: kvGetText_def run_simps split: if_splits option.splits kvval.splits)
  obtain r v' where r: "run (wm_handle out) (cooldownLeft taken) v = (Inr r, v')"
    and r_rest: "run (wm_handle out) (?rest r) v' = (Inr resp, w')"
    using v_rest by (auto simp: run_bindP split: sum.splits prod.splits)
  have "store v' = store v" "tick v \<le> tick v'"
    using r by (auto simp: cooldownLeft_def run_simps split: option.splits if_splits)
  then show thesis using tail [OF r_rest] keep_v by simp
qed

lemma granted_start_cools:
  assumes "wm_inv out anySession (\<lambda>i. True) (\<lambda>t. True) w" "startFrom ip req" "\<not> rateLimitOff env"
    "run (wm_handle out) (wm_fetch env req) w = (Inr resp, w')" "resp_status resp = 200"
  shows "\<exists>t0. clock out (tick w) \<le> t0 \<and> t0 \<le> clock out (tick w') \<and> coolingAt out ip t0 w'"
proof -
  from assms(4) obtain r where r: "run (wm_handle out) (handleStart env req) w = (Inr r, w')"
    and r200: "resp_status r = 200"
    unfolding wm_fetch_def route_start [OF assms(2)] run_bindP using assms(5)
    by (auto split: sum.splits prod.splits)
  have ip: "clientIp req = ip" using assms(2) by (simp add: startFrom_def)
  obtain w1 where w1: "store w1 = store w" "tick w \<le> tick w1"
      "run (wm_handle out) (startSession env (u ''ratelimit:'' @ ip)) w1 = (Inr r, w')"
    using granted_start [OF r r200] ip by metis
  obtain sid ses n where n: "tick w1 \<le> n" "tick w' = n + 3"
      "store w' = kvput out (kvput out (store w1) (clock out n) (u ''session:'' @ sid) (VSession ses) 1800)
         (clock out (n + 2)) (u ''ratelimit:'' @ ip) (VText (natToString (clock out (n + 1)))) 3600"
    by (rule run_startSession [OF w1(3) assms(3)]) blast
  have laws: "kv_laws out" "supply_laws out" using assms(1) by (simp_all add: wm_inv_def)
  note mono = clock_mono [OF laws(2)]
  let ?t0 = "clock out (n + 1)"
  have "wm_inv out anySession (\<lambda>i. True) (\<lambda>t. True) w'"
    using wm.run_keeps [OF anyp.guards_wm_fetch assms(1,4)] by blast
  then have inv: "wm_inv out anySession (\<lambda>i. True) (\<lambda>t. ?t0 \<le> t) w'"
    using mono [of "n + 1"] n(2) by (auto simp: wm_inv_def)
  have "kvget out (store w') t (u ''ratelimit:'' @ ip) = Some (VText (natToString ?t0))"
    if "clock out (tick w') \<le> t" "t < ?t0 + 3600000" for t
    using that laws(1) mono [of "n + 2" "n + 3"] mono [of "n + 1" "n + 2"] n(2)
    unfolding n(3) by (simp add: kv_laws_def)
  then have "coolingAt out ip ?t0 w'" using inv by (auto simp: coolingAt_def)
  then show ?thesis using mono [of "tick w" "n + 1"] mono [of "n + 1" "n + 3"] n(1,2) w1(2) by auto
qed

section \<open>Captcha\<close>

text \<open>Without a secret, or with a failing captcha, no game starts and nothing is written.\<close>

lemma start_needs_secret:
  assumes "TURNSTILE_SECRET env = None \<or> TURNSTILE_SECRET env = Some []"
    "run (wm_handle out) (handleStart env req) w = (Inr resp, w')"
  shows "resp_status resp = 429 \<or> resp_status resp = 403" "store w' = store w"
proof -
  have vt: "verifyTurnstile tok (TURNSTILE_SECRET env) ip = Ret False" for tok ip
    using assms(1) by (auto simp: verifyTurnstile_def u_simps)
  show "resp_status resp = 429 \<or> resp_status resp = 403" "store w' = store w"
    using assms(2)
    by (auto simp: handleStart_def Let_def kvGetText_def cooldownLeft_def run_simps vt
        split: if_splits sum.splits prod.splits option.splits kvval.splits)
qed

section \<open>What the responses reveal\<close>

text \<open>
  The response to a start does not depend on the word, and the response to a guess that does not
  lose the game depends on it through the marks only.
\<close>

lemma start_hides_word:
  "fst (run (wm_handle (out\<lparr>random := f\<rparr>)) (startSession env rlKey) w)
     = fst (run (wm_handle out) (startSession env rlKey) w)"
  by (simp add: startSession_def newId_def run_simps Let_def split: option.splits)

lemma run_getFaucetBalance_Inr:
  "run (wm_handle out) getFaucetBalance w = (x, w') \<Longrightarrow> store w' = store w"
  using run_getFaucetBalance_store by blast

lemma guess_hides_word:
  assumes "grade g (word s) = grade g x" "\<not> lost (gradedSession s g)"
  shows "fst (run (wm_handle out) (recordGuess tok key (s\<lparr>word := x\<rparr>) g) w)
    = fst (run (wm_handle out) (recordGuess tok key s g) w)"
proof -
  have g: "gradedSession (s\<lparr>word := x\<rparr>) g = (gradedSession s g)\<lparr>word := x\<rparr>"
    using assms(1) by (simp add: gradedSession_def Let_def)
  show ?thesis
    using assms
    by (auto simp: recordGuess_def g run_simps Let_def guessBody_def sessionTtl_def
        split: option.splits sum.splits prod.splits)
qed

end
