(* ===== verification/Instances.thy ===== *)
theory Instances
  imports Cli_Wallet Wordmine_Claim Wordmine_Start
begin

text \<open>
  Concrete services at which the hypotheses of the properties hold: a hash and a curve
  multiplication with the documented types for the wallet, and for the worker a key-value store
  in memory with expiry times, a clock that advances by a millisecond with every effect, and
  random source of numbers that is constant.
\<close>

section \<open>The wallet\<close>

definition demo_bytes :: bytes where
  "demo_bytes = 1 # replicate 31 0"

definition demo_keccak :: "bytes \<Rightarrow> bytes" where
  "demo_keccak x = demo_bytes"

definition demo_multiply :: "int \<Rightarrow> bytes res" where
  "demo_multiply s = (if 0 < s \<and> s < L then Inr demo_bytes else Inl (Error []))"

definition demo_reduce :: "bytes \<Rightarrow> bytes" where
  "demo_reduce b = bigIntToBytesLE (bytesToBigIntLE b mod L) 32"

lemma demo_value: "bytesToBigIntLE demo_bytes = 1" "length demo_bytes = 32"
  by (simp_all add: demo_bytes_def numeral_eq_Suc)

lemma demo_mod: "bytesToBigIntLE demo_bytes mod L = 1"
  by (simp add: demo_value L_def)

lemma demo_libraries: "keccak_length demo_keccak" "multiply_range demo_multiply"
  by (simp_all add: keccak_length_def multiply_range_def demo_keccak_def demo_multiply_def demo_value)

lemma demo_cli: "cli_primitives demo_multiply demo_reduce (\<lambda>b. demo_bytes)" "is_crc32 crc_bytes"
  by (auto simp: cli_primitives_def demo_multiply_def demo_reduce_def scReduce32_def is_crc32_def
      split: if_splits)

lemma demo_wallet: "\<exists>w. generateWallet demo_keccak demo_multiply demo_bytes = Inr w"
  by (rule generateWallet_ok [OF demo_libraries demo_value(2)]) (auto simp: demo_keccak_def demo_mod)

declare u_simps [simp del]

section \<open>The services of the worker\<close>

type_synonym memory = "ustring \<Rightarrow> (kvval \<times> nat) option"

definition mem_get :: "memory \<Rightarrow> nat \<Rightarrow> ustring \<Rightarrow> kvval option" where
  "mem_get s t k = (case s k of None \<Rightarrow> None | Some (v, e) \<Rightarrow> if t < e then Some v else None)"

definition mem_put :: "memory \<Rightarrow> nat \<Rightarrow> ustring \<Rightarrow> kvval \<Rightarrow> nat \<Rightarrow> memory" where
  "mem_put s t k v ttl = s(k \<mapsto> (v, t + 1000 * ttl))"

definition demo_out :: "memory outside" where
  "demo_out =
     \<lparr>kvget = mem_get, kvput = mem_put, clock = (\<lambda>n. n), random = (\<lambda>n. 0),
      entropy = (\<lambda>n len. replicate len (of_nat n)), fault = (\<lambda>n. None),
      siteverify = (\<lambda>sec tok ip. Inr (JObj [(u ''success'', JBool True)])),
      assets = (\<lambda>req. Inl NetworkError)\<rparr>"

lemma demo_laws: "kv_laws demo_out" "supply_laws demo_out" "faultless demo_out"
  by (auto simp: kv_laws_def supply_laws_def faultless_def demo_out_def mem_get_def mem_put_def mono_def)

definition demo_env :: wm_env where
  "demo_env = \<lparr>DISABLE_RATELIMIT = None, TURNSTILE_SECRET = Some (u ''TEST''), FAUCET_ADDRESS = None\<rparr>"

definition demo_sid :: ustring where
  "demo_sid = u ''s_demo''"

lemma demo_fresh: "sessionId (entropy demo_out n 16) \<noteq> demo_sid"
proof
  assume "sessionId (entropy demo_out n 16) = demo_sid"
  then have "length (sessionId (entropy demo_out n 16)) = length demo_sid" by simp
  then show False by (simp add: sessionId_def demo_out_def demo_sid_def length_hexOfBytes)
qed

definition demo_open :: session where
  "demo_open = newSession (u ''ABOUT'') 0"

definition demo_won :: session where
  "demo_won = demo_open\<lparr>guess_count := 1, won := True\<rparr>"

definition demo_world :: "session \<Rightarrow> memory world" where
  "demo_world s = \<lparr>store = [u ''session:'' @ demo_sid \<mapsto> (VSession s, 1800000)], tick = 0\<rparr>"

lemma demo_sessions: "session_ok demo_open" "session_ok demo_won"
proof -
  have "u ''ABOUT'' \<in> set WORDS" by (simp add: WORDS_def WORDS_1_def)
  then show "session_ok demo_open" "session_ok demo_won"
    by (simp_all add: session_ok_def demo_open_def demo_won_def)
qed

lemma demo_store:
  "session_ok s \<Longrightarrow> F demo_sid s \<Longrightarrow> store_ok demo_out F (store (demo_world s)) t"
  by (auto simp: store_ok_def demo_world_def demo_out_def mem_get_def split: if_splits)

lemma demo_inv:
  assumes "session_ok s" "F demo_sid s" "\<forall>i. i \<noteq> demo_sid \<longrightarrow> N i" "\<forall>t. T t"
  shows "wm_inv demo_out F N T (demo_world s)"
  using assms demo_laws demo_fresh by (simp add: wm_inv_def demo_store)

lemma demo_reads:
  "n < 1800000 \<Longrightarrow> kvget demo_out (store (demo_world s)) (clock demo_out n) (u ''session:'' @ demo_sid)
     = Some (VSession s)"
  by (simp add: demo_out_def demo_world_def mem_get_def)

definition demo_address :: ustring where
  "demo_address = u ''R'' @ replicate 96 49"

definition demo_post :: "string \<Rightarrow> json \<Rightarrow> request" where
  "demo_post path b =
     \<lparr>req_method = u ''POST'', pathname = u path, searchParams = [], req_headers = [], req_json = Inr b\<rparr>"

definition demo_claim :: request where
  "demo_claim = demo_post ''/api/claim''
     (JObj [(u ''token'', JStr demo_sid), (u ''address'', JStr demo_address)])"

definition demo_guess :: "string \<Rightarrow> request" where
  "demo_guess g = demo_post ''/api/guess'' (JObj [(u ''session'', JStr demo_sid), (u ''guess'', JStr (u g))])"

definition demo_start :: request where
  "demo_start = demo_post ''/api/start'' (JObj [])"

lemma demo_address_pattern: "addressPattern (trim demo_address)"
proof -
  have "trim demo_address = demo_address"
    by (rule trim_idem) (simp_all add: demo_address_def u_simps isJsSpace_def)
  then show ?thesis by (simp add: addressPattern_def demo_address_def u_simps isBase58Char_def)
qed

lemma demo_claimable: "claimable demo_sid demo_claim"
  using demo_address_pattern
  by (simp add: claimable_def claimsFor_def names_def demo_claim_def demo_post_def bodyOf_def demo_sid_def
      stringOrEmpty_def demo_address_def u_simps)

lemma demo_guessable:
  assumes "guessPattern (u g)" "toUpperCase (u g) = u g"
  shows "guessable demo_sid (u g) (demo_guess g)"
  using assms
  by (auto simp: guessable_def guessesFor_def names_def demo_guess_def demo_post_def bodyOf_def demo_sid_def
      stringOrEmpty_def guessPattern_def u_simps)

end
