(* ===== verification/Wordmine_Props.thy ===== *)
theory Wordmine_Props
  imports Instances
begin

text \<open>
  The properties of the faucet: its store under interleaved requests, claims, guesses, rewards,
  cooldown, captcha and secrecy of the word. Each is stated over the model of the worker and
  rests on the lemmas of the component theories; the witnesses use the services in memory of
  \<open>Instances\<close>.
\<close>

section \<open>Store\<close>

text \<open>
  C7. Under every interleaving of requests at their awaits, and whatever fails, the store stays well
  formed: each key holds a value of the kind its prefix says, sessions have consistent counters
  and flags, claims have a well-formed address and at most one coin. Every response that is sent
  carries all security headers.
\<close>

theorem interleaved_requests_keep_store:
  assumes "kv_laws out" "supply_laws out" "store_ok out anySession (store w) (clock out (tick w))"
    "(istep (wm_handle out))\<^sup>*\<^sup>* (map (wm_fetch env) reqs, w) (qs, w')"
  shows "store_ok out anySession (store w') (clock out (tick w')) \<and>
    (\<forall>resp. Ret resp \<in> set qs \<longrightarrow> hasSecurityHeaders resp)"
proof -
  have inv: "wm_inv out anySession (\<lambda>i. True) (\<lambda>t. True) w" using assms(1-3) by (simp add: wm_inv_def)
  have progs: "\<forall>i < length (map (wm_fetch env) reqs).
      guards (putOk anySession (\<lambda>t. True)) (respOk anySession (\<lambda>i. True) (\<lambda>t. True)) hasSecurityHeaders
        (map (wm_fetch env) reqs ! i)"
    using anyp.guards_wm_fetch by simp
  note keep = wm.isteps_keep [OF assms(4) inv progs]
  have "hasSecurityHeaders resp" if resp: "Ret resp \<in> set qs" for resp
  proof -
    obtain i where "i < length qs" "qs ! i = Ret resp" using resp by (auto simp: in_set_conv_nth)
    then show ?thesis using keep by (metis guards.simps(1))
  qed
  then show ?thesis using keep by (auto simp: wm_inv_def)
qed

theorem interleaved_requests_keep_store_witness:
  "\<exists>qs w'. (istep (wm_handle demo_out))\<^sup>*\<^sup>* (map (wm_fetch demo_env) [demo_claim, demo_claim], demo_world demo_won) (qs, w') \<and>
    store_ok demo_out anySession (store w') (clock demo_out (tick w')) \<and>
    (\<forall>resp. Ret resp \<in> set qs \<longrightarrow> hasSecurityHeaders resp)"
proof -
  let ?c = "schedule (wm_handle demo_out) [0, 1, 0, 1] (map (wm_fetch demo_env) [demo_claim, demo_claim], demo_world demo_won)"
  obtain qs w' where c: "?c = (qs, w')" by force
  have steps: "(istep (wm_handle demo_out))\<^sup>*\<^sup>* (map (wm_fetch demo_env) [demo_claim, demo_claim], demo_world demo_won) (qs, w')"
    using istep_schedule [of "wm_handle demo_out"] unfolding c [symmetric] .
  have "store_ok demo_out anySession (store (demo_world demo_won)) (clock demo_out (tick (demo_world demo_won)))"
    by (rule demo_store) (simp_all add: demo_sessions anySession_def)
  from interleaved_requests_keep_store [OF demo_laws(1,2) this steps] steps show ?thesis by blast
qed

text \<open>
  C26. Every interleaving of requests ends: a request makes at most nine calls to services, and
  when no request can proceed each has its response or has failed.
\<close>

theorem requests_end:
  "((istep (wm_handle out) ^^ n) (map (wm_fetch env) reqs, w) (qs, w') \<longrightarrow> n \<le> 9 * length reqs) \<and>
   ((\<forall>c. \<not> istep (wm_handle out) (qs, w') c) \<longrightarrow>
      (\<forall>q \<in> set qs. (\<exists>resp :: response. q = Ret resp) \<or> (\<exists>e. q = Throw e)))"
  using interleaving_ends_const [of n "wm_handle out" "map (wm_fetch env) reqs" w qs w' 9] ends_wm_fetch
    stuck_finished [of "wm_handle out" qs w'] by auto

theorem requests_end_witness:
  "\<exists>qs w'. (istep (wm_handle demo_out) ^^ 1) (map (wm_fetch demo_env) [demo_claim], demo_world demo_won) (qs, w') \<and>
    (1 :: nat) \<le> 9 * length [demo_claim]"
proof -
  obtain k where k: "wm_fetch demo_env demo_claim = Eff (KvGet (u ''session:'' @ demo_sid)) k"
    using claim_shape [OF demo_claimable, of demo_won] by (auto simp: demo_won_def demo_open_def)
  obtain r w' where r: "wm_handle demo_out (KvGet (u ''session:'' @ demo_sid)) (demo_world demo_won) = (r, w')" by force
  have "istep (wm_handle demo_out) (map (wm_fetch demo_env) [demo_claim], demo_world demo_won)
      ((map (wm_fetch demo_env) [demo_claim])[0 := k r], w')"
    by (rule istep.step [where e = "KvGet (u ''session:'' @ demo_sid)" and w = "demo_world demo_won"])
      (use k r in simp_all)
  then have one: "(istep (wm_handle demo_out) ^^ 1) (map (wm_fetch demo_env) [demo_claim], demo_world demo_won)
      ((map (wm_fetch demo_env) [demo_claim])[0 := k r], w')" by (simp only: relpowp_1)
  then show ?thesis using requests_end [of 1 demo_out demo_env "[demo_claim]"] by blast
qed

section \<open>Claims\<close>





text \<open>
  C24. The limit does not extend to requests that overlap: two claims that both read a won session
  before either has written it are both granted, and leave two pending claims of the full reward,
  under different identifiers, to the addresses of the two requests.
\<close>

theorem overlapping_claims_pay_twice:
  assumes "faultless out" "kv_laws out" "supply_laws out" "claimable sid r1" "claimable sid r2"
    "kvget out (store w) (clock out (tick w)) (u ''session:'' @ sid) = Some (VSession rec)"
    "kvget out (store w) (clock out (Suc (tick w))) (u ''session:'' @ sid) = Some (VSession rec)"
    "won rec" "\<not> claimed rec" "entropy out (tick w + 3) 16 \<noteq> entropy out (tick w + 9) 16"
    "clock out (tick w + 14) < clock out (tick w) + 86400000"
  shows "\<exists>x y w' i1 i2 t1 t2.
    (istep (wm_handle out))\<^sup>*\<^sup>* ([wm_fetch env r1, wm_fetch env r2], w) ([Ret x, Ret y], w') \<and>
    resp_status x = 200 \<and> resp_status y = 200 \<and> i1 \<noteq> i2 \<and>
    kvget out (store w') (clock out (tick w')) (u ''claim:'' @ i1)
      = Some (VClaim (pendingClaim (claimAddress r1) (reward rec) t1)) \<and>
    kvget out (store w') (clock out (tick w')) (u ''claim:'' @ i2)
      = Some (VClaim (pendingClaim (claimAddress r2) (reward rec) t2))"
  by (rule two_claims_stored [OF assms])

theorem overlapping_claims_pay_twice_witness:
  "\<exists>x y w'. (istep (wm_handle demo_out))\<^sup>*\<^sup>*
    ([wm_fetch demo_env demo_claim, wm_fetch demo_env demo_claim], demo_world demo_won) ([Ret x, Ret y], w') \<and>
    resp_status x = 200 \<and> resp_status y = 200"
proof -
  have 1: "kvget demo_out (store (demo_world demo_won)) (clock demo_out (tick (demo_world demo_won)))
        (u ''session:'' @ demo_sid) = Some (VSession demo_won)"
      "kvget demo_out (store (demo_world demo_won)) (clock demo_out (Suc (tick (demo_world demo_won))))
        (u ''session:'' @ demo_sid) = Some (VSession demo_won)"
      "won demo_won" "\<not> claimed demo_won"
      "clock demo_out (tick (demo_world demo_won) + 14) < clock demo_out (tick (demo_world demo_won)) + 86400000"
    by (simp_all add: demo_world_def demo_out_def mem_get_def demo_won_def demo_open_def)
  have 2: "entropy demo_out (tick (demo_world demo_won) + 3) 16 \<noteq> entropy demo_out (tick (demo_world demo_won) + 9) 16"
    by (simp add: demo_world_def demo_out_def)
  show ?thesis
    using overlapping_claims_pay_twice [OF demo_laws(3,1,2) demo_claimable demo_claimable 1(1-4) 2 1(5)] by blast
qed

section \<open>Guesses\<close>



text \<open>
  C25. Guesses that overlap are not counted apart: two wrong guesses that both read the session
  before either has written it are both graded, and the session counts one.
\<close>

theorem overlapping_guesses_count_once:
  assumes "faultless out" "kv_laws out" "guessable sid g1 r1" "guessable sid g2 r2"
    "kvget out (store w) (clock out (tick w)) (u ''session:'' @ sid) = Some (VSession rec)"
    "kvget out (store w) (clock out (Suc (tick w))) (u ''session:'' @ sid) = Some (VSession rec)"
    "\<not> won rec" "\<not> lost rec" "\<not> won (gradedSession rec g1)" "\<not> won (gradedSession rec g2)"
  shows "\<exists>x y w'. (istep (wm_handle out))\<^sup>*\<^sup>* ([wm_fetch env r1, wm_fetch env r2], w) ([Ret x, Ret y], w') \<and>
    resp_status x = 200 \<and> resp_status y = 200 \<and>
    (\<exists>s. kvget out (store w') (clock out (tick w' - 1)) (u ''session:'' @ sid) = Some (VSession s) \<and>
       guess_count s = guess_count rec + 1)"
  using two_guesses_count_once [OF assms, of env] by blast

lemma demo_guess_BLOCK: "guessable demo_sid (u ''BLOCK'') (demo_guess ''BLOCK'')"
  "\<not> won (gradedSession demo_open (u ''BLOCK''))"
proof -
  show "guessable demo_sid (u ''BLOCK'') (demo_guess ''BLOCK'')"
    by (rule demo_guessable) (simp_all add: guessPattern_def toUpperCase_def upperUnit_def u_simps char_class_defs)
  have "u ''BLOCK'' \<noteq> u ''ABOUT''" by (simp add: u_simps)
  then show "\<not> won (gradedSession demo_open (u ''BLOCK''))"
    using grade_all_green [of "u ''BLOCK''" "u ''ABOUT''"] by (simp add: gradedSession_def Let_def demo_open_def)
qed

theorem overlapping_guesses_count_once_witness:
  "\<exists>x y w'. (istep (wm_handle demo_out))\<^sup>*\<^sup>*
    ([wm_fetch demo_env (demo_guess ''BLOCK''), wm_fetch demo_env (demo_guess ''BLOCK'')], demo_world demo_open)
    ([Ret x, Ret y], w') \<and> resp_status x = 200 \<and> resp_status y = 200 \<and>
    (\<exists>s. kvget demo_out (store w') (clock demo_out (tick w' - 1)) (u ''session:'' @ demo_sid) = Some (VSession s) \<and>
       guess_count s = 1)"
proof -
  have 1: "kvget demo_out (store (demo_world demo_open)) (clock demo_out (tick (demo_world demo_open)))
        (u ''session:'' @ demo_sid) = Some (VSession demo_open)"
      "kvget demo_out (store (demo_world demo_open)) (clock demo_out (Suc (tick (demo_world demo_open))))
        (u ''session:'' @ demo_sid) = Some (VSession demo_open)"
      "\<not> won demo_open" "\<not> lost demo_open" "guess_count demo_open + 1 = 1"
    by (simp_all add: demo_world_def demo_out_def mem_get_def demo_open_def)
  show ?thesis
    using overlapping_guesses_count_once [OF demo_laws(3,1) demo_guess_BLOCK(1) demo_guess_BLOCK(1) 1(1-4)
        demo_guess_BLOCK(2) demo_guess_BLOCK(2), of demo_env] unfolding 1(5) .
qed

text \<open>
  C14. The marks of a guess: green where the letters agree; otherwise yellow while the earlier
  occurrences of the letter in the guess have not used up the answer's occurrences at other
  places; gray beyond. In all, of each letter as many occurrences are coloured as guess and
  answer have in common, and all marks are green for the answer only.
\<close>

theorem grade_correct:
  "grade g a = map (markSpec g a) [0..<5] \<and>
   colored g a c = min (cnt (\<lambda>i. charAt g i = c) 5) (cnt (\<lambda>i. charAt a i = c) 5) \<and>
   (length g = 5 \<and> length a = 5 \<longrightarrow> (list_all (\<lambda>m. m = Green) (grade g a) \<longleftrightarrow> g = a))"
  using grade_spec colored_letters grade_all_green by blast

theorem grade_correct_witness:
  "list_all (\<lambda>m. m = Green) (grade (u ''ALLOY'') (u ''LOYAL'')) \<longleftrightarrow> u ''ALLOY'' = u ''LOYAL''"
proof -
  have "length (u ''ALLOY'') = 5" "length (u ''LOYAL'') = 5" by simp_all
  then show ?thesis using grade_correct by blast
qed


section \<open>Rewards\<close>

text \<open>
  C12. A winning guess ends the game and stores the reward: a thousandth of the unlocked balance, at
  most one coin, divided by the number of guesses, in doubles; and nothing when the balance entry
  is older than ten minutes.
\<close>

theorem winning_guess_reward:
  assumes "faultless out" "kv_laws out" "guessable sid (word rec) req"
    "kvget out (store w) (clock out (tick w)) (u ''session:'' @ sid) = Some (VSession rec)" "\<not> won rec" "\<not> lost rec"
    "kvget out (store w) (clock out (tick w + 1)) (u ''faucet:balance'') = Some (VFaucet f)" "unlocked f = Some un"
  shows "\<exists>resp w'. run (wm_handle out) (wm_fetch env req) w = (Inr resp, w') \<and> resp_status resp = 200 \<and>
    tick w' = tick w + 4 \<and>
    kvget out (store w') (clock out (tick w + 3)) (u ''session:'' @ sid)
      = Some (VSession (rec\<lparr>guess_count := guess_count rec + 1, won := True, lost := False,
          reward := jsDiv (maxReward (if int (clock out (tick w + 2)) - faucet_at f > 600000 then 0 else un))
            (of_nat (guess_count rec + 1))\<rparr>))"
  by (rule winning_guess [OF assms])

definition demo_funded :: "memory world" where
  "demo_funded = \<lparr>store = (store (demo_world demo_open))
     (u ''faucet:balance'' \<mapsto> (VFaucet \<lparr>faucet_at = 0, balance = Some 900, unlocked = Some 500\<rparr>, 1800000)), tick = 0\<rparr>"

lemma demo_funded_reads:
  "kvget demo_out (store demo_funded) (clock demo_out (tick demo_funded)) (u ''session:'' @ demo_sid) = Some (VSession demo_open)"
  "kvget demo_out (store demo_funded) (clock demo_out (tick demo_funded + 1)) (u ''faucet:balance'')
     = Some (VFaucet \<lparr>faucet_at = 0, balance = Some 900, unlocked = Some 500\<rparr>)"
  by (simp_all add: demo_funded_def demo_world_def demo_out_def mem_get_def u_simps)

theorem winning_guess_reward_witness:
  "\<exists>resp w'. run (wm_handle demo_out) (wm_fetch demo_env (demo_guess ''ABOUT'')) demo_funded = (Inr resp, w') \<and>
    resp_status resp = 200 \<and>
    (\<exists>s. kvget demo_out (store w') 3 (u ''session:'' @ demo_sid) = Some (VSession s) \<and> won s \<and>
       reward s = jsDiv (maxReward 500) 1)"
proof -
  have g: "guessable demo_sid (word demo_open) (demo_guess ''ABOUT'')"
    using demo_guessable [of "''ABOUT''"]
    by (simp add: guessPattern_def toUpperCase_def upperUnit_def u_simps char_class_defs demo_open_def)
  have nl: "\<not> won demo_open" "\<not> lost demo_open" by (simp_all add: demo_open_def)
  show ?thesis
    using winning_guess_reward [OF demo_laws(3,1) g demo_funded_reads(1) nl demo_funded_reads(2), of 500 demo_env]
    by (auto simp: demo_out_def demo_funded_def demo_open_def)
qed



text \<open>
  C34. The word is picked within the list for every value of \<open>Math.random()\<close>, rounding included, and
  every position of the list is picked by some value.
\<close>

theorem pick_word_range:
  "(\<forall>x. 0 \<le> x \<and> x \<le> 1 - 1 / 2 ^ 53 \<longrightarrow> pickWord x \<in> set WORDS) \<and>
   (\<forall>i < length WORDS. \<exists>x. 0 \<le> x \<and> x \<le> 1 - 1 / 2 ^ 53 \<and> pickWord x = WORDS ! i)"
  using pickWord_mem pickWord_reaches by simp

theorem pick_word_range_witness: "pickWord (1 - 1 / 2 ^ 53) \<in> set WORDS"
  using pick_word_range by simp

section \<open>Starting a game\<close>


lemma demo_starts: "startFrom (u ''unknown'') demo_start" "\<not> rateLimitOff demo_env"
  by (simp_all add: startFrom_def demo_start_def demo_post_def clientIp_def headerOr_def rateLimitOff_def demo_env_def)



text \<open>
  C29. The refusal of a start says exactly how many whole seconds of the hour are left, from 1 to
  3600, although the code computes them in floating point.
\<close>

theorem cooldown_seconds_exact:
  assumes "\<not> rateLimitOff env" "fault out (tick w) = None"
    "kvget out (store w) (clock out (tick w)) (u ''ratelimit:'' @ clientIp req) = Some (VText (natToString t0))"
    "t0 \<le> clock out (Suc (tick w))" "clock out (Suc (tick w)) < t0 + 3600000"
  shows "\<exists>left w'. run (wm_handle out) (handleStart env req) w =
      (Inr (jsonResponse (JObj [(u ''error'', JStr (u ''cooldown'')), (u ''retry_after_seconds'', jsInt left)]) 429), w') \<and>
    left = 3600 - (int (clock out (Suc (tick w))) - int t0) div 1000 \<and> 1 \<le> left \<and> left \<le> 3600 \<and> store w' = store w"
proof -
  let ?d = "int (clock out (Suc (tick w))) - int t0"
  have "0 \<le> ?d div 1000" "?d div 1000 < 3600" using assms(4,5) by (simp_all add: pos_imp_zdiv_nonneg_iff)
  then show ?thesis
    using handleStart_refused [OF assms(1,2) refl assms(3-5)] by (auto simp: cooldownBody_def)
qed

definition demo_cooling :: "memory world" where
  "demo_cooling =
     \<lparr>store = [u ''ratelimit:unknown'' \<mapsto> (VText (natToString 1000), 3601000)], tick = 61000\<rparr>"

theorem cooldown_seconds_exact_witness:
  "\<exists>w'. run (wm_handle demo_out) (handleStart demo_env demo_start)
      demo_cooling =
    (Inr (jsonResponse (JObj [(u ''error'', JStr (u ''cooldown'')), (u ''retry_after_seconds'', jsInt 3540)]) 429), w')"
proof -
  have ip: "clientIp demo_start = u ''unknown''" using demo_starts(1) by (simp add: startFrom_def)
  have h: "fault demo_out (tick demo_cooling) = None"
    "kvget demo_out (store demo_cooling) (clock demo_out (tick demo_cooling)) (u ''ratelimit:'' @ clientIp demo_start)
       = Some (VText (natToString 1000))"
    "1000 \<le> clock demo_out (Suc (tick demo_cooling))" "clock demo_out (Suc (tick demo_cooling)) < 1000 + 3600000"
    "3600 - (int (clock demo_out (Suc (tick demo_cooling))) - int 1000) div 1000 = 3540"
    by (simp_all add: ip demo_out_def mem_get_def u_simps demo_cooling_def)
  show ?thesis using cooldown_seconds_exact [OF demo_starts(2) h(1-4)] unfolding h(5) by blast
qed

text \<open>
  C27. The captcha fails closed: without a configured secret no game starts, whatever the request
  says and the services answer; the response is a refusal and nothing is written.
\<close>

theorem no_secret_no_game:
  assumes "TURNSTILE_SECRET env = None \<or> TURNSTILE_SECRET env = Some []"
    "run (wm_handle out) (handleStart env req) w = (Inr resp, w')"
  shows "(resp_status resp = 429 \<or> resp_status resp = 403) \<and> store w' = store w"
  using start_needs_secret [OF assms] by blast

theorem no_secret_no_game_witness:
  "\<exists>resp w'. run (wm_handle demo_out) (handleStart (demo_env\<lparr>TURNSTILE_SECRET := None\<rparr>) demo_start) (demo_world demo_open)
      = (Inr resp, w') \<and> (resp_status resp = 429 \<or> resp_status resp = 403) \<and> store w' = store (demo_world demo_open)"
proof -
  have "\<exists>resp w'. run (wm_handle demo_out) (handleStart (demo_env\<lparr>TURNSTILE_SECRET := None\<rparr>) demo_start)
      (demo_world demo_open) = (Inr resp, w')"
    by (simp add: handleStart_def kvGetText_def run_simps cooldownLeft_def verifyTurnstile_def Let_def
        demo_world_def demo_out_def mem_get_def demo_start_def demo_post_def bodyOf_def demo_env_def
        rateLimitOff_def u_simps)
  then show ?thesis using no_secret_no_game [of "demo_env\<lparr>TURNSTILE_SECRET := None\<rparr>"] by fastforce
qed

text \<open>
  C28. The responses do not give the word away: the response to a start is the same whatever
  number the word is drawn with, and the response to a guess that does not lose the game is the
  same for every word that gives the same marks.
\<close>

theorem word_not_revealed:
  "fst (run (wm_handle (out\<lparr>random := f\<rparr>)) (startSession env rlKey) w)
     = fst (run (wm_handle out) (startSession env rlKey) w) \<and>
   (grade g (word s) = grade g x \<and> \<not> lost (gradedSession s g) \<longrightarrow>
     fst (run (wm_handle out) (recordGuess tok key (s\<lparr>word := x\<rparr>) g) w)
       = fst (run (wm_handle out) (recordGuess tok key s g) w))"
  using start_hides_word guess_hides_word by blast

theorem word_not_revealed_witness:
  "fst (run (wm_handle demo_out) (recordGuess JNull [] (demo_open\<lparr>word := u ''ABOVE''\<rparr>) (u ''BLOCK'')) (demo_world demo_open))
     = fst (run (wm_handle demo_out) (recordGuess JNull [] demo_open (u ''BLOCK'')) (demo_world demo_open))"
proof -
  have "grade (u ''BLOCK'') (u ''ABOUT'') = grade (u ''BLOCK'') (u ''ABOVE'')" by code_simp
  then have "grade (u ''BLOCK'') (word demo_open) = grade (u ''BLOCK'') (u ''ABOVE'')"
    by (simp only: demo_open_def session.simps)
  moreover have "\<not> lost (gradedSession demo_open (u ''BLOCK''))"
    by (simp add: demo_open_def gradedSession_def Let_def)
  ultimately show ?thesis using word_not_revealed by blast
qed

end
