(* ===== verification/Service.thy ===== *)
theory Service
  imports Effects
begin

text \<open>
  A service: requests arrive at any time, running programs are interleaved at their effects, and
  work that a program leaves for later starts at any time after it. Each program carries a
  label, the request or the piece of work it runs for. What the programs guarantee holds in
  every state, and what is specified of their results holds of every result.
\<close>

inductive sstep ::
    "('e \<Rightarrow> 'w \<Rightarrow> 'r \<times> 'w) \<Rightarrow> ('w \<Rightarrow> 'l \<Rightarrow> ('e, 'r, 'a) prog \<Rightarrow> 'w \<Rightarrow> bool) \<Rightarrow>
     ('l \<times> ('e, 'r, 'a) prog) list \<times> 'w \<Rightarrow> ('l \<times> ('e, 'r, 'a) prog) list \<times> 'w \<Rightarrow> bool"
  for h start where
  start: "start w l p w' \<Longrightarrow> sstep h start (ps, w) (ps @ [(l, p)], w')"
| move: "i < length ps \<Longrightarrow> ps ! i = (l, Eff e k) \<Longrightarrow> h e w = (r, w') \<Longrightarrow>
    sstep h start (ps, w) (ps[i := (l, k r)], w')"

inductive_cases sstep_cases: "sstep h start (ps, w) c"

locale service = rely_guarantee h Inv P Q
  for h :: "'e \<Rightarrow> 'w \<Rightarrow> 'r \<times> 'w" and Inv P Q +
  fixes start :: "'w \<Rightarrow> 'l \<Rightarrow> ('e, 'r, 'a) prog \<Rightarrow> 'w \<Rightarrow> bool"
    and R :: "'l \<Rightarrow> 'a \<Rightarrow> bool"
  assumes start_ok: "Inv w \<Longrightarrow> start w l p w' \<Longrightarrow> Inv w' \<and> guards P Q (R l) p"
begin

lemma sstep_keeps:
  assumes "sstep h start (ps, w) (qs, v)" "Inv w" "\<forall>(l, p) \<in> set ps. guards P Q (R l) p"
  shows "Inv v \<and> (\<forall>(l, p) \<in> set qs. guards P Q (R l) p)"
  using assms(1)
proof (cases rule: sstep.cases)
  case (start l p)
  then show ?thesis using start_ok [OF assms(2)] assms(3) by auto
next
  case (move i l e k r)
  then have "(l, Eff e k) \<in> set ps" by (metis nth_mem)
  then have "P e" "\<forall>r. Q e r \<longrightarrow> guards P Q (R l) (k r)" using assms(3) by auto
  then have "Inv v" "guards P Q (R l) (k r)"
    using rely [OF assms(2)] keep [OF assms(2)] move by auto
  moreover have "set qs \<subseteq> insert (l, k r) (set ps)" using move set_update_subset_insert by fastforce
  ultimately show ?thesis using assms(3) by fastforce
qed

lemma ssteps_keep:
  assumes "(sstep h start)\<^sup>*\<^sup>* (ps, w) (qs, v)" "Inv w" "\<forall>(l, p) \<in> set ps. guards P Q (R l) p"
  shows "Inv v \<and> (\<forall>(l, p) \<in> set qs. guards P Q (R l) p)"
  using assms(1)
proof (induction qs v rule: rtranclp_induct2)
  case (step ps' w' qs v)
  then show ?case using sstep_keeps [of ps' w' qs v] by blast
qed (use assms in simp)

lemma service_result:
  assumes "(sstep h start)\<^sup>*\<^sup>* ([], w) (qs, v)" "Inv w" "(l, Ret y) \<in> set qs"
  shows "R l y"
  using ssteps_keep [OF assms(1,2)] assms(3) by fastforce

end

text \<open>A program run to its end alone is one of the interleavings.\<close>

lemma run_sstep:
  assumes "run h p w = (x, w')" "ps ! i = (l, p)" "i < length ps"
  shows "(sstep h start)\<^sup>*\<^sup>* (ps, w) (ps[i := (l, liftR x)], w')"
  using assms
proof (induction p arbitrary: w ps)
  case (Eff e k)
  obtain r v where r: "h e w = (r, v)" by (cases "h e w")
  have "sstep h start (ps, w) (ps[i := (l, k r)], v)" using Eff.prems(3,2) r by (rule sstep.move)
  moreover have "(sstep h start)\<^sup>*\<^sup>* (ps[i := (l, k r)], v) ((ps[i := (l, k r)])[i := (l, liftR x)], w')"
    using Eff.prems r by (intro Eff.IH [of "k r"]) simp_all
  ultimately show ?case by (simp add: converse_rtranclp_into_rtranclp)
qed (auto simp: list_update_same)

end
