(* ===== verification/Edge.thy ===== *)
theory Edge
  imports Effect_Count Http Service
begin

text \<open>
  The platform under the two edge workers: the cache of the data centre, the namespace of the
  statistics, the origin servers, the clock, the hash of the crypto interface, and work left
  to be done after the response. None of them is defined here: they are the fields of the record
  \<open>edge\<close>, over an arbitrary type of stores. An origin may answer anything at any step, and any
  remote operation may fail.
\<close>

section \<open>Effects\<close>

record origin_request =
  oreq_url :: ustring
  oreq_method :: ustring
  oreq_type :: ustring
  oreq_body :: "bytes option"

datatype 't edge_eff =
    CacheMatch ustring
  | CachePut ustring http_response
  | StatsGet ustring
  | StatsPut ustring ustring nat
  | StatsList ustring nat
  | Fetch origin_request
  | SiteFetch http_request
  | Now
  | Digest bytes
  | WaitUntil 't

datatype edge_resp =
    EHit "http_response option"
  | EUnit
  | EText "ustring option"
  | EKeys "ustring list"
  | EResp http_response
  | ETime nat
  | EBytes bytes
  | EErr js_error

type_synonym ('t, 'a) edge_prog = "('t edge_eff, edge_resp, 'a) prog"

definition cacheMatch :: "ustring \<Rightarrow> ('t, http_response option) edge_prog" where
  "cacheMatch key =
     Eff (CacheMatch key) (\<lambda>r. case r of EHit v \<Rightarrow> Ret v | EErr e \<Rightarrow> Throw e | _ \<Rightarrow> Throw TypeError)"

definition cachePut :: "ustring \<Rightarrow> http_response \<Rightarrow> ('t, unit) edge_prog" where
  "cachePut key resp =
     Eff (CachePut key resp) (\<lambda>r. case r of EUnit \<Rightarrow> Ret () | EErr e \<Rightarrow> Throw e | _ \<Rightarrow> Throw TypeError)"

definition statsGet :: "ustring \<Rightarrow> ('t, ustring option) edge_prog" where
  "statsGet key =
     Eff (StatsGet key) (\<lambda>r. case r of EText v \<Rightarrow> Ret v | EErr e \<Rightarrow> Throw e | _ \<Rightarrow> Throw TypeError)"

definition statsPut :: "ustring \<Rightarrow> ustring \<Rightarrow> nat \<Rightarrow> ('t, unit) edge_prog" where
  "statsPut key v ttl =
     Eff (StatsPut key v ttl) (\<lambda>r. case r of EUnit \<Rightarrow> Ret () | EErr e \<Rightarrow> Throw e | _ \<Rightarrow> Throw TypeError)"

definition statsList :: "ustring \<Rightarrow> nat \<Rightarrow> ('t, ustring list) edge_prog" where
  "statsList pre limit =
     Eff (StatsList pre limit) (\<lambda>r. case r of EKeys ks \<Rightarrow> Ret ks | EErr e \<Rightarrow> Throw e | _ \<Rightarrow> Throw TypeError)"

definition fetchOrigin :: "origin_request \<Rightarrow> ('t, http_response) edge_prog" where
  "fetchOrigin req =
     Eff (Fetch req) (\<lambda>r. case r of EResp x \<Rightarrow> Ret x | EErr e \<Rightarrow> Throw e | _ \<Rightarrow> Throw TypeError)"

definition edgeAssets :: "http_request \<Rightarrow> ('t, http_response) edge_prog" where
  "edgeAssets req =
     Eff (SiteFetch req) (\<lambda>r. case r of EResp x \<Rightarrow> Ret x | EErr e \<Rightarrow> Throw e | _ \<Rightarrow> Throw TypeError)"

definition edgeNow :: "('t, nat) edge_prog" where
  "edgeNow = Eff Now (\<lambda>r. case r of ETime t \<Rightarrow> Ret t | _ \<Rightarrow> Throw TypeError)"

definition digest256 :: "bytes \<Rightarrow> ('t, bytes) edge_prog" where
  "digest256 b =
     Eff (Digest b) (\<lambda>r. case r of EBytes d \<Rightarrow> Ret d | EErr e \<Rightarrow> Throw e | _ \<Rightarrow> Throw TypeError)"

definition waitUntil :: "'t \<Rightarrow> ('t, unit) edge_prog" where
  "waitUntil t = Eff (WaitUntil t) (\<lambda>r. Ret ())"

lemmas edge_effects = cacheMatch_def cachePut_def statsGet_def statsPut_def statsList_def
  fetchOrigin_def edgeAssets_def edgeNow_def digest256_def waitUntil_def

section \<open>The platform\<close>

record 's edge =
  cmatch :: "'s \<Rightarrow> nat \<Rightarrow> ustring \<Rightarrow> http_response option"
  cput :: "'s \<Rightarrow> nat \<Rightarrow> ustring \<Rightarrow> http_response \<Rightarrow> 's"
  sget :: "'s \<Rightarrow> nat \<Rightarrow> ustring \<Rightarrow> ustring option"
  sput :: "'s \<Rightarrow> nat \<Rightarrow> ustring \<Rightarrow> ustring \<Rightarrow> nat \<Rightarrow> 's"
  slist :: "'s \<Rightarrow> nat \<Rightarrow> ustring \<Rightarrow> nat \<Rightarrow> ustring list"
  origin :: "nat \<Rightarrow> origin_request \<Rightarrow> http_response res"
  site_assets :: "nat \<Rightarrow> http_request \<Rightarrow> http_response res"
  edge_clock :: "nat \<Rightarrow> nat"
  sha256 :: "bytes \<Rightarrow> bytes"
  edge_fault :: "nat \<Rightarrow> js_error option"

record ('s, 't) edge_world =
  estore :: 's
  etick :: nat
  pending :: "'t list"

definition edge_remote :: "'s edge \<Rightarrow> ('s, 't) edge_world \<Rightarrow> edge_resp \<Rightarrow> edge_resp" where
  "edge_remote out w r = (case edge_fault out (etick w) of None \<Rightarrow> r | Some e \<Rightarrow> EErr e)"

definition answer :: "http_response res \<Rightarrow> edge_resp" where
  "answer x = (case x of Inl e \<Rightarrow> EErr e | Inr r \<Rightarrow> EResp r)"

fun edge_handle :: "'s edge \<Rightarrow> 't edge_eff \<Rightarrow> ('s, 't) edge_world \<Rightarrow> edge_resp \<times> ('s, 't) edge_world" where
  "edge_handle out (CacheMatch key) w =
     (edge_remote out w (EHit (cmatch out (estore w) (edge_clock out (etick w)) key)), w\<lparr>etick := Suc (etick w)\<rparr>)"
| "edge_handle out (CachePut key resp) w =
     (edge_remote out w EUnit,
      w\<lparr>estore := (if edge_fault out (etick w) = None
                   then cput out (estore w) (edge_clock out (etick w)) key resp else estore w),
        etick := Suc (etick w)\<rparr>)"
| "edge_handle out (StatsGet key) w =
     (edge_remote out w (EText (sget out (estore w) (edge_clock out (etick w)) key)), w\<lparr>etick := Suc (etick w)\<rparr>)"
| "edge_handle out (StatsPut key v ttl) w =
     (edge_remote out w EUnit,
      w\<lparr>estore := (if edge_fault out (etick w) = None
                   then sput out (estore w) (edge_clock out (etick w)) key v ttl else estore w),
        etick := Suc (etick w)\<rparr>)"
| "edge_handle out (StatsList pre limit) w =
     (edge_remote out w (EKeys (slist out (estore w) (edge_clock out (etick w)) pre limit)), w\<lparr>etick := Suc (etick w)\<rparr>)"
| "edge_handle out (Fetch req) w = (answer (origin out (etick w) req), w\<lparr>etick := Suc (etick w)\<rparr>)"
| "edge_handle out (SiteFetch req) w = (answer (site_assets out (etick w) req), w\<lparr>etick := Suc (etick w)\<rparr>)"
| "edge_handle out Now w = (ETime (edge_clock out (etick w)), w\<lparr>etick := Suc (etick w)\<rparr>)"
| "edge_handle out (Digest b) w = (edge_remote out w (EBytes (sha256 out b)), w\<lparr>etick := Suc (etick w)\<rparr>)"
| "edge_handle out (WaitUntil t) w = (EUnit, w\<lparr>etick := Suc (etick w), pending := pending w @ [t]\<rparr>)"

text \<open>A request arrives, or a piece of pending work starts.\<close>

datatype ('q, 't) edge_label = Request 'q | Work 't

definition edge_start ::
    "('q \<Rightarrow> ('t, 'a) edge_prog) \<Rightarrow> ('t \<Rightarrow> ('t, 'a) edge_prog) \<Rightarrow>
     ('s, 't) edge_world \<Rightarrow> ('q, 't) edge_label \<Rightarrow> ('t, 'a) edge_prog \<Rightarrow> ('s, 't) edge_world \<Rightarrow> bool" where
  "edge_start fetchP workP w l p w' =
     (case l of
        Request q \<Rightarrow> p = fetchP q \<and> w' = w
      | Work t \<Rightarrow> p = workP t \<and> t \<in> set (pending w) \<and> w' = w\<lparr>pending := remove1 t (pending w)\<rparr>)"

section \<open>Vocabulary of the properties\<close>

text \<open>A list of headers is among those of a response.\<close>

definition hasCors :: "headers \<Rightarrow> headers \<Rightarrow> bool" where
  "hasCors cors hs \<longleftrightarrow> (\<forall>(k, v) \<in> set cors. map_of hs k = Some v)"

definition touchesCache :: "'t edge_eff \<Rightarrow> bool" where
  "touchesCache e = (case e of CacheMatch k \<Rightarrow> True | CachePut k r \<Rightarrow> True | WaitUntil t \<Rightarrow> True | _ \<Rightarrow> False)"

definition isFetch :: "'t edge_eff \<Rightarrow> bool" where
  "isFetch e = (case e of Fetch req \<Rightarrow> True | _ \<Rightarrow> False)"

section \<open>What the workers rely on\<close>

text \<open>
  The cache gives back only what was put under the key and is not older than its \<open>max-age\<close>; it may
  drop an entry at any time.
\<close>

definition cache_laws :: "'s edge \<Rightarrow> bool" where
  "cache_laws out \<longleftrightarrow>
     (\<forall>s t k r t' k' x. cmatch out (cput out s t k r) t' k' = Some x \<longrightarrow>
        (if k' = k then x = r else cmatch out s t' k' = Some x)) \<and>
     (\<forall>s t k v ttl t' k'. cmatch out (sput out s t k v ttl) t' k' = cmatch out s t' k')"

section \<open>A property of what is cached\<close>

text \<open>
  \<open>C\<close> is a property of entries and keys. The store has it when every entry has it, and a program
  keeps it when it puts, or leaves to be put, such entries only.
\<close>

definition cache_ok :: "'s edge \<Rightarrow> (ustring \<Rightarrow> http_response \<Rightarrow> bool) \<Rightarrow> 's \<Rightarrow> bool" where
  "cache_ok out C s \<longleftrightarrow> (\<forall>t k r. cmatch out s t k = Some r \<longrightarrow> C k r)"

definition edge_inv ::
    "'s edge \<Rightarrow> (ustring \<Rightarrow> http_response \<Rightarrow> bool) \<Rightarrow> ('t \<Rightarrow> bool) \<Rightarrow> ('s, 't) edge_world \<Rightarrow> bool" where
  "edge_inv out C W w \<longleftrightarrow> cache_laws out \<and> cache_ok out C (estore w) \<and> (\<forall>t \<in> set (pending w). W t)"

text \<open>\<open>A\<close> says what the origins answered.\<close>

definition answered :: "'s edge \<Rightarrow> origin_request \<Rightarrow> http_response \<Rightarrow> bool" where
  "answered out req resp \<longleftrightarrow> (\<exists>n. origin out n req = Inr resp)"

definition edge_promise :: "(ustring \<Rightarrow> http_response \<Rightarrow> bool) \<Rightarrow> ('t \<Rightarrow> bool) \<Rightarrow> 't edge_eff \<Rightarrow> bool" where
  "edge_promise C W e = (case e of CachePut k r \<Rightarrow> C k r | WaitUntil t \<Rightarrow> W t | _ \<Rightarrow> True)"

definition edge_rely ::
    "'s edge \<Rightarrow> (ustring \<Rightarrow> http_response \<Rightarrow> bool) \<Rightarrow> 't edge_eff \<Rightarrow> edge_resp \<Rightarrow> bool" where
  "edge_rely out C e r =
     (case (e, r) of
        (CacheMatch k, EHit (Some x)) \<Rightarrow> C k x
      | (Fetch req, EResp x) \<Rightarrow> answered out req x
      | (Digest b, EBytes d) \<Rightarrow> d = sha256 out b
      | _ \<Rightarrow> True)"

lemma cache_ok_put:
  assumes "cache_laws out" "cache_ok out C s" "C k r"
  shows "cache_ok out C (cput out s t k r)"
  unfolding cache_ok_def
proof (intro allI impI)
  fix t' k' x
  assume "cmatch out (cput out s t k r) t' k' = Some x"
  then have "if k' = k then x = r else cmatch out s t' k' = Some x"
    using assms(1) unfolding cache_laws_def by blast
  then show "C k' x" using assms(2,3) by (auto simp: cache_ok_def split: if_splits)
qed

lemma cache_ok_stats:
  assumes "cache_laws out" "cache_ok out C s"
  shows "cache_ok out C (sput out s t k v ttl)"
proof -
  have "cmatch out (sput out s t k v ttl) t' k' = cmatch out s t' k'" for t' k'
    using assms(1) unfolding cache_laws_def by blast
  then show ?thesis using assms(2) by (simp add: cache_ok_def)
qed

interpretation edge: rely_guarantee "edge_handle out" "edge_inv out C W" "edge_promise C W" "edge_rely out C"
  for out :: "'s edge" and C and W :: "'t \<Rightarrow> bool"
proof
  fix w w' :: "('s, 't) edge_world" and e r
  assume inv: "edge_inv out C W w" and h: "edge_handle out e w = (r, w')"
  show "edge_rely out C e r"
    using inv h
    by (cases e) (auto simp: edge_rely_def edge_inv_def edge_remote_def cache_ok_def answer_def answered_def
        split: option.splits sum.splits)
  assume p: "edge_promise C W e"
  show "edge_inv out C W w'"
    using inv h p by (cases e) (auto simp: edge_inv_def edge_promise_def cache_ok_put cache_ok_stats)
qed

section \<open>The specification of each effect\<close>

lemma all_edge_resp:
  "(\<forall>r. P r) \<longleftrightarrow> (\<forall>v. P (EHit v)) \<and> P EUnit \<and> (\<forall>v. P (EText v)) \<and> (\<forall>ks. P (EKeys ks)) \<and>
     (\<forall>x. P (EResp x)) \<and> (\<forall>t. P (ETime t)) \<and> (\<forall>b. P (EBytes b)) \<and> (\<forall>e. P (EErr e))"
  by (metis edge_resp.exhaust)

named_theorems edge_guards \<open>the specification of an edge program, computed\<close>

lemma edge_guards_effects [edge_guards]:
  "guards (edge_promise C W) (edge_rely out C) R1 (cacheMatch k) \<longleftrightarrow> R1 None \<and> (\<forall>x. C k x \<longrightarrow> R1 (Some x))"
  "guards (edge_promise C W) (edge_rely out C) R2 (cachePut k x) \<longleftrightarrow> C k x \<and> R2 ()"
  "guards (edge_promise C W) (edge_rely out C) R3 (statsGet k) \<longleftrightarrow> (\<forall>v. R3 v)"
  "guards (edge_promise C W) (edge_rely out C) R4 (statsPut k v ttl) \<longleftrightarrow> R4 ()"
  "guards (edge_promise C W) (edge_rely out C) R5 (statsList pre n) \<longleftrightarrow> (\<forall>ks. R5 ks)"
  "guards (edge_promise C W) (edge_rely out C) R6 (fetchOrigin req) \<longleftrightarrow> (\<forall>x. answered out req x \<longrightarrow> R6 x)"
  "guards (edge_promise C W) (edge_rely out C) R7 (edgeAssets areq) \<longleftrightarrow> (\<forall>x. R7 x)"
  "guards (edge_promise C W) (edge_rely out C) R8 edgeNow \<longleftrightarrow> (\<forall>t. R8 t)"
  "guards (edge_promise C W) (edge_rely out C) R9 (digest256 b) \<longleftrightarrow> R9 (sha256 out b)"
  "guards (edge_promise C W) (edge_rely out C) R10 (waitUntil t) \<longleftrightarrow> W t \<and> R10 ()"
  by (simp_all add: edge_effects edge_promise_def edge_rely_def all_edge_resp split_option_all)

declare guards_bindP [edge_guards] guards_liftR [edge_guards]

section \<open>Running each effect\<close>

named_theorems edge_run \<open>running one effect of an edge program\<close>

lemma edge_run_effects [edge_run]:
  "run (edge_handle out) (cacheMatch k) w =
     (case edge_fault out (etick w) of
        None \<Rightarrow> (Inr (cmatch out (estore w) (edge_clock out (etick w)) k), w\<lparr>etick := Suc (etick w)\<rparr>)
      | Some e \<Rightarrow> (Inl e, w\<lparr>etick := Suc (etick w)\<rparr>))"
  "run (edge_handle out) (cachePut k r) w =
     (case edge_fault out (etick w) of
        None \<Rightarrow> (Inr (), w\<lparr>estore := cput out (estore w) (edge_clock out (etick w)) k r, etick := Suc (etick w)\<rparr>)
      | Some e \<Rightarrow> (Inl e, w\<lparr>etick := Suc (etick w)\<rparr>))"
  "run (edge_handle out) (statsGet k) w =
     (case edge_fault out (etick w) of
        None \<Rightarrow> (Inr (sget out (estore w) (edge_clock out (etick w)) k), w\<lparr>etick := Suc (etick w)\<rparr>)
      | Some e \<Rightarrow> (Inl e, w\<lparr>etick := Suc (etick w)\<rparr>))"
  "run (edge_handle out) (statsPut k v ttl) w =
     (case edge_fault out (etick w) of
        None \<Rightarrow> (Inr (), w\<lparr>estore := sput out (estore w) (edge_clock out (etick w)) k v ttl, etick := Suc (etick w)\<rparr>)
      | Some e \<Rightarrow> (Inl e, w\<lparr>etick := Suc (etick w)\<rparr>))"
  "run (edge_handle out) (fetchOrigin req) w = (origin out (etick w) req, w\<lparr>etick := Suc (etick w)\<rparr>)"
  "run (edge_handle out) (edgeAssets areq) w = (site_assets out (etick w) areq, w\<lparr>etick := Suc (etick w)\<rparr>)"
  "run (edge_handle out) edgeNow w = (Inr (edge_clock out (etick w)), w\<lparr>etick := Suc (etick w)\<rparr>)"
  "run (edge_handle out) (digest256 b) w =
     (case edge_fault out (etick w) of
        None \<Rightarrow> (Inr (sha256 out b), w\<lparr>etick := Suc (etick w)\<rparr>)
      | Some e \<Rightarrow> (Inl e, w\<lparr>etick := Suc (etick w)\<rparr>))"
  "run (edge_handle out) (waitUntil t) w = (Inr (), w\<lparr>etick := Suc (etick w), pending := pending w @ [t]\<rparr>)"
  by (simp_all add: edge_effects edge_remote_def answer_def split: option.splits sum.splits)

lemma run_liftR_any [edge_run]: "run h (liftR x) w = (x, w)"
  by (cases x) simp_all

declare run_bindP [edge_run] run_catchP [edge_run]

end
