(* ===== verification/Pool_Worker.thy ===== *)
theory Pool_Worker
  imports Edge Json
begin

text \<open>
  The worker in front of the mining pool, \<^verbatim>\<open>pool/cloudflare/pool-worker.js\<close>: requests under
  \<^verbatim>\<open>/pool/\<close> go to the pool server, three read-only ones through the cache; the rest are static
  assets. Putting an answer into the cache is left for after the response.
\<close>

declare u_simps [simp del]

section \<open>Constants\<close>

definition ORIGIN :: ustring where
  "ORIGIN = u ''http://static.34.142.105.178.clients.your-server.de:8088''"

definition pool_CORS :: headers where
  "pool_CORS =
     [(u ''access-control-allow-origin'', u ''*''),
      (u ''access-control-allow-methods'', u ''GET, POST, OPTIONS''),
      (u ''access-control-allow-headers'', u ''Content-Type''),
      (u ''access-control-max-age'', u ''86400'')]"

definition GET_CACHE_TTL :: "ustring \<Rightarrow> nat option" where
  "GET_CACHE_TTL =
     map_of [(u ''/pool/stats'', 5), (u ''/pool/blocks'', 10), (u ''/pool/payouts'', 10)]"

section \<open>Handler\<close>

datatype pool_task = PoolPut ustring http_response

type_synonym 'a pool = "(pool_task, 'a) edge_prog"

definition poolWork :: "pool_task \<Rightarrow> unit pool" where
  "poolWork t = (case t of PoolPut k r \<Rightarrow> cachePut k r)"

text \<open>The key of a request that may be cached, and the time to live of its answer.\<close>

definition poolCacheKey :: "http_request \<Rightarrow> (ustring \<times> nat) option" where
  "poolCacheKey req =
     (if hreq_method req = u ''GET''
      then case GET_CACHE_TTL (hreq_path req) of
             None \<Rightarrow> None
           | Some ttl \<Rightarrow>
               Some (u ''https://pool-cache.local'' @ hreq_path req @ hreq_search req, ttl)
      else None)"

definition poolHit :: "http_response \<Rightarrow> http_response res" where
  "poolHit hit =
     bindR (newResponse (hres_body hit) (hres_status hit) (hres_headers hit)) (\<lambda>out.
     Inr (out\<lparr>hres_headers := setHeader (u ''x-pool-cache'') (u ''HIT'') (setHeaders pool_CORS (hres_headers out))\<rparr>))"

definition poolOriginRequest :: "http_request \<Rightarrow> origin_request" where
  "poolOriginRequest req =
     \<lparr>oreq_url = ORIGIN @ hreq_path req @ hreq_search req, oreq_method = hreq_method req,
      oreq_type = headerOr (hreq_headers req) (u ''content-type'') (u ''application/json''),
      oreq_body = (if hreq_method req = u ''POST'' then Some (hreq_body req) else None)\<rparr>"

text \<open>\<open>e.message\<close> of the error a failed fetch throws.\<close>

definition errorMessage :: "js_error \<Rightarrow> ustring" where
  "errorMessage e = (case e of Error m \<Rightarrow> m | _ \<Rightarrow> [])"

definition poolUnreachable :: "js_error \<Rightarrow> http_response res" where
  "poolUnreachable e =
     newResponse
       (Some (Inr (utf8Encode (stringify (JObj [(u ''error'', JStr (u ''pool server unreachable: '' @ errorMessage e))])))))
       502 ((u ''content-type'', u ''application/json'') # pool_CORS)"

definition poolCached :: "bytes \<Rightarrow> ustring \<Rightarrow> nat \<Rightarrow> http_response res" where
  "poolCached b ct ttl =
     newResponse (Some (Inr b)) 200
       [(u ''content-type'', ct), (u ''cache-control'', u ''public, max-age='' @ natToString ttl)]"

definition poolAnswer :: "(ustring \<times> nat) option \<Rightarrow> http_response \<Rightarrow> http_response pool" where
  "poolAnswer key resp =
     bindP (liftR (readBody resp)) (\<lambda>b.
     let ct = headerOr (hres_headers resp) (u ''content-type'') (u ''application/json'')
     in bindP (case key of
                 None \<Rightarrow> Ret ()
               | Some (k, ttl) \<Rightarrow>
                   if hres_status resp < 400
                   then bindP (liftR (poolCached b ct ttl)) (\<lambda>c. waitUntil (PoolPut k c))
                   else Ret ()) (\<lambda>_.
        liftR (newResponse (Some (Inr b)) (hres_status resp)
          ([(u ''content-type'', ct),
            (u ''x-pool-cache'', if key = None then u ''BYPASS'' else u ''MISS'')] @ pool_CORS))))"

definition poolForward :: "(ustring \<times> nat) option \<Rightarrow> http_request \<Rightarrow> http_response pool" where
  "poolForward key req =
     bindP (catchP (bindP (fetchOrigin (poolOriginRequest req)) (\<lambda>resp. Ret (Inr resp)))
                   (\<lambda>e. Ret (Inl e))) (\<lambda>x. case x of
       Inl e \<Rightarrow> liftR (poolUnreachable e)
     | Inr resp \<Rightarrow> poolAnswer key resp)"

definition pool_fetch :: "http_request \<Rightarrow> http_response pool" where
  "pool_fetch req =
     (if hreq_method req = u ''OPTIONS'' then liftR (newResponse None 204 pool_CORS)
      else if \<not> startsWith (u ''/pool/'') (hreq_path req) then edgeAssets req
      else case poolCacheKey req of
        None \<Rightarrow> poolForward None req
      | Some (k, ttl) \<Rightarrow>
          bindP (cacheMatch k) (\<lambda>hit. case hit of
            Some h \<Rightarrow> liftR (poolHit h)
          | None \<Rightarrow> poolForward (Some (k, ttl)) req))"

section \<open>The service\<close>

text \<open>The programs of the service: requests, and the work they leave.\<close>

definition poolRequest :: "http_request \<Rightarrow> http_response option pool" where
  "poolRequest req = bindP (pool_fetch req) (\<lambda>resp. Ret (Some resp))"

definition poolTask :: "pool_task \<Rightarrow> http_response option pool" where
  "poolTask t = bindP (poolWork t) (\<lambda>_. Ret None)"

text \<open>
  What an entry of the cache may be: the body of an answer below 400 that the pool server gave to
  a \<open>GET\<close> for the address in the key.
\<close>

definition poolEntry :: "'s edge \<Rightarrow> ustring \<Rightarrow> http_response \<Rightarrow> bool" where
  "poolEntry out k r \<longleftrightarrow>
     (\<exists>url ct y b. k = u ''https://pool-cache.local'' @ url \<and>
        answered out \<lparr>oreq_url = ORIGIN @ url, oreq_method = u ''GET'', oreq_type = ct, oreq_body = None\<rparr> y \<and>
        hres_status y < 400 \<and> readBody y = Inr b \<and> hres_status r = 200 \<and> hres_body r = Some (Inr b))"

definition poolWorkOk :: "'s edge \<Rightarrow> pool_task \<Rightarrow> bool" where
  "poolWorkOk out t = (case t of PoolPut k r \<Rightarrow> poolEntry out k r)"

text \<open>
  What a response may be: the body of an answer of the pool server to the same address, with its
  status or, from the cache, with 200 for one below 400; or the report that it is unreachable.
\<close>

definition poolFaithful :: "'s edge \<Rightarrow> http_request \<Rightarrow> http_response \<Rightarrow> bool" where
  "poolFaithful out req resp \<longleftrightarrow>
     hasCors pool_CORS (hres_headers resp) \<and>
     (hres_status resp = 502 \<or>
      (\<exists>ct y b. answered out ((poolOriginRequest req)\<lparr>oreq_type := ct\<rparr>) y \<and> readBody y = Inr b \<and>
         hres_body resp = Some (Inr b) \<and>
         (hres_status resp = hres_status y \<or>
          poolCacheKey req \<noteq> None \<and> hres_status y < 400 \<and> hres_status resp = 200)))"

definition proxied :: "http_request \<Rightarrow> bool" where
  "proxied req \<longleftrightarrow> hreq_method req \<noteq> u ''OPTIONS'' \<and> startsWith (u ''/pool/'') (hreq_path req)"

abbreviation pool_guards :: "'s edge \<Rightarrow> ('a \<Rightarrow> bool) \<Rightarrow> 'a pool \<Rightarrow> bool" where
  "pool_guards out R p \<equiv> guards (edge_promise (poolEntry out) (poolWorkOk out)) (edge_rely out (poolEntry out)) R p"

lemma cors_distinct: "distinct (map fst pool_CORS)"
  by (simp add: pool_CORS_def)

lemma cors_new [simp]:
  "hasCors pool_CORS ((u ''content-type'', ct) # (u ''x-pool-cache'', x) # pool_CORS)"
  "hasCors pool_CORS ((u ''content-type'', ct) # pool_CORS)"
  by (simp_all add: hasCors_def pool_CORS_def)

lemma cors_set: "hasCors pool_CORS (setHeader (u ''x-pool-cache'') x (setHeaders pool_CORS hs))"
proof -
  have "k \<noteq> u ''x-pool-cache''" if "(k, v) \<in> set pool_CORS" for k v
    using that by (auto simp: pool_CORS_def)
  then show ?thesis
    using cors_distinct by (auto simp: hasCors_def map_of_setHeader map_of_setHeaders)
qed

lemma poolUnreachable_faithful: "poolUnreachable e = Inr resp \<Longrightarrow> poolFaithful out req resp"
  using newResponse_ok by (fastforce simp: poolUnreachable_def poolFaithful_def)

lemma guards_poolAnswer:
  assumes "answered out (poolOriginRequest req) y" "key = poolCacheKey req"
  shows "pool_guards out (poolFaithful out req) (poolAnswer key y)"
proof -
  have entry: "poolEntry out k r"
    if "key = Some (k, ttl)" "hres_status y < 400" "readBody y = Inr b" "poolCached b ct ttl = Inr r" for k ttl b ct r
  proof -
    have k: "k = u ''https://pool-cache.local'' @ hreq_path req @ hreq_search req" "hreq_method req = u ''GET''"
      using that(1) assms(2) by (auto simp: poolCacheKey_def split: if_splits option.splits)
    have "hres_status r = 200" "hres_body r = Some (Inr b)"
      using newResponse_ok [OF that(4) [unfolded poolCached_def]] by simp_all
    then show ?thesis
      using assms(1) that k unfolding poolEntry_def poolOriginRequest_def
      by (intro exI [of _ "hreq_path req @ hreq_search req"] exI) auto
  qed
  have final: "poolFaithful out req resp"
    if "readBody y = Inr b" "newResponse (Some (Inr b)) (hres_status y)
          ((u ''content-type'', ct) # (u ''x-pool-cache'', x) # pool_CORS) = Inr resp" for b ct x resp
  proof -
    have "(poolOriginRequest req)\<lparr>oreq_type := oreq_type (poolOriginRequest req)\<rparr> = poolOriginRequest req" by simp
    then show ?thesis
      using newResponse_ok [OF that(2)] that(1) assms(1) cors_new(1) unfolding poolFaithful_def by metis
  qed
  show ?thesis
  proof (cases key)
    case None
    show ?thesis unfolding poolAnswer_def None by (simp add: edge_guards Let_def) (blast intro: final)
  next
    case (Some kt)
    obtain k ttl where kt: "kt = (k, ttl)" by force
    show ?thesis
      unfolding poolAnswer_def Some kt
      by (simp add: edge_guards poolWorkOk_def Let_def) (blast intro: final entry [OF Some [unfolded kt]])
  qed
qed

lemma guards_poolForward:
  "key = poolCacheKey req \<Longrightarrow> pool_guards out (poolFaithful out req) (poolForward key req)"
  unfolding poolForward_def guards_bindP
  by (rule guards_catchP) (auto simp: edge_guards poolUnreachable_faithful intro: guards_poolAnswer)

lemma poolHit_faithful:
  assumes "poolEntry out k h" "poolCacheKey req = Some (k, ttl)" "poolHit h = Inr resp"
  shows "poolFaithful out req resp"
proof -
  obtain url ct y b where e: "k = u ''https://pool-cache.local'' @ url"
      "answered out \<lparr>oreq_url = ORIGIN @ url, oreq_method = u ''GET'', oreq_type = ct, oreq_body = None\<rparr> y"
      "hres_status y < 400" "readBody y = Inr b" "hres_status h = 200" "hres_body h = Some (Inr b)"
    using assms(1) by (auto simp: poolEntry_def)
  have k: "url = hreq_path req @ hreq_search req" "hreq_method req = u ''GET''"
    using assms(2) e(1) by (auto simp: poolCacheKey_def split: if_splits option.splits)
  have "answered out ((poolOriginRequest req)\<lparr>oreq_type := ct\<rparr>) y" using e(2) k by (simp add: poolOriginRequest_def)
  moreover obtain r where "newResponse (Some (Inr b)) 200 (hres_headers h) = Inr r"
      "resp = r\<lparr>hres_headers := setHeader (u ''x-pool-cache'') (u ''HIT'') (setHeaders pool_CORS (hres_headers r))\<rparr>"
    using assms(3) e(5,6) by (auto simp: poolHit_def bindR_eq_Inr)
  ultimately show ?thesis
    using e(3,4) assms(2) newResponse_ok cors_set unfolding poolFaithful_def by fastforce
qed

lemma guards_pool_fetch:
  "pool_guards out (\<lambda>resp. proxied req \<longrightarrow> poolFaithful out req resp) (pool_fetch req)"
proof (cases "proxied req")
  case False
  then show ?thesis by (auto simp: pool_fetch_def proxied_def edge_guards)
next
  case True
  then show ?thesis
    by (auto simp: pool_fetch_def proxied_def edge_guards split: option.splits
        intro: guards_poolForward poolHit_faithful)
qed

lemma guards_poolWork: "poolWorkOk out t \<Longrightarrow> pool_guards out (\<lambda>_. True) (poolWork t)"
  by (cases t) (simp add: poolWork_def poolWorkOk_def edge_guards)

text \<open>What is known of a result, by the label of the program.\<close>

definition poolResult :: "'s edge \<Rightarrow> (http_request, pool_task) edge_label \<Rightarrow> http_response option \<Rightarrow> bool" where
  "poolResult out l x =
     (case (l, x) of (Request req, Some resp) \<Rightarrow> proxied req \<longrightarrow> poolFaithful out req resp | _ \<Rightarrow> True)"

interpretation pools: service "edge_handle out" "edge_inv out (poolEntry out) (poolWorkOk out)"
    "edge_promise (poolEntry out) (poolWorkOk out)" "edge_rely out (poolEntry out)"
    "edge_start poolRequest poolTask" "poolResult out"
  for out :: "'s edge"
proof
  fix w w' :: "('s, pool_task) edge_world" and l p
  assume inv: "edge_inv out (poolEntry out) (poolWorkOk out) w" and st: "edge_start poolRequest poolTask w l p w'"
  show "edge_inv out (poolEntry out) (poolWorkOk out) w' \<and> pool_guards out (poolResult out l) p"
  proof (cases l)
    case (Request req)
    then show ?thesis
      using inv st guards_pool_fetch [of out req]
      by (simp add: edge_start_def poolRequest_def poolResult_def guards_bindP)
  next
    case (Work t)
    then have "poolWorkOk out t" using inv st by (auto simp: edge_start_def edge_inv_def)
    then show ?thesis
      using Work inv st guards_poolWork [of out t] notin_set_remove1
      by (auto simp: edge_start_def poolTask_def poolResult_def guards_bindP edge_inv_def)
  qed
qed

section \<open>Requests that are not cached\<close>

end
