(* ===== verification/Json_Parse.thy ===== *)
theory Json_Parse
  imports Json
begin

text \<open>
  \<open>JSON.parse\<close>: white space, literals, numbers read exactly and rounded to the nearest double,
  strings with their escapes, arrays, and objects in which a repeated key keeps its first place
  and its last value. The parser descends with a bound; each level consumes a unit, so that the
  length of the text is enough and more makes no difference.
\<close>

section \<open>Tokens\<close>

definition isJsonSpace :: "nat \<Rightarrow> bool" where
  "isJsonSpace c \<longleftrightarrow> c = 9 \<or> c = 10 \<or> c = 13 \<or> c = 32"

definition skipSpace :: "ustring \<Rightarrow> ustring" where
  "skipSpace s = dropWhile isJsonSpace s"

definition isDecimal :: "nat \<Rightarrow> bool" where
  "isDecimal c \<longleftrightarrow> 48 \<le> c \<and> c \<le> 57"

subsection \<open>Numbers\<close>

text \<open>The digits before the point: a zero alone, or digits that do not begin with one.\<close>

definition parseWhole :: "ustring \<Rightarrow> (ustring \<times> ustring) option" where
  "parseWhole s =
     (case s of
        [] \<Rightarrow> None
      | c # t \<Rightarrow>
          if c = 48 then Some ([c], t)
          else if isDecimal c then Some (takeWhile isDecimal s, dropWhile isDecimal s)
          else None)"

definition parseFraction :: "ustring \<Rightarrow> (ustring \<times> ustring) option" where
  "parseFraction s =
     (case s of
        [] \<Rightarrow> Some ([], s)
      | c # t \<Rightarrow>
          if c = 46
          then if takeWhile isDecimal t = [] then None
               else Some (takeWhile isDecimal t, dropWhile isDecimal t)
          else Some ([], s))"

definition parseExponent :: "ustring \<Rightarrow> (int \<times> ustring) option" where
  "parseExponent s =
     (case s of
        [] \<Rightarrow> Some (0, s)
      | c # t \<Rightarrow>
          if c = 101 \<or> c = 69
          then let neg = (t \<noteq> [] \<and> hd t = 45);
                   r = (if t \<noteq> [] \<and> (hd t = 45 \<or> hd t = 43) then tl t else t);
                   ds = takeWhile isDecimal r
               in if ds = [] then None
                  else Some (if neg then - int (digitsValue 10 ds) else int (digitsValue 10 ds),
                             dropWhile isDecimal r)
          else Some (0, s))"

definition parseNumber :: "ustring \<Rightarrow> (jsnum \<times> ustring) option" where
  "parseNumber s =
     (let neg = (s \<noteq> [] \<and> hd s = 45)
      in case parseWhole (if neg then tl s else s) of
           None \<Rightarrow> None
         | Some (whole, s1) \<Rightarrow>
             (case parseFraction s1 of
                None \<Rightarrow> None
              | Some (fd, s2) \<Rightarrow>
                  (case parseExponent s2 of
                     None \<Rightarrow> None
                   | Some (e, s3) \<Rightarrow>
                       let x = of_nat (digitsValue 10 (whole @ fd)) * 10 powi (e - int (length fd))
                       in Some (toDouble (if neg then - x else x), s3))))"

subsection \<open>Strings\<close>

definition parseHex4 :: "ustring \<Rightarrow> (nat \<times> ustring) option" where
  "parseHex4 s =
     (if length s \<ge> 4 \<and> (\<forall>c \<in> set (take 4 s). isRadixDigit 16 c)
      then Some (digitsValue 16 (take 4 s), drop 4 s) else None)"

text \<open>What follows a backslash: the unit it stands for.\<close>

definition parseEscape :: "ustring \<Rightarrow> (nat \<times> ustring) option" where
  "parseEscape s =
     (case s of
        [] \<Rightarrow> None
      | c # t \<Rightarrow>
          if c = 34 \<or> c = 92 \<or> c = 47 then Some (c, t)
          else if c = 98 then Some (8, t)
          else if c = 102 then Some (12, t)
          else if c = 110 then Some (10, t)
          else if c = 114 then Some (13, t)
          else if c = 116 then Some (9, t)
          else if c = 117 then parseHex4 t
          else None)"

lemma parseEscape_length: "parseEscape s = Some (c, t) \<Longrightarrow> length t < length s"
  by (auto simp: parseEscape_def parseHex4_def split: list.splits if_splits)

text \<open>The rest of a string after its opening quotation mark.\<close>

function parseString :: "ustring \<Rightarrow> (ustring \<times> ustring) option" where
  "parseString [] = None"
| "parseString (c # s) =
     (if c = 34 then Some ([], s)
      else if c < 32 then None
      else if c = 92
        then case parseEscape s of
               None \<Rightarrow> None
             | Some (d, t) \<Rightarrow> map_option (\<lambda>(r, t'). (d # r, t')) (parseString t)
      else map_option (\<lambda>(r, t'). (c # r, t')) (parseString s))"
  by pat_completeness auto
termination
  by (relation "measure length") (auto dest: parseEscape_length)

section \<open>Values\<close>

definition parseLiteral :: "ustring \<Rightarrow> (json \<times> ustring) option" where
  "parseLiteral s =
     (if startsWith (u ''null'') s then Some (JNull, drop 4 s)
      else if startsWith (u ''true'') s then Some (JBool True, drop 4 s)
      else if startsWith (u ''false'') s then Some (JBool False, drop 5 s)
      else map_option (\<lambda>(n, t). (JNum n, t)) (parseNumber s))"

text \<open>
  \<open>parseElems\<close> is within an array before an element, \<open>parseMembers\<close> within an object before a
  key, with the members so far.
\<close>

fun parseValue :: "nat \<Rightarrow> ustring \<Rightarrow> (json \<times> ustring) option"
  and parseElems :: "nat \<Rightarrow> ustring \<Rightarrow> (json list \<times> ustring) option"
  and parseMembers :: "nat \<Rightarrow> (ustring \<times> json) list \<Rightarrow> ustring \<Rightarrow> ((ustring \<times> json) list \<times> ustring) option"
where
  "parseValue 0 s = None"
| "parseValue (Suc n) s =
     (case skipSpace s of
        [] \<Rightarrow> None
      | c # t \<Rightarrow>
          if c = 123
          then if skipSpace t \<noteq> [] \<and> hd (skipSpace t) = 125 then Some (JObj [], tl (skipSpace t))
               else map_option (\<lambda>(kvs, r). (JObj kvs, r)) (parseMembers n [] t)
          else if c = 91
          then if skipSpace t \<noteq> [] \<and> hd (skipSpace t) = 93 then Some (JArr [], tl (skipSpace t))
               else map_option (\<lambda>(vs, r). (JArr vs, r)) (parseElems n t)
          else if c = 34 then map_option (\<lambda>(x, r). (JStr x, r)) (parseString t)
          else parseLiteral (c # t))"
| "parseElems 0 s = None"
| "parseElems (Suc n) s =
     (case parseValue n s of
        None \<Rightarrow> None
      | Some (v, t) \<Rightarrow>
          (case skipSpace t of
             [] \<Rightarrow> None
           | c # r \<Rightarrow>
               if c = 93 then Some ([v], r)
               else if c = 44 then map_option (\<lambda>(vs, r'). (v # vs, r')) (parseElems n r)
               else None))"
| "parseMembers 0 acc s = None"
| "parseMembers (Suc n) acc s =
     (case skipSpace s of
        [] \<Rightarrow> None
      | q # s1 \<Rightarrow>
          if q \<noteq> 34 then None
          else case parseString s1 of
            None \<Rightarrow> None
          | Some (k, s2) \<Rightarrow>
              (case skipSpace s2 of
                 [] \<Rightarrow> None
               | c # s3 \<Rightarrow>
                   if c \<noteq> 58 then None
                   else case parseValue n s3 of
                     None \<Rightarrow> None
                   | Some (v, s4) \<Rightarrow>
                       (case skipSpace s4 of
                          [] \<Rightarrow> None
                        | d # s5 \<Rightarrow>
                            if d = 125 then Some (objSet k v acc, s5)
                            else if d = 44 then parseMembers n (objSet k v acc) s5
                            else None)))"

definition jsonParse :: "ustring \<Rightarrow> json res" where
  "jsonParse s =
     (case parseValue (length s + 1) s of
        None \<Rightarrow> Inl SyntaxError
      | Some (v, t) \<Rightarrow> if skipSpace t = [] then Inr v else Inl SyntaxError)"

section \<open>The bound is enough\<close>

lemma skipSpace_length: "skipSpace s = c # t \<Longrightarrow> length t < length s"
proof -
  assume "skipSpace s = c # t"
  moreover have "length (skipSpace s) \<le> length s" by (simp add: skipSpace_def length_dropWhile_le)
  ultimately show "length t < length s" by simp
qed

lemma parseString_length: "parseString s = Some (x, t) \<Longrightarrow> length t < length s"
proof (induction s arbitrary: x rule: parseString.induct)
  case (2 c s)
  then show ?case by (fastforce split: if_splits option.splits dest: parseEscape_length)
qed simp

lemma parseWhole_length: "parseWhole s = Some (d, t) \<Longrightarrow> length t < length s"
  by (auto simp: parseWhole_def length_dropWhile_le le_imp_less_Suc split: list.splits if_splits)

lemma parseFraction_length: "parseFraction s = Some (d, t) \<Longrightarrow> length t \<le> length s"
  by (auto simp: parseFraction_def length_dropWhile_le le_SucI split: list.splits if_splits)

lemma parseExponent_length: "parseExponent s = Some (d, t) \<Longrightarrow> length t \<le> length s"
proof (cases s)
  case (Cons c r)
  assume e: "parseExponent s = Some (d, t)"
  have "length (dropWhile isDecimal r) \<le> length r" "length (dropWhile isDecimal (tl r)) \<le> length r"
    using length_dropWhile_le [of isDecimal r] length_dropWhile_le [of isDecimal "tl r"] by auto
  then show ?thesis using e Cons by (auto simp: parseExponent_def Let_def split: if_splits)
qed (simp add: parseExponent_def)

lemma parseNumber_length:
  assumes "parseNumber s = Some (x, t)"
  shows "length t < length s"
proof -
  let ?s = "if s \<noteq> [] \<and> hd s = 45 then tl s else s"
  obtain w s1 f s2 e where "parseWhole ?s = Some (w, s1)" "parseFraction s1 = Some (f, s2)"
      "parseExponent s2 = Some (e, t)"
    using assms by (auto simp: parseNumber_def Let_def split: option.splits)
  then have "length t < length ?s"
    using parseWhole_length parseFraction_length parseExponent_length by fastforce
  then show ?thesis by (cases s) (auto split: if_splits)
qed

lemma parseLiteral_length: "parseLiteral s = Some (v, t) \<Longrightarrow> length t < length s"
  by (auto simp: parseLiteral_def startsWith_iff split: if_splits dest: parseNumber_length)

text \<open>The three parsers as relations between a text, a value and what is left.\<close>

lemma parseElems_iff:
  "parseElems (Suc n) s = Some (vs, t) \<longleftrightarrow>
     (\<exists>v s1 c s2. parseValue n s = Some (v, s1) \<and> skipSpace s1 = c # s2 \<and>
        (c = 93 \<and> vs = [v] \<and> t = s2 \<or>
         c = 44 \<and> (\<exists>ws. parseElems n s2 = Some (ws, t) \<and> vs = v # ws)))"
  by (auto split: option.splits list.splits)

lemma parseMembers_iff:
  "parseMembers (Suc n) acc s = Some (kvs, t) \<longleftrightarrow>
     (\<exists>s1 k s2 s3 v s4 c s5. skipSpace s = 34 # s1 \<and> parseString s1 = Some (k, s2) \<and>
        skipSpace s2 = 58 # s3 \<and> parseValue n s3 = Some (v, s4) \<and> skipSpace s4 = c # s5 \<and>
        (c = 125 \<and> kvs = objSet k v acc \<and> t = s5 \<or>
         c = 44 \<and> parseMembers n (objSet k v acc) s5 = Some (kvs, t)))"
  by (auto split: option.splits list.splits)

lemma parseValue_iff:
  "parseValue (Suc n) s = Some (v, t) \<longleftrightarrow>
     (\<exists>c r. skipSpace s = c # r \<and>
        (if c = 123
         then if skipSpace r \<noteq> [] \<and> hd (skipSpace r) = 125 then v = JObj [] \<and> t = tl (skipSpace r)
              else \<exists>kvs. parseMembers n [] r = Some (kvs, t) \<and> v = JObj kvs
         else if c = 91
         then if skipSpace r \<noteq> [] \<and> hd (skipSpace r) = 93 then v = JArr [] \<and> t = tl (skipSpace r)
              else \<exists>vs. parseElems n r = Some (vs, t) \<and> v = JArr vs
         else if c = 34 then \<exists>x. parseString r = Some (x, t) \<and> v = JStr x
         else parseLiteral (c # r) = Some (v, t)))"
proof (cases "skipSpace s")
  case (Cons c r)
  then show ?thesis
    by (cases "c = 123"; cases "c = 91"; cases "c = 34") (simp_all, metis+)
qed simp

declare parseValue.simps(2) [simp del] parseElems.simps(2) [simp del] parseMembers.simps(2) [simp del]

lemma skipSpace_le: "length (skipSpace s) \<le> length s"
  by (simp add: skipSpace_def length_dropWhile_le)

lemma parse_consumes:
  "parseValue n s = Some (v, t) \<Longrightarrow> length t < length s"
  "parseElems n s = Some (vs, t) \<Longrightarrow> length t < length s"
  "parseMembers n acc s = Some (kvs, t) \<Longrightarrow> length t < length s"
proof (induction n arbitrary: s v t vs acc kvs)
  case 0
  {
    case 1 then show ?case by simp
  next
    case 2 then show ?case by simp
  next
    case 3 then show ?case by simp
  }
next
  case (Suc n)
  {
    case 1
    then obtain c r where r: "skipSpace s = c # r" unfolding parseValue_iff by blast
    have len: "length r < length s" "length (tl (skipSpace r)) \<le> length r"
      using skipSpace_length [OF r] skipSpace_le [of r] by auto
    consider "\<exists>kvs. parseMembers n [] r = Some (kvs, t)" | "\<exists>vs. parseElems n r = Some (vs, t)"
      | "t = tl (skipSpace r)" | "\<exists>x. parseString r = Some (x, t)" | "parseLiteral (c # r) = Some (v, t)"
      using 1 r unfolding parseValue_iff by (auto split: if_splits)
    then have "length t \<le> length r"
    proof cases
      case 1 then show ?thesis using Suc(3) by (meson less_imp_le)
    next
      case 2 then show ?thesis using Suc(2) by (meson less_imp_le)
    next
      case 3 then show ?thesis using len(2) by simp
    next
      case 4 then show ?thesis using parseString_length by (meson less_imp_le)
    next
      case 5 then show ?thesis using parseLiteral_length by fastforce
    qed
    then show ?case using len(1) by simp
  next
    case 2
    then show ?case
      using Suc unfolding parseElems_iff by (meson less_trans skipSpace_length)
  next
    case 3
    then show ?case
      using Suc unfolding parseMembers_iff by (meson less_trans skipSpace_length parseString_length)
  }
qed

lemma parse_enough:
  "parseValue m s = Some (v, t) \<Longrightarrow> length s < n + length t \<Longrightarrow> parseValue n s = Some (v, t)"
  "parseElems m s = Some (vs, t) \<Longrightarrow> length s < n + length t \<Longrightarrow> parseElems n s = Some (vs, t)"
  "parseMembers m acc s = Some (kvs, t) \<Longrightarrow> length s < n + length t \<Longrightarrow> parseMembers n acc s = Some (kvs, t)"
proof (induction m arbitrary: n s v t vs acc kvs)
  case 0
  {
    case 1 then show ?case by simp
  next
    case 2 then show ?case by simp
  next
    case 3 then show ?case by simp
  }
next
  case (Suc m)
  {
    case 1
    then obtain n' where n: "n = Suc n'" using parse_consumes(1) [OF 1(1)] by (cases n) auto
    obtain c r where r: "skipSpace s = c # r" using 1(1) unfolding parseValue_iff by blast
    have len: "length r < n' + length t" using skipSpace_length [OF r] 1(2) n by simp
    have "parseMembers m [] r = Some (kvs, t) \<Longrightarrow> parseMembers n' [] r = Some (kvs, t)" for kvs
      using Suc(3) len by blast
    moreover have "parseElems m r = Some (vs, t) \<Longrightarrow> parseElems n' r = Some (vs, t)" for vs
      using Suc(2) len by blast
    ultimately show ?case using 1(1) r unfolding n parseValue_iff by (auto split: if_splits)
  next
    case 2
    then obtain n' where n: "n = Suc n'" using parse_consumes(2) [OF 2(1)] by (cases n) auto
    obtain v s1 c s2 where v: "parseValue m s = Some (v, s1)" "skipSpace s1 = c # s2"
      and rest: "c = 93 \<and> vs = [v] \<and> t = s2 \<or>
         c = 44 \<and> (\<exists>ws. parseElems m s2 = Some (ws, t) \<and> vs = v # ws)"
      using 2(1) unfolding parseElems_iff by blast
    have len: "length s1 < length s" "length s2 < length s1" "length t \<le> length s2"
      using parse_consumes(1) [OF v(1)] skipSpace_length [OF v(2)] rest parse_consumes(2) by (auto intro: less_imp_le)
    have "parseValue n' s = Some (v, s1)" using Suc(1) [OF v(1), of n'] len 2(2) n by simp
    moreover have "parseElems m s2 = Some (ws, t) \<Longrightarrow> parseElems n' s2 = Some (ws, t)" for ws
      using Suc(2) [of s2 ws t n'] len 2(2) n by simp
    ultimately show ?case using v(2) rest unfolding n parseElems_iff by blast
  next
    case 3
    then obtain n' where n: "n = Suc n'" using parse_consumes(3) [OF 3(1)] by (cases n) auto
    obtain s1 k s2 s3 v s4 c s5 where s: "skipSpace s = 34 # s1" "parseString s1 = Some (k, s2)"
        "skipSpace s2 = 58 # s3" and v: "parseValue m s3 = Some (v, s4)" "skipSpace s4 = c # s5"
      and rest: "c = 125 \<and> kvs = objSet k v acc \<and> t = s5 \<or>
         c = 44 \<and> parseMembers m (objSet k v acc) s5 = Some (kvs, t)"
      using 3(1) unfolding parseMembers_iff by blast
    have len: "length s3 < length s" "length s4 < length s3" "length s5 < length s4" "length t \<le> length s5"
      using skipSpace_length [OF s(1)] parseString_length [OF s(2)] skipSpace_length [OF s(3)]
        parse_consumes(1) [OF v(1)] skipSpace_length [OF v(2)] rest parse_consumes(3) by (auto intro: less_imp_le)
    have "parseValue n' s3 = Some (v, s4)" using Suc(1) [OF v(1), of n'] len 3(2) n by simp
    moreover have "parseMembers m (objSet k v acc) s5 = Some (kvs, t) \<Longrightarrow>
        parseMembers n' (objSet k v acc) s5 = Some (kvs, t)"
      using Suc(3) [of "objSet k v acc" s5 kvs t n'] len 3(2) n by simp
    ultimately show ?case using s v(2) rest unfolding n parseMembers_iff by blast
  }
qed

lemma jsonParse_enough:
  assumes "parseValue n s = Some (v, t)" "skipSpace t = []"
  shows "jsonParse s = Inr v"
  using parse_enough(1) [OF assms(1), of "length s + 1"] assms(2) by (simp add: jsonParse_def)

end
