(* ===== verification/Js_Format.thy ===== *)
theory Js_Format
  imports Json_Parse
begin

text \<open>
  Numbers as the pages and the statistics use them: arithmetic on all values of the type, the
  conversion of a value to a number, \<open>toFixed\<close>, \<open>encodeURIComponent\<close>, and how a value becomes text
  in a concatenation or in \<open>textContent\<close>.
\<close>

declare u_simps [simp del]

section \<open>Arithmetic\<close>

definition numAdd :: "jsnum \<Rightarrow> jsnum \<Rightarrow> jsnum" where
  "numAdd a b =
     (case (a, b) of
        (Fin x, Fin y) \<Rightarrow> toDouble (x + y)
      | (NaN, _) \<Rightarrow> NaN
      | (_, NaN) \<Rightarrow> NaN
      | (PInf, NInf) \<Rightarrow> NaN
      | (NInf, PInf) \<Rightarrow> NaN
      | (Fin x, c) \<Rightarrow> c
      | (c, _) \<Rightarrow> c)"

text \<open>\<open>a * 100\<close>.\<close>

definition numTimes100 :: "jsnum \<Rightarrow> jsnum" where
  "numTimes100 a = (case a of Fin x \<Rightarrow> toDouble (x * 100) | c \<Rightarrow> c)"

text \<open>\<open>a / b\<close> for a positive \<open>b\<close>.\<close>

definition numDivPos :: "jsnum \<Rightarrow> jsnum \<Rightarrow> jsnum" where
  "numDivPos a b =
     (case (a, b) of
        (Fin x, Fin y) \<Rightarrow> toDouble (x / y)
      | (Fin x, PInf) \<Rightarrow> Fin 0
      | (PInf, Fin y) \<Rightarrow> PInf
      | (NInf, Fin y) \<Rightarrow> NInf
      | _ \<Rightarrow> NaN)"

text \<open>\<open>a % b\<close> for \<open>a\<close> that is not negative and a positive finite \<open>b\<close>; the remainder is exact.\<close>

definition numRem :: "jsnum \<Rightarrow> rat \<Rightarrow> jsnum" where
  "numRem a b = (case a of Fin x \<Rightarrow> Fin (x - of_int \<lfloor>x / b\<rfloor> * b) | _ \<Rightarrow> NaN)"

definition numFloor :: "jsnum \<Rightarrow> jsnum" where
  "numFloor a = (case a of Fin x \<Rightarrow> Fin (of_int \<lfloor>x\<rfloor>) | c \<Rightarrow> c)"

definition numLess :: "jsnum \<Rightarrow> jsnum \<Rightarrow> bool" where
  "numLess a b =
     (case (a, b) of
        (Fin x, Fin y) \<Rightarrow> x < y
      | (NaN, _) \<Rightarrow> False
      | (_, NaN) \<Rightarrow> False
      | (NInf, NInf) \<Rightarrow> False
      | (NInf, _) \<Rightarrow> True
      | (PInf, _) \<Rightarrow> False
      | (_, PInf) \<Rightarrow> True
      | (_, NInf) \<Rightarrow> False)"

definition numMin :: "jsnum \<Rightarrow> jsnum \<Rightarrow> jsnum" where
  "numMin a b = (if a = NaN \<or> b = NaN then NaN else if numLess b a then b else a)"

definition numMax :: "jsnum \<Rightarrow> jsnum \<Rightarrow> jsnum" where
  "numMax a b = (if a = NaN \<or> b = NaN then NaN else if numLess a b then b else a)"

definition numPositive :: "jsnum \<Rightarrow> bool" where
  "numPositive a = (case a of Fin x \<Rightarrow> 0 < x | PInf \<Rightarrow> True | _ \<Rightarrow> False)"

section \<open>Text\<close>

text \<open>\<open>a.toFixed(f)\<close>: of two candidates equally near the larger one.\<close>

definition toFixed :: "nat \<Rightarrow> jsnum \<Rightarrow> ustring" where
  "toFixed f a =
     (case a of
        Fin x \<Rightarrow>
          if 10 ^ 21 \<le> \<bar>x\<bar> then numToString a
          else let m = padStart (f + 1) 48 (natToString (nat \<lfloor>\<bar>x\<bar> * 10 ^ f + 1 / 2\<rfloor>));
                   k = length m - f
               in (if x < 0 then u ''-'' else []) @
                  (if f = 0 then m else take k m @ u ''.'' @ drop k m)
      | _ \<Rightarrow> numToString a)"

text \<open>A value in a concatenation, and a value assigned to \<open>textContent\<close>.\<close>

definition strOf :: "json option \<Rightarrow> ustring res" where
  "strOf v = (case v of None \<Rightarrow> Inr (u ''undefined'') | Some w \<Rightarrow> jsToString w)"

definition domText :: "json option \<Rightarrow> ustring res" where
  "domText v = (case v of None \<Rightarrow> Inr [] | Some w \<Rightarrow> if w = JNull then Inr [] else jsToString w)"

text \<open>\<open>v || d\<close> for a string \<open>d\<close>.\<close>

definition orText :: "json option \<Rightarrow> ustring \<Rightarrow> json" where
  "orText v d = (if truthy v then the v else JStr d)"

text \<open>\<open>v[i]\<close>.\<close>

definition indexProp :: "json option \<Rightarrow> nat \<Rightarrow> json option res" where
  "indexProp v i =
     (case v of
        None \<Rightarrow> Inl TypeError
      | Some JNull \<Rightarrow> Inl TypeError
      | Some (JArr vs) \<Rightarrow> Inr (if i < length vs then Some (vs ! i) else None)
      | Some (JStr s) \<Rightarrow> Inr (if i < length s then Some (JStr [s ! i]) else None)
      | Some (JObj kvs) \<Rightarrow> Inr (map_of kvs (natToString i))
      | Some _ \<Rightarrow> Inr None)"

section \<open>Conversion to a number\<close>

definition digitsOnly :: "nat \<Rightarrow> ustring \<Rightarrow> jsnum" where
  "digitsOnly r s =
     (if s \<noteq> [] \<and> (\<forall>c \<in> set s. isRadixDigit r c) then toDouble (of_nat (digitsValue r s)) else NaN)"

definition unsignedDecimal :: "ustring \<Rightarrow> rat option" where
  "unsignedDecimal s =
     (let whole = takeWhile isDecimal s; t = dropWhile isDecimal s;
          pt = (t \<noteq> [] \<and> hd t = 46);
          fd = (if pt then takeWhile isDecimal (tl t) else []);
          t' = (if pt then dropWhile isDecimal (tl t) else t)
      in if whole @ fd = [] then None
         else case parseExponent t' of
                Some (e, []) \<Rightarrow> Some (of_nat (digitsValue 10 (whole @ fd)) * 10 powi (e - int (length fd)))
              | _ \<Rightarrow> None)"

definition stringToNumber :: "ustring \<Rightarrow> jsnum" where
  "stringToNumber s =
     (let t = trim s;
          neg = (t \<noteq> [] \<and> hd t = 45);
          r = (if t \<noteq> [] \<and> (hd t = 45 \<or> hd t = 43) then tl t else t)
      in if t = [] then Fin 0
         else if take 2 t \<in> {u ''0x'', u ''0X''} then digitsOnly 16 (drop 2 t)
         else if take 2 t \<in> {u ''0o'', u ''0O''} then digitsOnly 8 (drop 2 t)
         else if take 2 t \<in> {u ''0b'', u ''0B''} then digitsOnly 2 (drop 2 t)
         else if r = u ''Infinity'' then (if neg then NInf else PInf)
         else case unsignedDecimal r of
                None \<Rightarrow> NaN
              | Some x \<Rightarrow> toDouble (if neg then - x else x))"

definition toNumber :: "json option \<Rightarrow> jsnum res" where
  "toNumber v =
     (case v of
        None \<Rightarrow> Inr NaN
      | Some JNull \<Rightarrow> Inr (Fin 0)
      | Some (JBool b) \<Rightarrow> Inr (Fin (if b then 1 else 0))
      | Some (JNum n) \<Rightarrow> Inr n
      | Some w \<Rightarrow> bindR (jsToString w) (\<lambda>s. Inr (stringToNumber s)))"

section \<open>Addresses of requests\<close>

definition upperHex :: "8 word \<Rightarrow> ustring" where
  "upperHex b = toUpperCase (padStart 2 48 (natToRadix 16 (unat b)))"

definition isUnreserved :: "nat \<Rightarrow> bool" where
  "isUnreserved c \<longleftrightarrow> isUpperAZ c \<or> isLowerAZ c \<or> isDecimal c \<or> c \<in> set (u ''-_.!~*'') \<or> c \<in> {39, 40, 41}"

text \<open>A lone surrogate throws an \<open>URIError\<close>.\<close>

definition encodeURIComponent :: "ustring \<Rightarrow> ustring res" where
  "encodeURIComponent s =
     (if wellFormed s
      then Inr (concat (map (\<lambda>b. if isUnreserved (unat b) then [unat b] else u ''%'' @ upperHex b) (utf8Encode s)))
      else Inl (Error (u ''URI malformed'')))"

end
