(* ===== verification/Js_Date.thy ===== *)
theory Js_Date
  imports Js_String
begin

text \<open>
  The day of a time in milliseconds, as \<open>toISOString().slice(0, 10)\<close> gives it: the proleptic
  Gregorian date in universal time, with a sign and six digits for the years from 10000. Two
  times give the same text exactly when they are on the same day, up to the year 9999.
\<close>

definition isLeap :: "nat \<Rightarrow> bool" where
  "isLeap y \<longleftrightarrow> y mod 4 = 0 \<and> (y mod 100 \<noteq> 0 \<or> y mod 400 = 0)"

definition daysInYear :: "nat \<Rightarrow> nat" where
  "daysInYear y = (if isLeap y then 366 else 365)"

definition monthLengths :: "nat \<Rightarrow> nat list" where
  "monthLengths y = [31, if isLeap y then 29 else 28, 31, 30, 31, 30, 31, 31, 30, 31, 30, 31]"

text \<open>The year and the day within it of the day that many days after the start of a year.\<close>

function yearFrom :: "nat \<Rightarrow> nat \<Rightarrow> nat \<times> nat" where
  "yearFrom y d = (if d < daysInYear y then (y, d) else yearFrom (y + 1) (d - daysInYear y))"
  by pat_completeness auto
termination
  by (relation "measure snd") (auto simp: daysInYear_def split: if_splits)

declare yearFrom.simps [simp del]

text \<open>The month, from 1, and the day of the month, from 1.\<close>

fun monthFrom :: "nat \<Rightarrow> nat list \<Rightarrow> nat \<Rightarrow> nat \<times> nat" where
  "monthFrom m [] d = (m, d + 1)"
| "monthFrom m (l # ls) d = (if d < l then (m, d + 1) else monthFrom (m + 1) ls (d - l))"

definition isoDay :: "nat \<Rightarrow> ustring" where
  "isoDay t =
     (let (y, d) = yearFrom 1970 (t div 86400000);
          (m, dd) = monthFrom 1 (monthLengths y) d;
          ys = (if y < 10000 then padStart 4 48 (natToString y) else u ''+'' @ padStart 6 48 (natToString y))
      in take 10 (ys @ u ''-'' @ padStart 2 48 (natToString m) @ u ''-'' @ padStart 2 48 (natToString dd)))"

section \<open>The day is determined by the text\<close>

fun dayNumber :: "nat list \<Rightarrow> nat \<Rightarrow> nat \<Rightarrow> nat" where
  "dayNumber [] m dd = dd - 1"
| "dayNumber (l # ls) m dd = (if m = 0 then dd - 1 else l + dayNumber ls (m - 1) dd)"

lemma monthFrom_bounds:
  "d < sum_list ls \<Longrightarrow> \<forall>l \<in> set ls. l \<le> 31 \<Longrightarrow> monthFrom m ls d = (m', dd) \<Longrightarrow>
     m \<le> m' \<and> m' < m + length ls \<and> 1 \<le> dd \<and> dd \<le> 31 \<and> dayNumber ls (m' - m) dd = d"
proof (induction ls arbitrary: m d)
  case (Cons l ls)
  show ?case
  proof (cases "d < l")
    case True
    then show ?thesis using Cons.prems by auto
  next
    case False
    then have "m + 1 \<le> m' \<and> m' < m + 1 + length ls \<and> 1 \<le> dd \<and> dd \<le> 31 \<and> dayNumber ls (m' - (m + 1)) dd = d - l"
      using Cons.IH [of "d - l" "m + 1"] Cons.prems by simp
    moreover from this have "m' - m \<noteq> 0" "m' - m - 1 = m' - (m + 1)" by simp_all
    ultimately show ?thesis using False by simp
  qed
qed simp

lemma sum_monthLengths: "sum_list (monthLengths y) = daysInYear y"
  by (simp add: monthLengths_def daysInYear_def)

lemma yearFrom_bounds:
  "yearFrom y d = (y', d') \<Longrightarrow> y \<le> y' \<and> d' < daysInYear y' \<and> d = (\<Sum>i = y..<y'. daysInYear i) + d'"
proof (induction y d rule: yearFrom.induct)
  case (1 y d)
  show ?case
  proof (cases "d < daysInYear y")
    case True
    then show ?thesis using "1.prems" by (simp add: yearFrom.simps [of y d])
  next
    case False
    then have r: "yearFrom (y + 1) (d - daysInYear y) = (y', d')"
      using "1.prems" by (simp add: yearFrom.simps [of y d])
    then have IH: "y + 1 \<le> y' \<and> d' < daysInYear y' \<and> d - daysInYear y = (\<Sum>i = y + 1..<y'. daysInYear i) + d'"
      using "1.IH" [OF False] by blast
    then have "(\<Sum>i = y..<y'. daysInYear i) = daysInYear y + (\<Sum>i = y + 1..<y'. daysInYear i)"
      by (simp add: sum.atLeast_Suc_lessThan)
    then show ?thesis using IH False by linarith
  qed
qed

lemma natToString_length: "n < 10 ^ k \<Longrightarrow> 0 < k \<Longrightarrow> length (natToString n) \<le> k"
proof (induction k arbitrary: n)
  case (Suc k)
  show ?case
  proof (cases "n < 10")
    case False
    then have "0 < k" using Suc.prems(1) by (cases k) simp_all
    moreover have "n div 10 < 10 ^ k" using Suc.prems(1) by (simp add: less_mult_imp_div_less mult.commute)
    ultimately show ?thesis using Suc.IH [of "n div 10"] False by (simp add: natToRadix_step)
  qed (simp add: natToRadix_small)
qed simp

lemma digitsValue_padded: "digitsValue 10 (replicate n 48 @ s) = digitsValue 10 s"
proof -
  have "foldl (\<lambda>n c. n * 10 + digitOr0 c) 0 (replicate n 48) = 0"
    by (induction n) (simp_all add: digitOr0_def digitVal_def)
  then show ?thesis by (simp add: digitsValue_def)
qed

lemma padStart_digits:
  assumes "n < 10 ^ k" "0 < k"
  shows "length (padStart k 48 (natToString n)) = k" "digitsValue 10 (padStart k 48 (natToString n)) = n"
  using natToString_length [OF assms] natToRadix_digits [of 10 n]
  by (simp_all add: padStart_def digitsValue_padded)

definition civil :: "nat \<Rightarrow> nat \<times> nat \<times> nat" where
  "civil n = (let (y, d) = yearFrom 1970 n; (m, dd) = monthFrom 1 (monthLengths y) d in (y, m, dd))"

lemma civil_inject: "civil n = civil n' \<Longrightarrow> n = n'"
proof -
  assume eq: "civil n = civil n'"
  obtain y d where y: "yearFrom 1970 n = (y, d)" by force
  obtain y' d' where y': "yearFrom 1970 n' = (y', d')" by force
  obtain m dd where m: "monthFrom 1 (monthLengths y) d = (m, dd)" by force
  have "monthFrom 1 (monthLengths y) d' = (m, dd)" "y' = y"
    using eq y y' m by (auto simp: civil_def split: prod.splits)
  moreover have "\<forall>l \<in> set (monthLengths y). l \<le> 31" by (simp add: monthLengths_def)
  moreover have "d < daysInYear y" "d' < daysInYear y'" using yearFrom_bounds y y' by blast+
  ultimately have "d = d'"
    using monthFrom_bounds [of d "monthLengths y" 1 m dd] monthFrom_bounds [of d' "monthLengths y" 1 m dd] m
    by (metis sum_monthLengths)
  then show "n = n'" using yearFrom_bounds [OF y] yearFrom_bounds [OF y'] \<open>y' = y\<close> by simp
qed

text \<open>The text of a day before the year 10000: three fields of fixed width.\<close>

lemma isoDay_fields:
  assumes "civil (t div 86400000) = (y, m, dd)" "y < 10000"
  shows "isoDay t = padStart 4 48 (natToString y) @ u ''-'' @ padStart 2 48 (natToString m) @ u ''-'' @
      padStart 2 48 (natToString dd)" "m < 100" "dd < 100"
proof -
  obtain d where y: "yearFrom 1970 (t div 86400000) = (y, d)" and m: "monthFrom 1 (monthLengths y) d = (m, dd)"
    using assms(1) by (auto simp: civil_def split: prod.splits)
  have "d < sum_list (monthLengths y)" using yearFrom_bounds [OF y] by (simp add: sum_monthLengths)
  moreover have "\<forall>l \<in> set (monthLengths y). l \<le> 31" "length (monthLengths y) = 12"
    by (simp_all add: monthLengths_def)
  ultimately have b: "m < 100" "dd < 100" using monthFrom_bounds [OF _ _ m] by auto
  then show "m < 100" "dd < 100" .
  have "length (padStart 4 48 (natToString y)) = 4" "length (padStart 2 48 (natToString m)) = 2"
      "length (padStart 2 48 (natToString dd)) = 2"
    using b assms(2) by (simp_all add: padStart_digits)
  then show "isoDay t = padStart 4 48 (natToString y) @ u ''-'' @ padStart 2 48 (natToString m) @ u ''-'' @
      padStart 2 48 (natToString dd)"
    using assms(2) m by (simp add: isoDay_def y)
qed

lemma isoDay_inject:
  assumes "fst (civil (t div 86400000)) < 10000" "fst (civil (t' div 86400000)) < 10000"
  shows "isoDay t = isoDay t' \<longleftrightarrow> t div 86400000 = t' div 86400000"
proof
  obtain y m dd where c: "civil (t div 86400000) = (y, m, dd)" by (metis prod_cases3)
  obtain y' m' dd' where c': "civil (t' div 86400000) = (y', m', dd')" by (metis prod_cases3)
  have b: "y < 10000" "y' < 10000" using assms c c' by simp_all
  note f = isoDay_fields [OF c b(1)] and f' = isoDay_fields [OF c' b(2)]
  assume "isoDay t = isoDay t'"
  then have "padStart 4 48 (natToString y) = padStart 4 48 (natToString y')"
      "padStart 2 48 (natToString m) = padStart 2 48 (natToString m')"
      "padStart 2 48 (natToString dd) = padStart 2 48 (natToString dd')"
    unfolding f(1) f'(1) using b f(2,3) f'(2,3) by (auto simp: padStart_digits append_eq_append_conv)
  then have "digitsValue 10 (padStart 4 48 (natToString y)) = digitsValue 10 (padStart 4 48 (natToString y'))"
      "digitsValue 10 (padStart 2 48 (natToString m)) = digitsValue 10 (padStart 2 48 (natToString m'))"
      "digitsValue 10 (padStart 2 48 (natToString dd)) = digitsValue 10 (padStart 2 48 (natToString dd'))"
    by simp_all
  then have "y = y'" "m = m'" "dd = dd'" using b f(2,3) f'(2,3) by (simp_all add: padStart_digits)
  then show "t div 86400000 = t' div 86400000" using c c' civil_inject by metis
qed (simp add: isoDay_def)

end
