(* ===== verification/Rpc_Stats.thy ===== *)
theory Rpc_Stats
  imports Edge Js_Format Js_Date
begin

text \<open>
  The statistics of the RPC proxy, \<^verbatim>\<open>cloudflare/glaciem-rpc-worker.js\<close>: the counter of calls per
  node and day, the fingerprint of a miner, and the page that shows them. Both counters are
  updated by work left for after the response. The namespace may be unbound, which the flag
  \<open>bound\<close> says.
\<close>

declare u_simps [simp del]

section \<open>Numbers\<close>

text \<open>\<open>parseInt(v || '0', 10) || 0\<close>.\<close>

definition counterOf :: "ustring option \<Rightarrow> jsnum" where
  "counterOf v =
     (case parseInt 10 (case v of None \<Rightarrow> u ''0'' | Some s \<Rightarrow> if s = [] then u ''0'' else s) of
        None \<Rightarrow> Fin 0
      | Some i \<Rightarrow> toDouble (of_int i))"

section \<open>Indented text\<close>

text \<open>\<open>JSON.stringify(v, null, 2)\<close>; the first argument is the indentation so far.\<close>

fun stringifyIndent :: "ustring \<Rightarrow> json \<Rightarrow> ustring" where
  "stringifyIndent ind (JArr vs) =
     (if vs = [] then u ''[]''
      else [91, 10] @ joinWith [44, 10] (map (\<lambda>v. ind @ [32, 32] @ stringifyIndent (ind @ [32, 32]) v) vs) @
           [10] @ ind @ [93])"
| "stringifyIndent ind (JObj kvs) =
     (if kvs = [] then u ''{}''
      else [123, 10] @ joinWith [44, 10]
             (map (\<lambda>(k, v). ind @ [32, 32] @ quoteJSON k @ [58, 32] @ stringifyIndent (ind @ [32, 32]) v) kvs) @
           [10] @ ind @ [125])"
| "stringifyIndent ind v = stringify v"

section \<open>Counters\<close>

text \<open>Work left for after a response.\<close>

datatype rpc_task =
    HitTask ustring
  | MinerTask ustring ustring
  | RpcPut ustring http_response

type_synonym 'a rpc = "(rpc_task, 'a) edge_prog"

definition hitKey :: "ustring \<Rightarrow> ustring \<Rightarrow> ustring" where
  "hitKey nodeId day = u ''nodehit:'' @ nodeId @ u '':'' @ day"

text \<open>
  The call of \<open>bumpHit\<close> within \<open>waitUntil\<close>: the key is made at once, from the day of the call; the
  namespace is read and written later.
\<close>

definition bumpHit :: "bool \<Rightarrow> ustring \<Rightarrow> unit rpc" where
  "bumpHit bound nodeId =
     (if \<not> bound then Ret ()
      else bindP edgeNow (\<lambda>t. waitUntil (HitTask (hitKey nodeId (isoDay t)))))"

definition hitWork :: "ustring \<Rightarrow> unit rpc" where
  "hitWork key =
     catchP (bindP (statsGet key) (\<lambda>v.
             statsPut key (numToString (numAdd (counterOf v) (Fin 1))) (7 * 86400)))
            (\<lambda>e. Ret ())"

definition bumpMiner :: "bool \<Rightarrow> http_request \<Rightarrow> unit rpc" where
  "bumpMiner bound req =
     (if \<not> bound then Ret ()
      else case map_of (hreq_headers req) (u ''cf-connecting-ip'') of
        None \<Rightarrow> Ret ()
      | Some ip \<Rightarrow>
          if ip = [] then Ret ()
          else bindP edgeNow (\<lambda>t. waitUntil (MinerTask (isoDay t) ip)))"

definition minerPayload :: "ustring \<Rightarrow> ustring \<Rightarrow> bytes" where
  "minerPayload day ip = utf8Encode (u ''glaciem-rpc-salt-'' @ day @ u ''::'' @ ip)"

definition minerWork :: "ustring \<Rightarrow> ustring \<Rightarrow> unit rpc" where
  "minerWork day ip =
     bindP (digest256 (minerPayload day ip)) (\<lambda>d.
     catchP (statsPut (u ''miner:'' @ day @ u '':'' @ hexOfBytes (take 8 d)) (u ''1'') (7 * 86400))
            (\<lambda>e. Ret ()))"

definition rpcWork :: "rpc_task \<Rightarrow> unit rpc" where
  "rpcWork t =
     (case t of
        HitTask key \<Rightarrow> hitWork key
      | MinerTask day ip \<Rightarrow> minerWork day ip
      | RpcPut k r \<Rightarrow> cachePut k r)"

section \<open>The page\<close>

definition rpc_CORS :: headers where
  "rpc_CORS =
     [(u ''access-control-allow-origin'', u ''*''),
      (u ''access-control-allow-methods'', u ''GET, POST, OPTIONS''),
      (u ''access-control-allow-headers'', u ''Content-Type''),
      (u ''access-control-max-age'', u ''86400'')]"

text \<open>The nodes, in the order they are tried: identifier and address.\<close>

definition ORIGINS :: "(ustring \<times> ustring) list" where
  "ORIGINS =
     [(u ''node2'', u ''http://static.197.125.225.46.clients.your-server.de''),
      (u ''node1'', u ''http://static.34.142.105.178.clients.your-server.de'')]"

definition readCounter :: "bool \<Rightarrow> ustring \<Rightarrow> jsnum rpc" where
  "readCounter bound key =
     (if bound then bindP (statsGet key) (\<lambda>v. Ret (counterOf v)) else Throw TypeError)"

fun nodeCounters :: "bool \<Rightarrow> ustring \<Rightarrow> (ustring \<times> ustring) list \<Rightarrow> (ustring \<times> jsnum) list rpc" where
  "nodeCounters bound day [] = Ret []"
| "nodeCounters bound day ((nodeId, url) # os) =
     bindP (readCounter bound (hitKey nodeId day)) (\<lambda>n.
     bindP (nodeCounters bound day os) (\<lambda>rest. Ret ((nodeId, n) # rest)))"

definition hitRate :: "(ustring \<times> jsnum) list \<Rightarrow> jsnum \<Rightarrow> ustring" where
  "hitRate nodes cache =
     (let totalOrigin = foldl (\<lambda>a (k, n). numAdd a n) (Fin 0) nodes;
          totalAll = numAdd totalOrigin cache
      in if numPositive totalAll then toFixed 1 (numDivPos (numTimes100 cache) totalAll) @ u ''%''
         else u ''0%'')"

definition statsBody :: "ustring \<Rightarrow> (ustring \<times> jsnum) list \<Rightarrow> jsnum \<Rightarrow> nat \<Rightarrow> json" where
  "statsBody day nodes cache miners =
     JObj [(u ''day'', JStr day), (u ''nodes'', JObj (map (\<lambda>(k, n). (k, JNum n)) nodes)), (u ''cache'', JNum cache),
           (u ''miners'', JObj [(u ''unique'', JNum (Fin (of_nat miners)))]),
           (u ''cache_hit_rate'', JStr (hitRate nodes cache))]"

definition statsPage :: "bool \<Rightarrow> http_response rpc" where
  "statsPage bound =
     bindP edgeNow (\<lambda>t.
     let day = isoDay t
     in bindP (nodeCounters bound day ORIGINS) (\<lambda>nodes.
        bindP (readCounter bound (hitKey (u ''cache'') day)) (\<lambda>cache.
        bindP (if bound then statsList (u ''miner:'' @ day @ u '':'') 1000 else Throw TypeError) (\<lambda>ks.
        liftR (newResponse (Some (Inr (utf8Encode (stringifyIndent [] (statsBody day nodes cache (length ks))))))
          200 ((u ''content-type'', u ''application/json'') # rpc_CORS))))))"

end
