(* ===== verification/Rpc_Worker.thy ===== *)
theory Rpc_Worker
  imports Rpc_Stats
begin

text \<open>
  The proxy in front of the daemons, \<^verbatim>\<open>cloudflare/glaciem-rpc-worker.js\<close>: refused paths, the three
  caches (binary endpoints by the hash of the body, JSON-RPC methods by the hash of method and
  parameters, bare paths by name), and the nodes tried in order. The tables are plain objects,
  so that a name inherited from their prototype is found in them as well.
\<close>

declare u_simps [simp del]

section \<open>Tables\<close>

text \<open>What a table gives: a number of seconds, or an inherited property with its text.\<close>

datatype ttl = Secs nat | Inherited ustring

definition nativeText :: "string \<Rightarrow> ustring" where
  "nativeText f = u ''function '' @ u f @ u ''() { [native code] }''"

definition objectPrototype :: "(ustring \<times> ttl) list" where
  "objectPrototype =
     (u ''constructor'', Inherited (nativeText ''Object'')) #
     (u ''__proto__'', Inherited (u ''[object Object]'')) #
     map (\<lambda>f. (u f, Inherited (nativeText f)))
       [''__defineGetter__'', ''__defineSetter__'', ''hasOwnProperty'', ''__lookupGetter__'',
        ''__lookupSetter__'', ''isPrototypeOf'', ''propertyIsEnumerable'', ''toString'', ''valueOf'',
        ''toLocaleString'']"

definition CACHE_TTL :: "ustring \<Rightarrow> ttl option" where
  "CACHE_TTL =
     map_of
      ([(u ''get_info'', Secs 8), (u ''getinfo'', Secs 8),
        (u ''get_last_block_header'', Secs 8), (u ''getlastblockheader'', Secs 8),
        (u ''get_block_count'', Secs 8), (u ''getblockcount'', Secs 8), (u ''get_height'', Secs 8),
        (u ''get_block_header_by_height'', Secs 5), (u ''getblockheaderbyheight'', Secs 5),
        (u ''get_block_header_by_hash'', Secs 3600), (u ''getblockheaderbyhash'', Secs 3600),
        (u ''get_block'', Secs 3600)] @ objectPrototype)"

definition ttlText :: "ttl \<Rightarrow> ustring" where
  "ttlText t = (case t of Secs n \<Rightarrow> natToString n | Inherited s \<Rightarrow> s)"

text \<open>Its keys begin with a slash, as every path does and no inherited name.\<close>

definition BIN_CACHE_TTL :: "ustring \<Rightarrow> nat option" where
  "BIN_CACHE_TTL =
     map_of
      [(u ''/getblocks.bin'', 15), (u ''/get_blocks.bin'', 15), (u ''/getblocks_by_height.bin'', 15),
       (u ''/get_o_indexes.bin'', 60), (u ''/get_outs.bin'', 60), (u ''/get_transactions'', 60),
       (u ''/gettransactions'', 60)]"

definition BLOCKED_PATHS :: "ustring list" where
  "BLOCKED_PATHS =
     map u [''/get_peer_list'', ''/get_public_nodes'', ''/get_connections'', ''/get_outputs.bin'',
       ''/save_bc'', ''/stop_save_graph'', ''/start_save_graph'', ''/update'', ''/set_log_level'',
       ''/set_log_categories'', ''/set_bootstrap_daemon'', ''/set_limit'']"

section \<open>Helpers of the cache\<close>

text \<open>The properties of a request body that is an object with a string \<open>method\<close>.\<close>

definition parseRpc :: "bytes \<Rightarrow> (ustring \<times> (ustring \<times> json) list) option" where
  "parseRpc buf =
     (case jsonParse (utf8Decode buf) of
        Inr (JObj kvs) \<Rightarrow> (case map_of kvs (u ''method'') of Some (JStr m) \<Rightarrow> Some (m, kvs) | _ \<Rightarrow> None)
      | _ \<Rightarrow> None)"

text \<open>\<open>params ?? null\<close>.\<close>

definition paramsOf :: "(ustring \<times> json) list \<Rightarrow> json" where
  "paramsOf kvs = (case map_of kvs (u ''params'') of None \<Rightarrow> JNull | Some v \<Rightarrow> v)"

definition rpcPayload :: "ustring \<Rightarrow> json \<Rightarrow> bytes" where
  "rpcPayload m params = utf8Encode (m @ u '':'' @ stringify params)"

definition rpcKey :: "ustring \<Rightarrow> bytes \<Rightarrow> ustring" where
  "rpcKey m d = u ''https://rpc-cache.local/'' @ m @ u ''/'' @ hexOfBytes (take 16 d)"

definition cacheKeyFor :: "ustring \<Rightarrow> json \<Rightarrow> ustring rpc" where
  "cacheKeyFor m params = bindP (digest256 (rpcPayload m params)) (\<lambda>d. Ret (rpcKey m d))"

text \<open>
  The new identifier, \<open>None\<close> when the request has none: then \<open>JSON.stringify\<close> omits it. A property
  that is set on an array is not part of its text, and setting one on another value throws.
\<close>

definition swapId :: "ustring \<Rightarrow> json option \<Rightarrow> ustring" where
  "swapId text new =
     (case jsonParse text of
        Inr (JObj kvs) \<Rightarrow>
          stringify (JObj (case new of
            None \<Rightarrow> filter (\<lambda>(k, v). k \<noteq> u ''id'') kvs
          | Some v \<Rightarrow> objSet (u ''id'') v kvs))
      | Inr (JArr vs) \<Rightarrow> stringify (JArr vs)
      | _ \<Rightarrow> text)"

section \<open>Lookups\<close>

definition requestBody :: "http_request \<Rightarrow> bytes option" where
  "requestBody req =
     (if hreq_method req \<noteq> u ''GET'' \<and> hreq_method req \<noteq> u ''HEAD'' then Some (hreq_body req) else None)"

definition bumpCache :: "bool \<Rightarrow> http_request \<Rightarrow> unit rpc" where
  "bumpCache bound req = bindP (bumpHit bound (u ''cache'')) (\<lambda>_. bumpMiner bound req)"

definition hitHeaders :: "ustring \<Rightarrow> headers" where
  "hitHeaders ct = [(u ''content-type'', ct), (u ''x-rpc-cache'', u ''HIT'')] @ rpc_CORS"

text \<open>Each lookup gives a response, or the key and the time to live under which to store one.\<close>

definition binKey :: "ustring \<Rightarrow> bytes \<Rightarrow> ustring" where
  "binKey path d = u ''https://rpc-cache.local/bin'' @ path @ u ''/'' @ hexOfBytes (take 20 d)"

definition binLookup :: "bool \<Rightarrow> http_request \<Rightarrow> (http_response + (ustring \<times> nat) option) rpc" where
  "binLookup bound req =
     (case (BIN_CACHE_TTL (hreq_path req), requestBody req) of
        (Some binTtl, Some b) \<Rightarrow>
          bindP (digest256 b) (\<lambda>d.
          let key = binKey (hreq_path req) d
          in bindP (cacheMatch key) (\<lambda>hit. case hit of
               None \<Rightarrow> Ret (Inr (Some (key, binTtl)))
             | Some h \<Rightarrow>
                 bindP (liftR (readBody h)) (\<lambda>bytes.
                 bindP (bumpCache bound req) (\<lambda>_.
                 bindP (liftR (newResponse (Some (Inr bytes)) 200
                   (hitHeaders (headerOr (hres_headers h) (u ''content-type'') (u ''application/octet-stream''))))) (\<lambda>resp.
                 Ret (Inl resp))))))
      | _ \<Rightarrow> Ret (Inr None))"

definition isJsonRpc :: "http_request \<Rightarrow> bool" where
  "isJsonRpc req \<longleftrightarrow> hreq_method req = u ''POST'' \<and> endsWith (u ''/json_rpc'') (hreq_path req)"

definition textHit :: "bool \<Rightarrow> http_request \<Rightarrow> http_response \<Rightarrow> (ustring \<Rightarrow> ustring) \<Rightarrow> (http_response + 'k) rpc" where
  "textHit bound req h f =
     bindP (liftR (readBody h)) (\<lambda>b.
     bindP (bumpCache bound req) (\<lambda>_.
     bindP (liftR (newResponse (Some (Inr (utf8Encode (f (utf8Decode b))))) 200
       (hitHeaders (u ''application/json'')))) (\<lambda>resp.
     Ret (Inl resp))))"

definition rpcLookup :: "bool \<Rightarrow> http_request \<Rightarrow> (http_response + (ustring \<times> ttl) option) rpc" where
  "rpcLookup bound req =
     (if \<not> isJsonRpc req then Ret (Inr None)
      else case parseRpc (hreq_body req) of
        None \<Rightarrow> Ret (Inr None)
      | Some (m, kvs) \<Rightarrow>
          (case CACHE_TTL m of
             None \<Rightarrow> Ret (Inr None)
           | Some t \<Rightarrow>
               bindP (cacheKeyFor m (paramsOf kvs)) (\<lambda>key.
               bindP (cacheMatch key) (\<lambda>hit. case hit of
                 None \<Rightarrow> Ret (Inr (Some (key, t)))
               | Some h \<Rightarrow> textHit bound req h (\<lambda>text. swapId text (map_of kvs (u ''id'')))))))"

definition urlMethod :: "http_request \<Rightarrow> ustring" where
  "urlMethod req = toLowerCaseAscii (dropWhile (\<lambda>c. c = 47) (hreq_path req))"

definition bareRequest :: "http_request \<Rightarrow> bool" where
  "bareRequest req \<longleftrightarrow>
     hreq_method req = u ''GET'' \<or> hreq_method req = u ''POST'' \<and> hreq_body req = []"

definition pathKey :: "ustring \<Rightarrow> ustring" where
  "pathKey m = u ''https://rpc-cache.local/path/'' @ m"

definition pathLookup :: "bool \<Rightarrow> http_request \<Rightarrow> (http_response + (ustring \<times> ttl) option) rpc" where
  "pathLookup bound req =
     (if \<not> bareRequest req then Ret (Inr None)
      else case CACHE_TTL (urlMethod req) of
        None \<Rightarrow> Ret (Inr None)
      | Some t \<Rightarrow>
          bindP (cacheMatch (pathKey (urlMethod req))) (\<lambda>hit. case hit of
            None \<Rightarrow> Ret (Inr (Some (pathKey (urlMethod req), t)))
          | Some h \<Rightarrow> textHit bound req h (\<lambda>text. text)))"

section \<open>Nodes\<close>

definition rpcOriginRequest :: "ustring \<Rightarrow> http_request \<Rightarrow> origin_request" where
  "rpcOriginRequest url req =
     \<lparr>oreq_url = url @ hreq_path req @ hreq_search req, oreq_method = hreq_method req,
      oreq_type = headerOr (hreq_headers req) (u ''content-type'') (u ''application/octet-stream''),
      oreq_body = requestBody req\<rparr>"

definition missHeaders :: "ustring \<Rightarrow> string \<Rightarrow> headers" where
  "missHeaders ct x = [(u ''content-type'', ct), (u ''x-rpc-cache'', u x)] @ rpc_CORS"

definition cachedResponse :: "bytes \<Rightarrow> ustring \<Rightarrow> ustring \<Rightarrow> http_response res" where
  "cachedResponse b ct age =
     newResponse (Some (Inr b)) 200
       [(u ''content-type'', ct), (u ''cache-control'', u ''public, max-age='' @ age)]"

text \<open>The answer of a node below 500, made into the response.\<close>

definition rpcAnswer ::
    "(ustring \<times> nat) option \<Rightarrow> (ustring \<times> ttl) option \<Rightarrow> http_response \<Rightarrow> http_response rpc" where
  "rpcAnswer binStore store resp =
     (let ok = hres_status resp < 400;
          ct = headerOr (hres_headers resp) (u ''content-type'')
                 (if ok \<and> binStore \<noteq> None then u ''application/octet-stream'' else u ''application/json'')
      in case (if ok then binStore else None) of
           Some (k, binTtl) \<Rightarrow>
             bindP (liftR (readBody resp)) (\<lambda>b.
             bindP (liftR (cachedResponse b ct (natToString binTtl))) (\<lambda>c.
             bindP (waitUntil (RpcPut k c)) (\<lambda>_.
             liftR (newResponse (Some (Inr b)) (hres_status resp) (missHeaders ct ''MISS'')))))
         | None \<Rightarrow>
             (case (if ok then store else None) of
                Some (k, t) \<Rightarrow>
                  bindP (liftR (readBody resp)) (\<lambda>b.
                  let body = utf8Encode (utf8Decode b)
                  in bindP (liftR (cachedResponse body (u ''application/json'') (ttlText t))) (\<lambda>c.
                     bindP (waitUntil (RpcPut k c)) (\<lambda>_.
                     liftR (newResponse (Some (Inr body)) (hres_status resp)
                       (missHeaders (u ''application/json'') ''MISS'')))))
              | None \<Rightarrow>
                  liftR (newResponse (hres_body resp) (hres_status resp) (missHeaders ct ''BYPASS''))))"

text \<open>One node: \<open>None\<close> when it fails, or when anything throws while its answer is handled.\<close>

definition tryOrigin ::
    "bool \<Rightarrow> http_request \<Rightarrow> (ustring \<times> nat) option \<Rightarrow> (ustring \<times> ttl) option \<Rightarrow>
     ustring \<times> ustring \<Rightarrow> http_response option rpc" where
  "tryOrigin bound req binStore store node =
     catchP
      (bindP (fetchOrigin (rpcOriginRequest (snd node) req)) (\<lambda>resp.
       if hres_status resp \<ge> 500 then Ret None
       else bindP (bumpHit bound (fst node)) (\<lambda>_.
            bindP (bumpMiner bound req) (\<lambda>_.
            bindP (rpcAnswer binStore store resp) (\<lambda>out. Ret (Some out))))))
      (\<lambda>e. Ret None)"

definition errorBody :: "int \<Rightarrow> string \<Rightarrow> bytes" where
  "errorBody code msg =
     utf8Encode (stringify (JObj [(u ''error'',
       JObj [(u ''code'', JNum (Fin (of_int code))), (u ''message'', JStr (u msg))])]))"

fun tryOrigins ::
    "bool \<Rightarrow> http_request \<Rightarrow> (ustring \<times> nat) option \<Rightarrow> (ustring \<times> ttl) option \<Rightarrow>
     (ustring \<times> ustring) list \<Rightarrow> http_response rpc" where
  "tryOrigins bound req binStore store [] =
     liftR (newResponse (Some (Inr (errorBody (- 1) ''all nodes unreachable''))) 502
       ((u ''content-type'', u ''application/json'') # rpc_CORS))"
| "tryOrigins bound req binStore store (node # nodes) =
     bindP (tryOrigin bound req binStore store node) (\<lambda>out. case out of
       Some resp \<Rightarrow> Ret resp
     | None \<Rightarrow> tryOrigins bound req binStore store nodes)"

section \<open>Handler\<close>

definition rpc_fetch :: "bool \<Rightarrow> http_request \<Rightarrow> http_response rpc" where
  "rpc_fetch bound req =
     (if hreq_method req = u ''OPTIONS'' then liftR (newResponse None 204 rpc_CORS)
      else if hreq_path req = u ''/stats'' \<and> hreq_method req = u ''GET'' then statsPage bound
      else if hreq_path req \<in> set BLOCKED_PATHS
        then liftR (newResponse (Some (Inr (errorBody (- 32600) ''endpoint not exposed''))) 403
               ((u ''content-type'', u ''application/json'') # rpc_CORS))
      else bindP (binLookup bound req) (\<lambda>x. case x of
        Inl resp \<Rightarrow> Ret resp
      | Inr binStore \<Rightarrow>
          bindP (rpcLookup bound req) (\<lambda>y. case y of
            Inl resp \<Rightarrow> Ret resp
          | Inr rpcStore \<Rightarrow>
              bindP (pathLookup bound req) (\<lambda>z. case z of
                Inl resp \<Rightarrow> Ret resp
              | Inr pathStore \<Rightarrow>
                  tryOrigins bound req binStore (if rpcStore \<noteq> None then rpcStore else pathStore) ORIGINS))))"

end
