(* ===== verification/Rpc_Cache.thy ===== *)
theory Rpc_Cache
  imports Rpc_Worker
begin

text \<open>
  The proxy as a service, with requests and the work they leave interleaved in any way: every
  entry of the cache is the answer of a node to a request that has the entry's key, and every
  response is the answer of a node to the request itself or, from the cache, to one with the
  same key. The keys of the three caches do not meet.
\<close>

declare u_simps [simp del]

section \<open>Keys\<close>

lemma CACHE_TTL_names:
  assumes "CACHE_TTL m = Some t"
  shows "47 \<notin> set m" "m \<noteq> u ''path''" "m \<noteq> u ''bin''" "\<forall>c \<in> set m. c < 128"
proof -
  have "m \<in> set (map u [''get_info'', ''getinfo'', ''get_last_block_header'', ''getlastblockheader'',
      ''get_block_count'', ''getblockcount'', ''get_height'', ''get_block_header_by_height'',
      ''getblockheaderbyheight'', ''get_block_header_by_hash'', ''getblockheaderbyhash'', ''get_block'',
      ''constructor'', ''__proto__'', ''__defineGetter__'', ''__defineSetter__'', ''hasOwnProperty'',
      ''__lookupGetter__'', ''__lookupSetter__'', ''isPrototypeOf'', ''propertyIsEnumerable'', ''toString'',
      ''valueOf'', ''toLocaleString''])"
    using assms by (auto simp: CACHE_TTL_def objectPrototype_def split: if_splits)
  then show "47 \<notin> set m" "m \<noteq> u ''path''" "m \<noteq> u ''bin''" "\<forall>c \<in> set m. c < 128"
    by (auto simp: u_simps)
qed

lemma first_segment: "47 \<notin> set m \<Longrightarrow> takeWhile (\<lambda>c. c \<noteq> 47) (m @ 47 # s) = m"
  by (induction m) auto

lemma segment_inject: "47 \<notin> set m \<Longrightarrow> 47 \<notin> set m' \<Longrightarrow> m @ 47 # s = m' @ 47 # s' \<longleftrightarrow> m = m' \<and> s = s'"
  by (metis append_same_eq first_segment append.right_neutral same_append_eq list.inject)

lemma rpcKey_inject:
  assumes "CACHE_TTL m = Some t" "CACHE_TTL m' = Some t'"
  shows "rpcKey m d = rpcKey m' d' \<longleftrightarrow> m = m' \<and> take 16 d = take 16 d'"
  using segment_inject [OF CACHE_TTL_names(1) [OF assms(1)] CACHE_TTL_names(1) [OF assms(2)]]
  by (simp add: rpcKey_def hexOfBytes_inject u_simps)

lemma slash_free: "47 \<notin> set (u ''path'')" "47 \<notin> set (u ''bin'')"
  by (simp_all add: u_simps)

lemma pathKey_form: "pathKey m = u ''https://rpc-cache.local/'' @ u ''path'' @ 47 # m"
  by (simp add: pathKey_def u_simps)

lemma binKey_form: "binKey (47 # p) d = u ''https://rpc-cache.local/'' @ u ''bin'' @ 47 # p @ u ''/'' @ hexOfBytes (take 20 d)"
  by (simp add: binKey_def u_simps)

lemma rpcKey_form: "rpcKey m d = u ''https://rpc-cache.local/'' @ m @ 47 # hexOfBytes (take 16 d)"
  by (simp add: rpcKey_def u_simps)

lemma BIN_path: "BIN_CACHE_TTL p = Some t \<Longrightarrow> \<exists>q. p = 47 # q \<and> 47 \<notin> set q"
  by (auto simp: BIN_CACHE_TTL_def u_simps split: if_splits)

lemma keys_differ:
  assumes "CACHE_TTL m = Some t"
  shows "rpcKey m d \<noteq> pathKey m'" "rpcKey m d \<noteq> binKey (47 # p) d'" "pathKey m' \<noteq> binKey (47 # p) d'"
  unfolding pathKey_form binKey_form rpcKey_form
  using segment_inject [OF CACHE_TTL_names(1) [OF assms] slash_free(1)]
    segment_inject [OF CACHE_TTL_names(1) [OF assms] slash_free(2)]
    segment_inject [OF slash_free] CACHE_TTL_names(2,3) [OF assms]
  by auto

lemma binKey_inject:
  assumes "BIN_CACHE_TTL p = Some t" "BIN_CACHE_TTL p' = Some t'"
  shows "binKey p d = binKey p' d' \<longleftrightarrow> p = p' \<and> take 20 d = take 20 d'"
proof -
  obtain q q' where "p = 47 # q" "47 \<notin> set q" "p' = 47 # q'" "47 \<notin> set q'"
    using BIN_path [OF assms(1)] BIN_path [OF assms(2)] by blast
  then show ?thesis
    using segment_inject [of q q'] by (simp add: binKey_def hexOfBytes_inject u_simps)
qed

section \<open>What may be cached\<close>

definition reencode :: "bytes \<Rightarrow> bytes" where
  "reencode b = utf8Encode (utf8Decode b)"

text \<open>The request has the key, for the cache of binary endpoints, of methods, or of paths.\<close>

definition hasBinKey :: "'s edge \<Rightarrow> ustring \<Rightarrow> http_request \<Rightarrow> bool" where
  "hasBinKey out k req \<longleftrightarrow>
     BIN_CACHE_TTL (hreq_path req) \<noteq> None \<and> requestBody req \<noteq> None \<and>
     k = binKey (hreq_path req) (sha256 out (hreq_body req))"

definition hasRpcKey :: "'s edge \<Rightarrow> ustring \<Rightarrow> http_request \<Rightarrow> bool" where
  "hasRpcKey out k req \<longleftrightarrow>
     isJsonRpc req \<and>
     (\<exists>m kvs. parseRpc (hreq_body req) = Some (m, kvs) \<and> CACHE_TTL m \<noteq> None \<and>
        k = rpcKey m (sha256 out (rpcPayload m (paramsOf kvs))))"

definition hasPathKey :: "ustring \<Rightarrow> http_request \<Rightarrow> bool" where
  "hasPathKey k req \<longleftrightarrow>
     bareRequest req \<and> CACHE_TTL (urlMethod req) \<noteq> None \<and> k = pathKey (urlMethod req)"

text \<open>A node gave the answer to the request.\<close>

definition fromNode :: "'s edge \<Rightarrow> http_request \<Rightarrow> http_response \<Rightarrow> bool" where
  "fromNode out req y \<longleftrightarrow> (\<exists>node \<in> set ORIGINS. answered out (rpcOriginRequest (snd node) req) y)"

definition rpcEntry :: "'s edge \<Rightarrow> ustring \<Rightarrow> http_response \<Rightarrow> bool" where
  "rpcEntry out k r \<longleftrightarrow>
     (\<exists>req y b. fromNode out req y \<and> hres_status y < 400 \<and> readBody y = Inr b \<and>
        (hasBinKey out k req \<and> hres_body r = Some (Inr b) \<or>
         (hasRpcKey out k req \<or> hasPathKey k req) \<and> hres_body r = Some (Inr (reencode b))))"

definition rpcWorkOk :: "'s edge \<Rightarrow> rpc_task \<Rightarrow> bool" where
  "rpcWorkOk out t = (case t of RpcPut k r \<Rightarrow> rpcEntry out k r | _ \<Rightarrow> True)"

abbreviation rpc_guards :: "'s edge \<Rightarrow> ('a \<Rightarrow> bool) \<Rightarrow> 'a rpc \<Rightarrow> bool" where
  "rpc_guards out R p \<equiv> guards (edge_promise (rpcEntry out) (rpcWorkOk out)) (edge_rely out (rpcEntry out)) R p"

text \<open>What an entry is, by the kind of its key.\<close>

lemma hasBinKey_form: "hasBinKey out k req \<Longrightarrow> \<exists>q d. k = binKey (47 # q) d"
  using BIN_path unfolding hasBinKey_def by (metis option.exhaust)

lemma key_kinds:
  assumes "hasRpcKey out k req"
  shows "\<not> hasPathKey k req'" "\<not> hasBinKey out k req'"
proof -
  obtain m t d where m: "CACHE_TTL m = Some t" "k = rpcKey m d" using assms by (auto simp: hasRpcKey_def)
  show "\<not> hasPathKey k req'" using keys_differ(1) [OF m(1)] m(2) by (simp add: hasPathKey_def)
  show "\<not> hasBinKey out k req'" using hasBinKey_form keys_differ(2) [OF m(1)] m(2) by metis
qed

lemma path_not_bin: "hasPathKey k req \<Longrightarrow> \<not> hasBinKey out k req'"
proof
  assume k: "hasPathKey k req" "hasBinKey out k req'"
  obtain t where "CACHE_TTL (urlMethod req) = Some t" using k(1) by (auto simp: hasPathKey_def)
  then show False using keys_differ(3) k hasBinKey_form unfolding hasPathKey_def by metis
qed

section \<open>What may be answered\<close>

text \<open>The response carries the answer of a node to the request itself.\<close>

definition freshAnswer :: "'s edge \<Rightarrow> http_request \<Rightarrow> http_response \<Rightarrow> bool" where
  "freshAnswer out req resp \<longleftrightarrow>
     (\<exists>y. fromNode out req y \<and> hres_status y < 500 \<and> hres_status resp = hres_status y \<and>
        (hres_body resp = hres_body y \<or>
         (\<exists>b. readBody y = Inr b \<and> (hres_body resp = Some (Inr b) \<or> hres_body resp = Some (Inr (reencode b))))))"

text \<open>The response carries the cached answer of a node to a request of the same key.\<close>

definition binHit :: "'s edge \<Rightarrow> http_request \<Rightarrow> http_response \<Rightarrow> bool" where
  "binHit out req resp \<longleftrightarrow>
     (\<exists>k req' y b. hasBinKey out k req \<and> hasBinKey out k req' \<and> fromNode out req' y \<and> hres_status y < 400 \<and>
        readBody y = Inr b \<and> hres_body resp = Some (Inr b))"

definition rpcHit :: "'s edge \<Rightarrow> http_request \<Rightarrow> http_response \<Rightarrow> bool" where
  "rpcHit out req resp \<longleftrightarrow>
     (\<exists>k req' y b m kvs. hasRpcKey out k req \<and> hasRpcKey out k req' \<and> fromNode out req' y \<and> hres_status y < 400 \<and>
        readBody y = Inr b \<and> parseRpc (hreq_body req) = Some (m, kvs) \<and>
        hres_body resp = Some (Inr (utf8Encode (swapId (utf8Decode (reencode b)) (map_of kvs (u ''id''))))))"

definition pathHit :: "'s edge \<Rightarrow> http_request \<Rightarrow> http_response \<Rightarrow> bool" where
  "pathHit out req resp \<longleftrightarrow>
     (\<exists>k req' y b. hasPathKey k req \<and> hasPathKey k req' \<and> fromNode out req' y \<and> hres_status y < 400 \<and>
        readBody y = Inr b \<and> hres_body resp = Some (Inr (reencode (reencode b))))"

definition rpcFaithful :: "'s edge \<Rightarrow> http_request \<Rightarrow> http_response \<Rightarrow> bool" where
  "rpcFaithful out req resp \<longleftrightarrow>
     hasCors rpc_CORS (hres_headers resp) \<and>
     (hres_status resp = 502 \<or> freshAnswer out req resp \<or>
      hres_status resp = 200 \<and> (binHit out req resp \<or> rpcHit out req resp \<or> pathHit out req resp))"

lemma rpc_cors [simp]:
  "hasCors rpc_CORS rpc_CORS"
  "hasCors rpc_CORS ((u ''content-type'', ct) # rpc_CORS)"
  "hasCors rpc_CORS ((u ''content-type'', ct) # (u ''x-rpc-cache'', x) # rpc_CORS)"
  by (simp_all add: hasCors_def rpc_CORS_def)

section \<open>The lookups\<close>

lemma guards_bumps:
  "R () \<Longrightarrow> rpc_guards out R (bumpHit bound nodeId)" "R () \<Longrightarrow> rpc_guards out R (bumpMiner bound req)"
  "R () \<Longrightarrow> rpc_guards out R (bumpCache bound req)"
  by (auto simp: bumpHit_def bumpMiner_def bumpCache_def edge_guards rpcWorkOk_def split: option.splits)

text \<open>A lookup gives a faithful response, or the key of the request.\<close>

definition lookupOk :: "'s edge \<Rightarrow> http_request \<Rightarrow> (ustring \<Rightarrow> bool) \<Rightarrow> (http_response + (ustring \<times> 'n) option) \<Rightarrow> bool" where
  "lookupOk out req K x =
     (case x of Inl resp \<Rightarrow> rpcFaithful out req resp | Inr None \<Rightarrow> True | Inr (Some (k, t)) \<Rightarrow> K k)"

lemma guards_binLookup:
  "rpc_guards out (lookupOk out req (\<lambda>k. hasBinKey out k req)) (binLookup bound req)"
proof (cases "\<exists>t b. BIN_CACHE_TTL (hreq_path req) = Some t \<and> requestBody req = Some b")
  case False
  then show ?thesis
    by (cases "BIN_CACHE_TTL (hreq_path req)"; cases "requestBody req")
      (auto simp: binLookup_def lookupOk_def)
next
  case True
  then obtain t b where t: "BIN_CACHE_TTL (hreq_path req) = Some t" "requestBody req = Some b" by blast
  then have b: "b = hreq_body req" by (simp add: requestBody_def split: if_splits)
  let ?k = "binKey (hreq_path req) (sha256 out b)"
  have k: "hasBinKey out ?k req" using t b by (simp add: hasBinKey_def)
  have "rpcFaithful out req resp"
    if h: "rpcEntry out ?k h" "readBody h = Inr c" "newResponse (Some (Inr c)) 200 (hitHeaders ct) = Inr resp" for h c ct resp
  proof -
    obtain req' y b' where "fromNode out req' y" "hres_status y < 400" "readBody y = Inr b'"
        "hasBinKey out ?k req'" "hres_body h = Some (Inr b')"
      using h(1) k key_kinds(2) path_not_bin unfolding rpcEntry_def by blast
    moreover from this have "c = b'" using h(2) by (simp add: readBody_def)
    ultimately have "binHit out req resp" using k newResponse_ok [OF h(3)] unfolding binHit_def by blast
    then show ?thesis using newResponse_ok [OF h(3)] by (simp add: rpcFaithful_def hitHeaders_def)
  qed
  then show ?thesis
    using t k
    by (auto simp: binLookup_def edge_guards Let_def lookupOk_def intro!: guards_bumps)
qed

lemma guards_textHit:
  assumes "\<And>b resp. readBody h = Inr b \<Longrightarrow> hasCors rpc_CORS (hres_headers resp) \<Longrightarrow> hres_status resp = 200 \<Longrightarrow>
      hres_body resp = Some (Inr (utf8Encode (f (utf8Decode b)))) \<Longrightarrow> rpcFaithful out req resp"
  shows "rpc_guards out (lookupOk out req K) (textHit bound req h f)"
proof -
  have "rpcFaithful out req resp"
    if "readBody h = Inr b" "newResponse (Some (Inr (utf8Encode (f (utf8Decode b))))) 200 (hitHeaders ct) = Inr resp" for b ct resp
    using assms [OF that(1)] newResponse_ok [OF that(2)] by (simp add: hitHeaders_def)
  then show ?thesis unfolding textHit_def by (auto simp: edge_guards lookupOk_def intro!: guards_bumps)
qed

lemma guards_rpcLookup:
  "rpc_guards out (lookupOk out req (\<lambda>k. hasRpcKey out k req)) (rpcLookup bound req)"
proof (cases "isJsonRpc req \<and> (\<exists>m kvs t. parseRpc (hreq_body req) = Some (m, kvs) \<and> CACHE_TTL m = Some t)")
  case False
  then show ?thesis by (auto simp: rpcLookup_def lookupOk_def split: option.splits)
next
  case True
  then obtain m kvs t where m: "isJsonRpc req" "parseRpc (hreq_body req) = Some (m, kvs)" "CACHE_TTL m = Some t" by blast
  let ?k = "rpcKey m (sha256 out (rpcPayload m (paramsOf kvs)))"
  have k: "hasRpcKey out ?k req" using m by (auto simp: hasRpcKey_def)
  have "rpc_guards out (lookupOk out req K) (textHit bound req h (\<lambda>text. swapId text (map_of kvs (u ''id''))))"
    if h: "rpcEntry out ?k h" for h K
  proof (rule guards_textHit)
    fix b and resp :: http_response
    assume b: "readBody h = Inr b" and cors: "hasCors rpc_CORS (hres_headers resp)" and st: "hres_status resp = 200"
      and body: "hres_body resp = Some (Inr (utf8Encode (swapId (utf8Decode b) (map_of kvs (u ''id'')))))"
    obtain req' y b' where e: "fromNode out req' y" "hres_status y < 400" "readBody y = Inr b'"
        "hasRpcKey out ?k req'" "hres_body h = Some (Inr (reencode b'))"
      using h k key_kinds unfolding rpcEntry_def by blast
    have "b = reencode b'" using b e(5) by (simp add: readBody_def)
    then have "rpcHit out req resp" using e(1-4) k m(2) body unfolding rpcHit_def by blast
    then show "rpcFaithful out req resp" using cors st by (simp add: rpcFaithful_def)
  qed
  then show ?thesis
    using m k by (auto simp: rpcLookup_def cacheKeyFor_def edge_guards lookupOk_def)
qed

lemma guards_pathLookup:
  "rpc_guards out (lookupOk out req (\<lambda>k. hasPathKey k req)) (pathLookup bound req)"
proof (cases "bareRequest req \<and> CACHE_TTL (urlMethod req) \<noteq> None")
  case False
  then show ?thesis by (auto simp: pathLookup_def lookupOk_def)
next
  case True
  let ?k = "pathKey (urlMethod req)"
  have k: "hasPathKey ?k req" using True by (simp add: hasPathKey_def)
  have "rpc_guards out (lookupOk out req K) (textHit bound req h (\<lambda>text. text))" if h: "rpcEntry out ?k h" for h K
  proof (rule guards_textHit)
    fix b and resp :: http_response
    assume b: "readBody h = Inr b" and cors: "hasCors rpc_CORS (hres_headers resp)" and st: "hres_status resp = 200"
      and body: "hres_body resp = Some (Inr (utf8Encode (utf8Decode b)))"
    obtain req' y b' where e: "fromNode out req' y" "hres_status y < 400" "readBody y = Inr b'"
        "hasPathKey ?k req'" "hres_body h = Some (Inr (reencode b'))"
      using h k key_kinds(1) path_not_bin unfolding rpcEntry_def by blast
    have "b = reencode b'" using b e(5) by (simp add: readBody_def)
    then have "hres_body resp = Some (Inr (reencode (reencode b')))" using body by (simp add: reencode_def)
    then have "pathHit out req resp" using e(1-4) k unfolding pathHit_def by blast
    then show "rpcFaithful out req resp" using cors st by (simp add: rpcFaithful_def)
  qed
  then show ?thesis using True k by (auto simp: pathLookup_def edge_guards lookupOk_def)
qed

section \<open>The nodes\<close>

lemma fresh_faithful:
  assumes "fromNode out req y" "hres_status y < 500"
    "newResponse body (hres_status y) (missHeaders ct x) = Inr resp"
    "body = hres_body y \<or> (\<exists>b. readBody y = Inr b \<and> (body = Some (Inr b) \<or> body = Some (Inr (reencode b))))"
  shows "rpcFaithful out req resp"
proof -
  have "freshAnswer out req resp"
    using assms(1,2,4) newResponse_ok [OF assms(3)] unfolding freshAnswer_def by auto
  then show ?thesis using newResponse_ok [OF assms(3)] by (simp add: rpcFaithful_def missHeaders_def)
qed

lemma guards_rpcAnswer:
  assumes "fromNode out req y" "hres_status y < 500"
    "\<And>k t. binStore = Some (k, t) \<Longrightarrow> hasBinKey out k req"
    "\<And>k t. store = Some (k, t) \<Longrightarrow> hasRpcKey out k req \<or> hasPathKey k req"
  shows "rpc_guards out (rpcFaithful out req) (rpcAnswer binStore store y)"
proof -
  note fresh = fresh_faithful [OF assms(1,2)]
  have bin_entry: "rpcEntry out k c"
    if "binStore = Some (k, t)" "hres_status y < 400" "readBody y = Inr b" "cachedResponse b ct a = Inr c" for k t b ct a c
    using assms(1,3) that newResponse_ok [OF that(4) [unfolded cachedResponse_def]] unfolding rpcEntry_def by blast
  have text_entry: "rpcEntry out k c"
    if "store = Some (k, t)" "hres_status y < 400" "readBody y = Inr b" "cachedResponse (reencode b) ct a = Inr c" for k t b ct a c
    using assms(1,4) that newResponse_ok [OF that(4) [unfolded cachedResponse_def]] unfolding rpcEntry_def by blast
  consider "\<exists>k t. hres_status y < 400 \<and> binStore = Some (k, t)"
    | "\<exists>k t. hres_status y < 400 \<and> binStore = None \<and> store = Some (k, t)"
    | "\<not> hres_status y < 400 \<or> binStore = None \<and> store = None"
    by (metis not_None_eq surj_pair)
  then show ?thesis
  proof cases
    case 1
    then obtain k t where k: "hres_status y < 400" "binStore = Some (k, t)" by blast
    show ?thesis
      unfolding rpcAnswer_def Let_def using k
      by (simp add: edge_guards rpcWorkOk_def) (blast intro: bin_entry [OF k(2,1)] fresh)
  next
    case 2
    then obtain k t where k: "hres_status y < 400" "binStore = None" "store = Some (k, t)" by blast
    show ?thesis
      unfolding rpcAnswer_def Let_def reencode_def [symmetric] using k
      by (simp add: edge_guards rpcWorkOk_def) (blast intro: text_entry [OF k(3,1)] fresh)
  next
    case 3
    then show ?thesis
      unfolding rpcAnswer_def Let_def by (auto simp: edge_guards intro: fresh)
  qed
qed

lemma guards_tryOrigin:
  assumes "node \<in> set ORIGINS"
    "\<And>k t. binStore = Some (k, t) \<Longrightarrow> hasBinKey out k req"
    "\<And>k t. store = Some (k, t) \<Longrightarrow> hasRpcKey out k req \<or> hasPathKey k req"
  shows "rpc_guards out (\<lambda>x. \<forall>resp. x = Some resp \<longrightarrow> rpcFaithful out req resp)
    (tryOrigin bound req binStore store node)"
  unfolding tryOrigin_def
proof (rule guards_catchP)
  have "fromNode out req y" if "answered out (rpcOriginRequest (snd node) req) y" for y
    using that assms(1) by (auto simp: fromNode_def)
  then show "rpc_guards out (\<lambda>x. \<forall>resp. x = Some resp \<longrightarrow> rpcFaithful out req resp)
      (bindP (fetchOrigin (rpcOriginRequest (snd node) req)) (\<lambda>resp.
       if hres_status resp \<ge> 500 then Ret None
       else bindP (bumpHit bound (fst node)) (\<lambda>_.
            bindP (bumpMiner bound req) (\<lambda>_.
            bindP (rpcAnswer binStore store resp) (\<lambda>out. Ret (Some out))))))"
    by (auto simp: edge_guards intro!: guards_bumps guards_mono [OF guards_rpcAnswer [OF _ _ assms(2,3)]])
qed simp

lemma guards_tryOrigins:
  assumes "set nodes \<subseteq> set ORIGINS"
    "\<And>k t. binStore = Some (k, t) \<Longrightarrow> hasBinKey out k req"
    "\<And>k t. store = Some (k, t) \<Longrightarrow> hasRpcKey out k req \<or> hasPathKey k req"
  shows "rpc_guards out (rpcFaithful out req) (tryOrigins bound req binStore store nodes)"
  using assms(1)
proof (induction nodes)
  case Nil
  show ?case using newResponse_ok by (fastforce simp: edge_guards rpcFaithful_def)
next
  case (Cons node nodes)
  then have "rpc_guards out (rpcFaithful out req) (tryOrigins bound req binStore store nodes)" by simp
  then show ?case
    unfolding tryOrigins.simps guards_bindP using Cons.prems
    by (intro guards_mono [OF guards_tryOrigin [OF _ assms(2,3)]]) (auto split: option.splits)
qed

section \<open>The service\<close>

definition relayed :: "http_request \<Rightarrow> bool" where
  "relayed req \<longleftrightarrow>
     hreq_method req \<noteq> u ''OPTIONS'' \<and> \<not> (hreq_path req = u ''/stats'' \<and> hreq_method req = u ''GET'') \<and>
     hreq_path req \<notin> set BLOCKED_PATHS"

lemma guards_nodeCounters: "(\<And>x. R x) \<Longrightarrow> rpc_guards out R (nodeCounters bound day nodes)"
proof (induction nodes arbitrary: R)
  case (Cons node nodes)
  then show ?case by (cases node) (auto simp: edge_guards readCounter_def)
qed simp

lemma guards_statsPage: "rpc_guards out (\<lambda>resp. hasCors rpc_CORS (hres_headers resp)) (statsPage bound)"
  unfolding statsPage_def Let_def using newResponse_ok
  by (fastforce simp: edge_guards readCounter_def intro!: guards_nodeCounters)

lemma faithful_cors: "rpcFaithful out req resp \<Longrightarrow> hasCors rpc_CORS (hres_headers resp)"
  by (simp add: rpcFaithful_def)

lemma lookupOk_Inl [simp]: "lookupOk out req K (Inl resp) = rpcFaithful out req resp"
  by (simp add: lookupOk_def)

lemma guards_lookup:
  fixes p :: "(http_response + (ustring \<times> 'n) option) rpc"
  assumes "rpc_guards out (lookupOk out req K) p"
    "\<And>s. lookupOk out req K (Inr s) \<Longrightarrow> rpc_guards out (rpcFaithful out req) (f s)"
  shows "rpc_guards out (rpcFaithful out req) (bindP p (\<lambda>x. case x of Inl resp \<Rightarrow> Ret resp | Inr s \<Rightarrow> f s))"
  unfolding guards_bindP
proof (rule guards_mono [OF assms(1)])
  fix x :: "http_response + (ustring \<times> 'n) option"
  assume "lookupOk out req K x"
  then show "rpc_guards out (rpcFaithful out req) (case x of Inl resp \<Rightarrow> Ret resp | Inr s \<Rightarrow> f s)"
    using assms(2) by (cases x) simp_all
qed

lemma guards_relayed:
  assumes "relayed req"
  shows "rpc_guards out (rpcFaithful out req) (rpc_fetch bound req)"
proof -
  have "rpc_fetch bound req =
      bindP (binLookup bound req) (\<lambda>x. case x of
        Inl resp \<Rightarrow> Ret resp
      | Inr binStore \<Rightarrow>
          bindP (rpcLookup bound req) (\<lambda>y. case y of
            Inl resp \<Rightarrow> Ret resp
          | Inr rpcStore \<Rightarrow>
              bindP (pathLookup bound req) (\<lambda>z. case z of
                Inl resp \<Rightarrow> Ret resp
              | Inr pathStore \<Rightarrow>
                  tryOrigins bound req binStore (if rpcStore \<noteq> None then rpcStore else pathStore) ORIGINS)))"
    using assms by (auto simp: rpc_fetch_def relayed_def)
  then show ?thesis
    by (simp only:)
      (intro guards_lookup [OF guards_binLookup] guards_lookup [OF guards_rpcLookup]
        guards_lookup [OF guards_pathLookup] guards_tryOrigins;
       force simp: lookupOk_def split: if_splits)
qed

lemma guards_rpc_fetch:
  "rpc_guards out (\<lambda>resp. hasCors rpc_CORS (hres_headers resp) \<and> (relayed req \<longrightarrow> rpcFaithful out req resp))
     (rpc_fetch bound req)"
proof (cases "relayed req")
  case True
  show ?thesis by (rule guards_mono [OF guards_relayed [OF True]]) (use faithful_cors in auto)
next
  case False
  consider "hreq_method req = u ''OPTIONS''"
    | "hreq_method req \<noteq> u ''OPTIONS''" "hreq_path req = u ''/stats''" "hreq_method req = u ''GET''"
    | "hreq_method req \<noteq> u ''OPTIONS''" "\<not> (hreq_path req = u ''/stats'' \<and> hreq_method req = u ''GET'')"
      "hreq_path req \<in> set BLOCKED_PATHS"
    using False by (auto simp: relayed_def)
  then show ?thesis
  proof cases
    case 1
    then show ?thesis using False by (auto simp: rpc_fetch_def edge_guards dest: newResponse_ok)
  next
    case 2
    then have "rpc_fetch bound req = statsPage bound" by (simp add: rpc_fetch_def)
    then show ?thesis by (simp only:) (rule guards_mono [OF guards_statsPage], use False in auto)
  next
    case 3
    then show ?thesis using False by (auto simp: rpc_fetch_def edge_guards dest: newResponse_ok)
  qed
qed

definition rpcRequest :: "bool \<Rightarrow> http_request \<Rightarrow> http_response option rpc" where
  "rpcRequest bound req = bindP (rpc_fetch bound req) (\<lambda>resp. Ret (Some resp))"

definition rpcTask :: "rpc_task \<Rightarrow> http_response option rpc" where
  "rpcTask t = bindP (rpcWork t) (\<lambda>_. Ret None)"

lemma guards_rpcWork: "rpcWorkOk out t \<Longrightarrow> rpc_guards out (\<lambda>_. True) (rpcWork t)"
  by (cases t)
    (auto simp: rpcWork_def rpcWorkOk_def hitWork_def minerWork_def edge_guards intro!: guards_catchP)

definition rpcResult :: "'s edge \<Rightarrow> (http_request, rpc_task) edge_label \<Rightarrow> http_response option \<Rightarrow> bool" where
  "rpcResult out l x =
     (case (l, x) of
        (Request req, Some resp) \<Rightarrow>
          hasCors rpc_CORS (hres_headers resp) \<and> (relayed req \<longrightarrow> rpcFaithful out req resp)
      | _ \<Rightarrow> True)"

interpretation rpcs: service "edge_handle out" "edge_inv out (rpcEntry out) (rpcWorkOk out)"
    "edge_promise (rpcEntry out) (rpcWorkOk out)" "edge_rely out (rpcEntry out)"
    "edge_start (rpcRequest bound) rpcTask" "rpcResult out"
  for out :: "'s edge" and bound
proof
  fix w w' :: "('s, rpc_task) edge_world" and l p
  assume inv: "edge_inv out (rpcEntry out) (rpcWorkOk out) w" and st: "edge_start (rpcRequest bound) rpcTask w l p w'"
  show "edge_inv out (rpcEntry out) (rpcWorkOk out) w' \<and> rpc_guards out (rpcResult out l) p"
  proof (cases l)
    case (Request req)
    then show ?thesis
      using inv st guards_rpc_fetch [of out req bound]
      by (simp add: edge_start_def rpcRequest_def rpcResult_def guards_bindP)
  next
    case (Work t)
    then have "rpcWorkOk out t" using inv st by (auto simp: edge_start_def edge_inv_def)
    then show ?thesis
      using Work inv st guards_rpcWork [of out t] notin_set_remove1
      by (auto simp: edge_start_def rpcTask_def rpcResult_def guards_bindP edge_inv_def)
  qed
qed

end
