(* ===== verification/Rpc_Failover.thy ===== *)
theory Rpc_Failover
  imports Rpc_Worker
begin

text \<open>
  The proxy request by request: refused paths, the order in which the nodes are tried, how often
  a node is asked, and the counters that are updated after the response.
\<close>

declare u_simps [simp del]

section \<open>Refused paths\<close>

lemma rpc_fetch_blocked:
  assumes "hreq_path req \<in> set BLOCKED_PATHS" "hreq_method req \<noteq> u ''OPTIONS''"
  shows "rpc_fetch bound req =
    Ret \<lparr>hres_status = 403, hres_headers = (u ''content-type'', u ''application/json'') # rpc_CORS,
         hres_body = Some (Inr (errorBody (- 32600) ''endpoint not exposed''))\<rparr>"
proof -
  have "u ''/stats'' \<notin> set BLOCKED_PATHS" by (simp add: BLOCKED_PATHS_def)
  then have "hreq_path req \<noteq> u ''/stats''" using assms(1) by auto
  then show ?thesis using assms by (simp add: rpc_fetch_def newResponse_def)
qed

section \<open>Failover\<close>

text \<open>A request that none of the caches is asked for.\<close>

definition uncached :: "http_request \<Rightarrow> bool" where
  "uncached req \<longleftrightarrow>
     (BIN_CACHE_TTL (hreq_path req) = None \<or> requestBody req = None) \<and>
     \<not> (isJsonRpc req \<and> (\<exists>m kvs. parseRpc (hreq_body req) = Some (m, kvs) \<and> CACHE_TTL m \<noteq> None)) \<and>
     \<not> (bareRequest req \<and> CACHE_TTL (urlMethod req) \<noteq> None)"

lemma lookups_uncached:
  assumes "uncached req"
  shows "binLookup bound req = Ret (Inr None)" "rpcLookup bound req = Ret (Inr None)"
    "pathLookup bound req = Ret (Inr None)"
  using assms
  by (auto simp: uncached_def binLookup_def rpcLookup_def pathLookup_def split: option.splits)

definition direct :: "http_request \<Rightarrow> bool" where
  "direct req \<longleftrightarrow>
     hreq_method req \<noteq> u ''OPTIONS'' \<and> \<not> (hreq_path req = u ''/stats'' \<and> hreq_method req = u ''GET'') \<and>
     hreq_path req \<notin> set BLOCKED_PATHS \<and> uncached req"

lemma rpc_fetch_direct: "direct req \<Longrightarrow> rpc_fetch bound req = tryOrigins bound req None None ORIGINS"
  by (auto simp: rpc_fetch_def direct_def lookups_uncached)

text \<open>A node is down when the fetch fails or the status is 500 or more.\<close>

definition down :: "http_response res \<Rightarrow> bool" where
  "down x = (case x of Inl e \<Rightarrow> True | Inr y \<Rightarrow> 500 \<le> hres_status y)"

text \<open>An answer that can be passed on: below 500, and without a body where none is allowed.\<close>

definition relayable :: "http_response \<Rightarrow> bool" where
  "relayable y \<longleftrightarrow>
     200 \<le> hres_status y \<and> hres_status y < 500 \<and>
     (hres_body y = None \<or> hres_status y \<notin> {204, 205, 304})"

definition relay :: "http_response \<Rightarrow> http_response" where
  "relay y =
     \<lparr>hres_status = hres_status y,
      hres_headers = missHeaders (headerOr (hres_headers y) (u ''content-type'') (u ''application/json'')) ''BYPASS'',
      hres_body = hres_body y\<rparr>"

lemma run_bumps:
  "\<exists>w'. run (edge_handle out) (bumpHit bound nodeId) w = (Inr (), w')"
  "\<exists>w'. run (edge_handle out) (bumpMiner bound req) w = (Inr (), w')"
  by (auto simp: bumpHit_def bumpMiner_def edge_run split: option.splits)

lemma tryOrigin_down:
  assumes "down (origin out (etick w) (rpcOriginRequest (snd node) req))"
  shows "run (edge_handle out) (tryOrigin bound req b s node) w = (Inr None, w\<lparr>etick := Suc (etick w)\<rparr>)"
  using assms by (auto simp: tryOrigin_def edge_run down_def split: sum.splits)

lemma tryOrigin_up:
  assumes "origin out (etick w) (rpcOriginRequest (snd node) req) = Inr y" "relayable y"
  shows "\<exists>w'. run (edge_handle out) (tryOrigin bound req None None node) w = (Inr (Some (relay y)), w')"
proof -
  let ?w = "w\<lparr>etick := Suc (etick w)\<rparr>"
  obtain w1 where w1: "run (edge_handle out) (bumpHit bound (fst node)) ?w = (Inr (), w1)"
    using run_bumps(1) by blast
  obtain w2 where w2: "run (edge_handle out) (bumpMiner bound req) w1 = (Inr (), w2)"
    using run_bumps(2) by blast
  have "rpcAnswer None None y = Ret (relay y)"
    using assms(2) by (auto simp: rpcAnswer_def relay_def relayable_def newResponse_def)
  then show ?thesis
    using assms w1 w2 by (simp add: tryOrigin_def edge_run relayable_def)
qed

lemma tryOrigins_first:
  assumes "origin out (etick w) (rpcOriginRequest (snd node) req) = Inr y" "relayable y"
  shows "fst (run (edge_handle out) (tryOrigins bound req None None (node # nodes)) w) = Inr (relay y)"
proof -
  obtain w' where "run (edge_handle out) (tryOrigin bound req None None node) w = (Inr (Some (relay y)), w')"
    using tryOrigin_up [OF assms] by blast
  then show ?thesis by (simp add: run_bindP)
qed

lemma tryOrigins_next:
  assumes "down (origin out (etick w) (rpcOriginRequest (snd node) req))"
  shows "run (edge_handle out) (tryOrigins bound req b s (node # nodes)) w
    = run (edge_handle out) (tryOrigins bound req b s nodes) (w\<lparr>etick := Suc (etick w)\<rparr>)"
  using tryOrigin_down [OF assms] by (simp add: run_bindP)

definition unreachable :: http_response where
  "unreachable =
     \<lparr>hres_status = 502, hres_headers = (u ''content-type'', u ''application/json'') # rpc_CORS,
      hres_body = Some (Inr (errorBody (- 1) ''all nodes unreachable''))\<rparr>"

lemma tryOrigins_none: "run h (tryOrigins bound req b s []) w = (Inr unreachable, w)"
  by (simp add: newResponse_def unreachable_def)

text \<open>The addresses of the two nodes, and the order in which they are asked.\<close>

definition node2 :: ustring where
  "node2 = u ''http://static.197.125.225.46.clients.your-server.de''"

definition node1 :: ustring where
  "node1 = u ''http://static.34.142.105.178.clients.your-server.de''"

lemma ORIGINS_nodes: "ORIGINS = [(u ''node2'', node2), (u ''node1'', node1)]"
  by (simp add: ORIGINS_def node1_def node2_def)

text \<open>What the nodes give, in the order in which they are asked: the first that is up.\<close>

fun failover :: "http_response res list \<Rightarrow> http_response" where
  "failover [] = unreachable"
| "failover (Inl e # xs) = failover xs"
| "failover (Inr y # xs) = (if 500 \<le> hres_status y then failover xs else relay y)"

fun askNodes :: "'s edge \<Rightarrow> http_request \<Rightarrow> nat \<Rightarrow> (ustring \<times> ustring) list \<Rightarrow> http_response res list" where
  "askNodes out req n [] = []"
| "askNodes out req n (node # nodes) =
     origin out n (rpcOriginRequest (snd node) req) # askNodes out req (Suc n) nodes"

lemma tryOrigins_failover:
  assumes "\<forall>n url y. origin out n (rpcOriginRequest url req) = Inr y \<longrightarrow> hres_status y < 500 \<longrightarrow> relayable y"
  shows "fst (run (edge_handle out) (tryOrigins bound req None None nodes) w)
    = Inr (failover (askNodes out req (etick w) nodes))"
proof (induction nodes arbitrary: w)
  case Nil
  show ?case by (simp add: newResponse_def unreachable_def)
next
  case (Cons node nodes)
  let ?x = "origin out (etick w) (rpcOriginRequest (snd node) req)"
  show ?case
  proof (cases "down ?x")
    case True
    then have "failover (askNodes out req (etick w) (node # nodes)) = failover (askNodes out req (Suc (etick w)) nodes)"
      by (cases ?x) (simp_all add: down_def)
    then show ?thesis using tryOrigins_next [OF True] Cons.IH by (simp del: tryOrigins.simps askNodes.simps)
  next
    case False
    then obtain y where y: "?x = Inr y" "hres_status y < 500" by (cases ?x) (auto simp: down_def)
    with assms have "relayable y" by blast
    from tryOrigins_first [OF y(1) this] y show ?thesis by (simp del: tryOrigins.simps)
  qed
qed

section \<open>How often the nodes are asked\<close>

named_theorems edge_spend \<open>the number of fetches of an edge program, computed\<close>

lemma edge_spends_effects [edge_spend]:
  "spends isFetch (cacheMatch k) R1 anyEnd n \<longleftrightarrow> (\<forall>v. R1 v n)"
  "spends isFetch (fetchOrigin req) R2 E n \<longleftrightarrow>
     0 < n \<and> (\<forall>x. R2 x (n - 1)) \<and> (\<forall>e. E e (n - 1))"
  "spends isFetch (digest256 b) R3 anyEnd n \<longleftrightarrow> (\<forall>d. R3 d n)"
  "spends isFetch (waitUntil t) R4 E n \<longleftrightarrow> R4 () n"
  "spends isFetch (statsGet k) R6 anyEnd n \<longleftrightarrow> (\<forall>v. R6 v n)"
  "spends isFetch (statsList p l) R7 anyEnd n \<longleftrightarrow> (\<forall>v. R7 v n)"
  by (auto simp: edge_effects isFetch_def all_edge_resp)

lemma spends_edgeNow [edge_spend]:
  "spends isFetch edgeNow R E n \<longleftrightarrow> (\<forall>t. R t n) \<and> E TypeError n"
  by (auto simp: edge_effects isFetch_def all_edge_resp)

declare spends_bindP [edge_spend] spends_catchP [edge_spend]

lemma spends_bumps [edge_spend]:
  "R () n \<Longrightarrow> E TypeError n \<Longrightarrow> spends isFetch (bumpHit bound nodeId) R E n"
  "R () n \<Longrightarrow> E TypeError n \<Longrightarrow> spends isFetch (bumpMiner bound req) R E n"
  by (auto simp: bumpHit_def bumpMiner_def edge_spend split: option.splits)

lemma spends_rpcAnswer:
  "(\<And>x. R x n) \<Longrightarrow> (\<And>e. E e n) \<Longrightarrow> spends isFetch (rpcAnswer b s y) R E n"
  unfolding rpcAnswer_def Let_def
  by (auto simp: edge_spend spends_liftR split: option.splits sum.splits prod.splits)

lemma spends_tryOrigin:
  "0 < n \<Longrightarrow> (\<And>x. R x (n - 1)) \<Longrightarrow> spends isFetch (tryOrigin bound req b s node) R anyEnd n"
  unfolding tryOrigin_def
  by (auto simp: edge_spend intro!: spends_bumps spends_rpcAnswer)

lemma spends_tryOrigins:
  "length nodes \<le> n \<Longrightarrow> spends isFetch (tryOrigins bound req b s nodes) anyEnd anyEnd n"
proof (induction nodes arbitrary: n)
  case Nil
  show ?case by (simp add: spends_liftR split: sum.splits)
next
  case (Cons node nodes)
  then have "spends isFetch (tryOrigins bound req b s nodes) anyEnd anyEnd (n - 1)" by simp
  then show ?case
    using Cons.prems
    by (simp add: spends_bindP) (rule spends_tryOrigin, auto split: option.splits)
qed

lemma spends_liftR_end [edge_spend]: "spends C (liftR v) R anyEnd n \<longleftrightarrow> (\<forall>x. v = Inr x \<longrightarrow> R x n)"
  by (simp add: spends_liftR split: sum.splits)

lemma spends_bumpCache: "R () n \<Longrightarrow> spends isFetch (bumpCache bound req) R anyEnd n"
  by (auto simp: bumpCache_def edge_spend intro!: spends_bumps)

lemma spends_lookups:
  "(\<And>x. R1 x n) \<Longrightarrow> spends isFetch (binLookup bound req) R1 anyEnd n"
  "(\<And>x. R2 x n) \<Longrightarrow> spends isFetch (rpcLookup bound req) R2 anyEnd n"
  "(\<And>x. R3 x n) \<Longrightarrow> spends isFetch (pathLookup bound req) R3 anyEnd n"
  unfolding binLookup_def rpcLookup_def pathLookup_def textHit_def cacheKeyFor_def
  by (auto simp: edge_spend Let_def intro!: spends_bumpCache split: option.splits prod.splits)

lemma spends_nodeCounters:
  "(\<And>x. R x n) \<Longrightarrow> spends isFetch (nodeCounters bound day nodes) R anyEnd n"
proof (induction nodes arbitrary: R)
  case (Cons node nodes)
  then show ?case by (cases node) (auto simp: edge_spend readCounter_def)
qed simp

lemma spends_statsPage: "spends isFetch (statsPage bound) anyEnd anyEnd n"
  unfolding statsPage_def Let_def readCounter_def
  by (auto simp: edge_spend intro!: spends_nodeCounters)

lemma spends_rpc_fetch: "spends isFetch (rpc_fetch bound req) anyEnd anyEnd 2"
proof -
  have "length ORIGINS \<le> 2" by (simp add: ORIGINS_def)
  then show ?thesis
    unfolding rpc_fetch_def
    by (auto simp: spends_bindP spends_liftR_end spends_statsPage intro!: spends_lookups spends_tryOrigins
        split: sum.splits)
qed

section \<open>Work after the response\<close>

text \<open>Counting a hit ends normally whatever fails.\<close>

lemma hitWork_ends: "\<exists>w'. run (edge_handle out) (hitWork key) w = (Inr (), w')"
  by (auto simp: hitWork_def edge_run split: option.splits)

text \<open>What is stored of a miner depends on the address through eight bytes of the hash.\<close>

lemma minerWork_hash:
  assumes "take 8 (sha256 out (minerPayload day ip)) = take 8 (sha256 out (minerPayload day ip'))"
  shows "run (edge_handle out) (minerWork day ip) w = run (edge_handle out) (minerWork day ip') w"
  using assms by (simp add: minerWork_def edge_run split: option.splits)

end
