(* ===== verification/Edge_Props.thy ===== *)
theory Edge_Props
  imports Pool_Worker Rpc_Cache Rpc_Failover
begin

text \<open>
  The properties of the two edge workers, each over every interleaving of requests and of the
  work they leave, and the platform in memory at which their hypotheses hold: a cache and a
  namespace that forget nothing, nodes that answer every request alike, and no failures.
\<close>

declare u_simps [simp del]

section \<open>A platform in memory\<close>

type_synonym edge_memory = "(ustring \<Rightarrow> http_response option) \<times> (ustring \<Rightarrow> ustring option)"

definition demo_answer :: http_response where
  "demo_answer = \<lparr>hres_status = 200, hres_headers = [], hres_body = Some (Inr [123, 125])\<rparr>"

definition demo_edge :: "edge_memory edge" where
  "demo_edge =
     \<lparr>cmatch = (\<lambda>s t k. fst s k), cput = (\<lambda>s t k r. ((fst s)(k \<mapsto> r), snd s)),
      sget = (\<lambda>s t k. snd s k), sput = (\<lambda>s t k v ttl. (fst s, (snd s)(k \<mapsto> v))),
      slist = (\<lambda>s t p n. []), origin = (\<lambda>n req. Inr demo_answer),
      site_assets = (\<lambda>n req. Inr demo_answer), edge_clock = (\<lambda>n. n), sha256 = (\<lambda>b. b),
      edge_fault = (\<lambda>n. None)\<rparr>"

definition demo_edge_world :: "(edge_memory, 't) edge_world" where
  "demo_edge_world = \<lparr>estore = (\<lambda>k. None, \<lambda>k. None), etick = 0, pending = []\<rparr>"

lemma demo_edge_laws: "cache_laws demo_edge" "cmatch demo_edge (estore demo_edge_world) t k = None" "pending demo_edge_world = []"
  by (simp_all add: cache_laws_def demo_edge_def demo_edge_world_def)

definition demo_http :: "string \<Rightarrow> string \<Rightarrow> bytes \<Rightarrow> http_request" where
  "demo_http m p b = \<lparr>hreq_method = u m, hreq_path = u p, hreq_search = [], hreq_headers = [], hreq_body = b\<rparr>"

text \<open>A request that is served alone.\<close>

lemma serve_alone:
  assumes "run (edge_handle out) (fetchP req) w = (Inr x, w')"
  shows "(sstep (edge_handle out) (edge_start fetchP workP))\<^sup>*\<^sup>* ([], w) ([(Request req, Ret x)], w')"
proof -
  have "sstep (edge_handle out) (edge_start fetchP workP) ([], w) ([] @ [(Request req, fetchP req)], w)"
    by (rule sstep.start) (simp add: edge_start_def)
  moreover have "(sstep (edge_handle out) (edge_start fetchP workP))\<^sup>*\<^sup>* ([(Request req, fetchP req)], w)
      ([(Request req, fetchP req)][0 := (Request req, liftR (Inr x))], w')"
    by (rule run_sstep [OF assms]) simp_all
  ultimately show ?thesis by (simp add: converse_rtranclp_into_rtranclp)
qed

section \<open>The pool worker\<close>

text \<open>
  C16. The pool worker answers faithfully: starting from an empty cache, under every interleaving,
  eviction and failure, the response to a request under \<^verbatim>\<open>/pool/\<close> carries the headers for other
  origins and the body of an answer that the pool server gave to a request for the same address,
  with its status or, for a cached answer below 400, with 200; or it is the report 502.
\<close>

theorem pool_answers_faithful:
  assumes "cache_laws out" "\<forall>t k. cmatch out (estore w) t k = None" "pending w = []"
    "(sstep (edge_handle out) (edge_start poolRequest poolTask))\<^sup>*\<^sup>* ([], w) (ps, w')"
    "(Request req, Ret (Some resp)) \<in> set ps" "proxied req"
  shows "poolFaithful out req resp"
proof -
  have "edge_inv out (poolEntry out) (poolWorkOk out) w" using assms(1-3) by (simp add: edge_inv_def cache_ok_def)
  from pools.service_result [OF assms(4) this assms(5)] show ?thesis using assms(6) by (simp add: poolResult_def)
qed

lemma demo_pool_run:
  "\<exists>resp w'. run (edge_handle demo_edge) (poolRequest (demo_http ''GET'' ''/pool/stats'' [])) demo_edge_world = (Inr (Some resp), w')"
  by (simp add: poolRequest_def pool_fetch_def demo_http_def poolCacheKey_def GET_CACHE_TTL_def startsWith_def take_u
      edge_run demo_edge_def demo_edge_world_def poolForward_def poolAnswer_def readBody_def demo_answer_def poolCached_def
      newResponse_def Let_def)

theorem pool_answers_faithful_witness:
  "\<exists>resp. poolFaithful demo_edge (demo_http ''GET'' ''/pool/stats'' []) resp"
proof -
  obtain resp w' where "run (edge_handle demo_edge) (poolRequest (demo_http ''GET'' ''/pool/stats'' [])) demo_edge_world
      = (Inr (Some resp), w')"
    using demo_pool_run by blast
  then have steps: "(sstep (edge_handle demo_edge) (edge_start poolRequest poolTask))\<^sup>*\<^sup>* ([], demo_edge_world)
      ([(Request (demo_http ''GET'' ''/pool/stats'' []), Ret (Some resp))], w')"
    by (rule serve_alone)
  have "proxied (demo_http ''GET'' ''/pool/stats'' [])" by (simp add: proxied_def demo_http_def startsWith_def take_u)
  then show ?thesis
    using pool_answers_faithful [OF demo_edge_laws(1) _ demo_edge_laws(3) steps] demo_edge_laws(2) by force
qed



section \<open>The RPC proxy\<close>

text \<open>
  C15. The proxy answers faithfully: starting from an empty cache, under every interleaving,
  eviction and failure, every response carries the headers for other origins, and the response to
  a request that is passed on carries the answer of a node to the request itself, or the cached
  answer below 400 of a node to a request with the same key in the same one of the three caches,
  or is the report 502.
\<close>

theorem rpc_answers_faithful:
  assumes "cache_laws out" "\<forall>t k. cmatch out (estore w) t k = None" "pending w = []"
    "(sstep (edge_handle out) (edge_start (rpcRequest bound) rpcTask))\<^sup>*\<^sup>* ([], w) (ps, w')"
    "(Request req, Ret (Some resp)) \<in> set ps"
  shows "hasCors rpc_CORS (hres_headers resp) \<and> (relayed req \<longrightarrow> rpcFaithful out req resp)"
proof -
  have "edge_inv out (rpcEntry out) (rpcWorkOk out) w" using assms(1-3) by (simp add: edge_inv_def cache_ok_def)
  from rpcs.service_result [OF assms(4) this assms(5)] show ?thesis by (simp add: rpcResult_def)
qed

lemma demo_rpc_run:
  "\<exists>resp w'. run (edge_handle demo_edge) (rpcRequest False (demo_http ''GET'' ''/get_height'' [])) demo_edge_world
     = (Inr (Some resp), w')"
proof -
  have "BIN_CACHE_TTL (u ''/get_height'') = None" by (simp add: BIN_CACHE_TTL_def)
  moreover have "u ''/get_height'' \<notin> set BLOCKED_PATHS" by (simp add: BLOCKED_PATHS_def)
  moreover have "urlMethod (demo_http ''GET'' ''/get_height'' []) = u ''get_height''"
    by (simp add: urlMethod_def demo_http_def u_simps toLowerCaseAscii_def isUpperAZ_def)
  moreover have "CACHE_TTL (u ''get_height'') = Some (Secs 8)" by (simp add: CACHE_TTL_def)
  ultimately show ?thesis
    by (simp add: rpcRequest_def rpc_fetch_def binLookup_def rpcLookup_def isJsonRpc_def pathLookup_def bareRequest_def
        demo_http_def edge_run demo_edge_def demo_edge_world_def ORIGINS_def tryOrigin_def bumpHit_def bumpMiner_def
        demo_answer_def rpcAnswer_def readBody_def cachedResponse_def newResponse_def Let_def)
qed

theorem rpc_answers_faithful_witness:
  "\<exists>resp. hasCors rpc_CORS (hres_headers resp) \<and> rpcFaithful demo_edge (demo_http ''GET'' ''/get_height'' []) resp"
proof -
  obtain resp w' where "run (edge_handle demo_edge) (rpcRequest False (demo_http ''GET'' ''/get_height'' [])) demo_edge_world
      = (Inr (Some resp), w')"
    using demo_rpc_run by blast
  then have steps: "(sstep (edge_handle demo_edge) (edge_start (rpcRequest False) rpcTask))\<^sup>*\<^sup>* ([], demo_edge_world)
      ([(Request (demo_http ''GET'' ''/get_height'' []), Ret (Some resp))], w')"
    by (rule serve_alone)
  have "relayed (demo_http ''GET'' ''/get_height'' [])" by (simp add: relayed_def demo_http_def BLOCKED_PATHS_def)
  then show ?thesis
    using rpc_answers_faithful [OF demo_edge_laws(1) _ demo_edge_laws(3) steps] demo_edge_laws(2) by force
qed






text \<open>
  C31. The proxy asks the nodes at most twice for a request, so that a request costs each node at
  most one fetch: on every run, whatever the platform answers, no third fetch is made.
\<close>

theorem rpc_two_fetches: "spends isFetch (rpc_fetch bound req) anyEnd anyEnd 2"
  by (rule spends_rpc_fetch)

text \<open>
  C33. Counting never fails the worker: whatever the namespace does, counting a hit ends normally,
  and what counting a miner does to the world depends on the address of the miner only through
  eight bytes of the hash of day and address.
\<close>

theorem counting_contained:
  "(\<exists>w'. run (edge_handle out) (hitWork key) w = (Inr (), w')) \<and>
   (take 8 (sha256 out (minerPayload day ip)) = take 8 (sha256 out (minerPayload day ip')) \<longrightarrow>
     run (edge_handle out) (minerWork day ip) w = run (edge_handle out) (minerWork day ip') w)"
  using hitWork_ends minerWork_hash by blast

theorem counting_contained_witness:
  "run (edge_handle (demo_edge\<lparr>sha256 := (\<lambda>b. [])\<rparr>)) (minerWork (u ''2026-01-01'') (u ''1.2.3.4'')) demo_edge_world
   = run (edge_handle (demo_edge\<lparr>sha256 := (\<lambda>b. [])\<rparr>)) (minerWork (u ''2026-01-01'') (u ''5.6.7.8'')) demo_edge_world"
  using counting_contained [of "demo_edge\<lparr>sha256 := (\<lambda>b. [])\<rparr>" "u ''k''" demo_edge_world
      "u ''2026-01-01''" "u ''1.2.3.4''" "u ''5.6.7.8''"]
  by simp

end
