(* ===== verification/Game_Dom.thy ===== *)
theory Game_Dom
  imports Js_Format Wallet
begin

text \<open>
  The page of the game, \<^verbatim>\<open>wordmine/public/index.html\<close>, as its script \<^verbatim>\<open>wordmine/public/game.js\<close> sees
  it: the elements with the properties the script reads and writes, the variables of the script,
  the local storage, the timers that are set and the calls that have not been answered. The
  script runs as actions on such a page; an action that throws stops there and keeps what it has
  done, as an event handler does.
\<close>

declare u_simps [simp del]

section \<open>Elements\<close>

text \<open>The elements of the table \<open>els\<close>, the cells of the board, and the keys by their token.\<close>

datatype elem =
    EStart | EGame | EWin | ELoss | ECooldown | EPlayBtn
  | EFaucetBal | EFaucetAddr | EMaxReward | EMinReward
  | EWinGuesses | EWinReward | EClaimAddress | EClaimBtn | EClaimStatus
  | ELossWord | ECooldownTime | ECopyAddress | EToast
  | EWalletPanel | EWalletEmpty | EWalletSaved | EWalletSavedAddr | EWalletChangeBtn
  | EWalletChangeConfirm | EWalletChangeCurrentAddr | EWalletChangeCb
  | EWalletChangeGoBtn | EWalletChangeCancelBtn
  | EGenWalletBtn | EWalletShow | EWalletShowAddr | EWalletShowSeed
  | ESeedCopyBtn | ESeedConfirmCb | ESeedContinue
  | ECell nat nat | EKey ustring

text \<open>The content of an element: text, markup, or the numbered words of a seed.\<close>

datatype content = Text ustring | Markup ustring | Words "(ustring \<times> ustring) list"

record element =
  el_content :: content
  el_class :: "ustring list"
  el_hidden :: bool
  el_disabled :: bool
  el_value :: ustring
  el_checked :: bool
  el_data :: "ustring \<Rightarrow> ustring option"
  el_color :: ustring

text \<open>\<open>textContent\<close>; the script never reads it from an element that holds markup.\<close>

definition textContent :: "element \<Rightarrow> ustring" where
  "textContent e =
     (case el_content e of Text s \<Rightarrow> s | Markup s \<Rightarrow> s | Words ws \<Rightarrow> concat (map snd ws))"

definition blank :: element where
  "blank = \<lparr>el_content = Text [], el_class = [], el_hidden = False, el_disabled = False, el_value = [],
     el_checked = False, el_data = (\<lambda>k. None), el_color = []\<rparr>"

section \<open>Pages\<close>

text \<open>
  What a timer or an interval does when it fires, with the values its function has captured; an
  interval stays set.
\<close>

datatype timer =
    HideToast
  | FlipStart nat nat "json option" ustring
  | FlipDone nat nat "json option" ustring
  | Unshake nat nat
  | PaintKeyboard
  | ShowWin json
  | ShowLoss "json option"
  | Reload
  | CooldownTick jsnum
  | PollTick "json option" nat
  | FaucetInterval
  | TurnstileInterval

text \<open>What the script waits for, with the values its continuation uses.\<close>

datatype call =
    StartCall "ustring option"
  | GuessCall "json option" ustring
  | ClaimCall "ustring option" ustring
  | PollCall ustring "json option" nat
  | FaucetCall
  | ImportCall
  | CopySeedCall ustring
  | CopyAddressCall ustring

record page =
  doc :: "elem \<Rightarrow> element"
  sessionVar :: "json option"
  currentRow :: nat
  currentCol :: nat
  guessList :: "(ustring \<times> json option) list"
  kbState :: "ustring \<Rightarrow> json option"
  captchaToken :: "ustring option"
  gameOver :: bool
  walletMod :: bool
  turnstileReady :: bool
  storage :: "ustring \<Rightarrow> ustring option"
  timers :: "timer list"
  calls :: "call list"
  clipboard :: "ustring option"

text \<open>
  The request of a call to the worker, \<open>fetch('/api' + path, ...)\<close>: its address and the JSON value
  of its body; a body makes it a \<open>POST\<close>. A property that is undefined is not part of the text.
\<close>

definition api :: "call \<Rightarrow> (ustring \<times> json option) option" where
  "api c =
     (case c of
        StartCall t \<Rightarrow>
          Some (u ''/api/start'', Some (JObj [(u ''captcha'', case t of None \<Rightarrow> JNull | Some s \<Rightarrow> JStr s)]))
      | GuessCall sess guess \<Rightarrow>
          Some (u ''/api/guess'', Some (JObj ((case sess of None \<Rightarrow> [] | Some v \<Rightarrow> [(u ''session'', v)]) @
            [(u ''guess'', JStr guess)])))
      | ClaimCall token addr \<Rightarrow>
          Some (u ''/api/claim'', Some (JObj ((case token of None \<Rightarrow> [] | Some t \<Rightarrow> [(u ''token'', JStr t)]) @
            [(u ''address'', JStr addr)])))
      | PollCall q claimId tries \<Rightarrow> Some (u ''/api/claim_status?id='' @ q, None)
      | FaucetCall \<Rightarrow> Some (u ''/api/faucet'', None)
      | _ \<Rightarrow> None)"

section \<open>Actions\<close>

type_synonym 'a act = "page \<Rightarrow> 'a res \<times> page"

definition skip :: "unit act" where
  "skip p = (Inr (), p)"

definition throwA :: "js_error \<Rightarrow> 'a act" where
  "throwA e p = (Inl e, p)"

definition bindA :: "'a act \<Rightarrow> ('a \<Rightarrow> 'b act) \<Rightarrow> 'b act" where
  "bindA a f p = (case a p of (Inl e, p') \<Rightarrow> (Inl e, p') | (Inr x, p') \<Rightarrow> f x p')"

definition liftA :: "'a res \<Rightarrow> 'a act" where
  "liftA r p = (r, p)"

definition updA :: "(page \<Rightarrow> page) \<Rightarrow> unit act" where
  "updA f p = (Inr (), f p)"

primrec steps :: "unit act list \<Rightarrow> unit act" where
  "steps [] = skip"
| "steps (a # as) = bindA a (\<lambda>_. steps as)"

text \<open>A handler is called by the browser, which only reports what it throws.\<close>

definition perform :: "unit act \<Rightarrow> page \<Rightarrow> page" where
  "perform a p = snd (a p)"

subsection \<open>Assignments to elements\<close>

definition onElem :: "elem \<Rightarrow> (element \<Rightarrow> element) \<Rightarrow> unit act" where
  "onElem e f = updA (\<lambda>p. p\<lparr>doc := (doc p)(e := f (doc p e))\<rparr>)"

definition setContent :: "elem \<Rightarrow> content \<Rightarrow> unit act" where
  "setContent e c = onElem e (\<lambda>x. x\<lparr>el_content := c\<rparr>)"

definition setText :: "elem \<Rightarrow> ustring \<Rightarrow> unit act" where
  "setText e s = setContent e (Text s)"

definition setTextJson :: "elem \<Rightarrow> json option \<Rightarrow> unit act" where
  "setTextJson e v = bindA (liftA (domText v)) (setText e)"

definition setClass :: "elem \<Rightarrow> ustring list \<Rightarrow> unit act" where
  "setClass e cs = onElem e (\<lambda>x. x\<lparr>el_class := cs\<rparr>)"

definition addClass :: "elem \<Rightarrow> ustring \<Rightarrow> unit act" where
  "addClass e c = onElem e (\<lambda>x. x\<lparr>el_class := (if c \<in> set (el_class x) then el_class x else el_class x @ [c])\<rparr>)"

definition removeClass :: "elem \<Rightarrow> ustring \<Rightarrow> unit act" where
  "removeClass e c = onElem e (\<lambda>x. x\<lparr>el_class := filter (\<lambda>d. d \<noteq> c) (el_class x)\<rparr>)"

definition setHidden :: "elem \<Rightarrow> bool \<Rightarrow> unit act" where
  "setHidden e b = onElem e (\<lambda>x. x\<lparr>el_hidden := b\<rparr>)"

definition setDisabled :: "elem \<Rightarrow> bool \<Rightarrow> unit act" where
  "setDisabled e b = onElem e (\<lambda>x. x\<lparr>el_disabled := b\<rparr>)"

definition setValue :: "elem \<Rightarrow> ustring \<Rightarrow> unit act" where
  "setValue e s = onElem e (\<lambda>x. x\<lparr>el_value := s\<rparr>)"

definition setChecked :: "elem \<Rightarrow> bool \<Rightarrow> unit act" where
  "setChecked e b = onElem e (\<lambda>x. x\<lparr>el_checked := b\<rparr>)"

definition setData :: "elem \<Rightarrow> ustring \<Rightarrow> ustring \<Rightarrow> unit act" where
  "setData e k v = onElem e (\<lambda>x. x\<lparr>el_data := (el_data x)(k \<mapsto> v)\<rparr>)"

definition setColor :: "elem \<Rightarrow> ustring \<Rightarrow> unit act" where
  "setColor e s = onElem e (\<lambda>x. x\<lparr>el_color := s\<rparr>)"

subsection \<open>Timers, calls and storage\<close>

definition setTimer :: "timer \<Rightarrow> unit act" where
  "setTimer t = updA (\<lambda>p. p\<lparr>timers := timers p @ [t]\<rparr>)"

definition clearTimer :: "timer \<Rightarrow> unit act" where
  "clearTimer t = updA (\<lambda>p. p\<lparr>timers := filter (\<lambda>x. x \<noteq> t) (timers p)\<rparr>)"

definition await :: "call \<Rightarrow> unit act" where
  "await c = updA (\<lambda>p. p\<lparr>calls := calls p @ [c]\<rparr>)"

definition ADDRESS_KEY :: ustring where
  "ADDRESS_KEY = u ''wordmine.address''"

definition setItem :: "ustring \<Rightarrow> ustring \<Rightarrow> unit act" where
  "setItem k v = updA (\<lambda>p. p\<lparr>storage := (storage p)(k \<mapsto> v)\<rparr>)"

definition removeItem :: "ustring \<Rightarrow> unit act" where
  "removeItem k = updA (\<lambda>p. p\<lparr>storage := (storage p)(k := None)\<rparr>)"

end
