(* ===== verification/Game_Page.thy ===== *)
theory Game_Page
  imports Game_Dom
begin

text \<open>
  The functions of \<^verbatim>\<open>wordmine/public/game.js\<close>, in its order: helpers, board, keyboard, panels, the
  start of a game, the claim and its polling, the faucet, the captcha and the wallet. An
  asynchronous function is cut at its \<open>await\<close>: the part before it ends by leaving a call, the part
  after it (\<open>on...\<close>) takes the answer.
\<close>

declare u_simps [simp del]

section \<open>Helpers\<close>

definition toast :: "ustring \<Rightarrow> unit act" where
  "toast msg =
     steps [setText EToast msg, addClass EToast (u ''show''), clearTimer HideToast, setTimer HideToast]"

definition toastJson :: "json \<Rightarrow> unit act" where
  "toastJson v = bindA (liftA (domText (Some v))) toast"

definition formatGlac :: "json option \<Rightarrow> ustring res" where
  "formatGlac v =
     (if v = None \<or> v = Some JNull then Inr ([8212] @ u '' GLAC'')
      else bindR (toNumber v) (\<lambda>x.
        if x = NaN then Inr ([8212] @ u '' GLAC'')
        else case v of
          Some (JNum n) \<Rightarrow>
            if n = Fin 0 then Inr (u ''0 GLAC'')
            else Inr (toFixed (if numLess n (Fin (fl (1 / 100))) then 6 else if numLess n (Fin 1) then 4 else 3) n @ u '' GLAC'')
        | _ \<Rightarrow> Inl TypeError))"

section \<open>Board\<close>

text \<open>The element of a cell is found when the board has it.\<close>

definition hasCell :: "nat \<Rightarrow> nat \<Rightarrow> bool" where
  "hasCell r c \<longleftrightarrow> r < 6 \<and> c < 5"

definition buildBoard :: "unit act" where
  "buildBoard =
     updA (\<lambda>p. p\<lparr>doc := (\<lambda>e. case e of
       ECell r c \<Rightarrow> if hasCell r c then blank\<lparr>el_class := [u ''cell'']\<rparr> else doc p e
     | _ \<Rightarrow> doc p e)\<rparr>)"

definition setCell :: "nat \<Rightarrow> nat \<Rightarrow> ustring \<Rightarrow> ustring \<Rightarrow> unit act" where
  "setCell r c ch cls =
     (if \<not> hasCell r c then skip
      else steps [setText (ECell r c) ch, setClass (ECell r c) (u ''cell'' # (if cls = [] then [] else [cls]))])"

definition flipRow :: "nat \<Rightarrow> json option \<Rightarrow> ustring \<Rightarrow> unit act" where
  "flipRow r marks letters = steps (map (\<lambda>c. setTimer (FlipStart r c marks letters)) [0..<5])"

text \<open>\<open>letters[c]\<close>, as a key of an object and as text.\<close>

definition letterAt :: "ustring \<Rightarrow> nat \<Rightarrow> ustring" where
  "letterAt letters c = (if c < length letters then [letters ! c] else u ''undefined'')"

definition letterText :: "ustring \<Rightarrow> nat \<Rightarrow> ustring" where
  "letterText letters c = (if c < length letters then [letters ! c] else [])"

text \<open>The tokens of a class attribute.\<close>

fun classTokens :: "ustring \<Rightarrow> ustring \<Rightarrow> ustring list" where
  "classTokens t [] = (if t = [] then [] else [t])"
| "classTokens t (c # s) =
     (if c = 9 \<or> c = 10 \<or> c = 12 \<or> c = 13 \<or> c = 32
      then (if t = [] then [] else [t]) @ classTokens [] s
      else classTokens (t @ [c]) s)"

definition onFlipStart :: "nat \<Rightarrow> nat \<Rightarrow> json option \<Rightarrow> ustring \<Rightarrow> unit act" where
  "onFlipStart r c marks letters =
     (if \<not> hasCell r c then throwA TypeError
      else steps [addClass (ECell r c) (u ''flip''), setTimer (FlipDone r c marks letters)])"

definition onFlipDone :: "nat \<Rightarrow> nat \<Rightarrow> json option \<Rightarrow> ustring \<Rightarrow> unit act" where
  "onFlipDone r c marks letters =
     bindA (liftA (bindR (indexProp marks c) strOf)) (\<lambda>m.
       steps [setClass (ECell r c) (classTokens [] (u ''cell '' @ m)),
              setText (ECell r c) (letterText letters c)])"

definition shakeRow :: "nat \<Rightarrow> unit act" where
  "shakeRow r =
     (if \<not> r < 6 then throwA TypeError
      else steps (concat (map (\<lambda>c. [addClass (ECell r c) (u ''shake''), setTimer (Unshake r c)]) [0..<5])))"

section \<open>Keyboard\<close>

definition KEYS :: "ustring list list" where
  "KEYS =
     [map u [''Q'', ''W'', ''E'', ''R'', ''T'', ''Y'', ''U'', ''I'', ''O'', ''P''],
      map u [''A'', ''S'', ''D'', ''F'', ''G'', ''H'', ''J'', ''K'', ''L''],
      map u [''ENT'', ''Z'', ''X'', ''C'', ''V'', ''B'', ''N'', ''M'', ''BACK'']]"

definition isWide :: "ustring \<Rightarrow> bool" where
  "isWide t \<longleftrightarrow> t = u ''ENT'' \<or> t = u ''BACK''"

definition buildKey :: "ustring \<Rightarrow> unit act" where
  "buildKey t =
     steps [setClass (EKey t) (u ''key'' # (if isWide t then [u ''wide''] else [])),
            setData (EKey t) (u ''k'') t,
            setText (EKey t) (if t = u ''BACK'' then [9003] else if t = u ''ENT'' then u ''ENTER'' else t)]"

definition buildKeyboard :: "unit act" where
  "buildKeyboard = steps (map buildKey (concat KEYS))"

text \<open>Adding a class whose token is empty or has white space throws.\<close>

definition paintKey :: "ustring \<Rightarrow> unit act" where
  "paintKey t =
     (if isWide t then skip
      else steps
        [removeClass (EKey t) (u ''green''), removeClass (EKey t) (u ''yellow''), removeClass (EKey t) (u ''gray''),
         (\<lambda>p. if \<not> truthy (kbState p t) then skip p
              else bindA (liftA (strOf (kbState p t))) (\<lambda>s.
                     if classTokens [] s = [s] then addClass (EKey t) s
                     else throwA (Error (u ''InvalidCharacterError''))) p)])"

definition paintKeyboard :: "unit act" where
  "paintKeyboard = steps (map paintKey (concat KEYS))"

definition backspace :: "unit act" where
  "backspace p =
     (if currentCol p = 0 then skip p
      else steps [updA (\<lambda>p. p\<lparr>currentCol := currentCol p - 1\<rparr>),
                  setCell (currentRow p) (currentCol p - 1) [] []] p)"

definition getCurrentGuess :: "ustring act" where
  "getCurrentGuess p =
     (if \<not> currentRow p < 6 then throwA TypeError p
      else (Inr (concat (map (\<lambda>c. textContent (doc p (ECell (currentRow p) c))) [0..<5])), p))"

definition submitRow :: "unit act" where
  "submitRow p =
     (if currentCol p < 5 then steps [shakeRow (currentRow p), toast (u ''Need 5 letters'')] p
      else bindA getCurrentGuess (\<lambda>guess. await (GuessCall (sessionVar p) guess)) p)"

definition pressKey :: "ustring \<Rightarrow> unit act" where
  "pressKey t p =
     (if gameOver p then skip p
      else if t = u ''ENT'' then submitRow p
      else if t = u ''BACK'' then backspace p
      else if currentCol p < 5 \<and> length t = 1 \<and> isUpperAZ (hd t)
        then steps [setCell (currentRow p) (currentCol p) t (u ''typing''),
                    updA (\<lambda>p. p\<lparr>currentCol := currentCol p + 1\<rparr>)] p
      else skip p)"

section \<open>The answer to a guess\<close>

definition guessRejected :: "json \<Rightarrow> unit act" where
  "guessRejected b p =
     bindA (liftA (if truthy (Some b) then getProp b (u ''error'') else Inr None)) (\<lambda>e.
       let err = orText e (u ''guess rejected'')
       in if err = JStr (u ''not_in_wordlist'')
          then steps [shakeRow (currentRow p), toast (u ''Not in word list'')]
          else if err = JStr (u ''no_session'')
          then steps [toast (u ''Session expired '' @ [8212] @ u '' refreshing'' @ [8230]), setTimer Reload]
          else steps [shakeRow (currentRow p), toastJson err]) p"

text \<open>
  \<open>order[v]\<close>: the three marks; what else the name finds, in the prototype, is no number, and every
  comparison with it is false.
\<close>

definition orderOf :: "json option \<Rightarrow> nat option res" where
  "orderOf v =
     bindR (strOf v) (\<lambda>s. Inr (map_of [(u ''gray'', 0), (u ''yellow'', 1), (u ''green'', 2)] s))"

definition upgrades :: "json option \<Rightarrow> nat \<Rightarrow> json option \<Rightarrow> bool res" where
  "upgrades marks c cur =
     (if \<not> truthy cur then Inr True
      else bindR (indexProp marks c) (\<lambda>m.
           bindR (orderOf m) (\<lambda>a.
           bindR (orderOf cur) (\<lambda>b.
           Inr (case (a, b) of (Some x, Some y) \<Rightarrow> y < x | _ \<Rightarrow> False)))))"

definition updateKey :: "json option \<Rightarrow> ustring \<Rightarrow> nat \<Rightarrow> unit act" where
  "updateKey marks letters c p =
     (let L = letterAt letters c
      in bindA (liftA (upgrades marks c (kbState p L))) (\<lambda>up.
           if up then bindA (liftA (indexProp marks c)) (\<lambda>m. updA (\<lambda>p. p\<lparr>kbState := (kbState p)(L := m)\<rparr>))
           else skip) p)"

definition guessAccepted :: "ustring \<Rightarrow> json \<Rightarrow> unit act" where
  "guessAccepted guess b p =
     bindA (liftA (getProp b (u ''marks''))) (\<lambda>marks.
     steps
      ([flipRow (currentRow p) marks guess] @ map (updateKey marks guess) [0..<5] @
       [setTimer PaintKeyboard,
        updA (\<lambda>p. p\<lparr>guessList := guessList p @ [(guess, marks)], currentRow := currentRow p + 1, currentCol := 0\<rparr>),
        bindA (liftA (getProp b (u ''won''))) (\<lambda>w.
        bindA (liftA (getProp b (u ''lost''))) (\<lambda>l.
          if truthy w then steps [updA (\<lambda>p. p\<lparr>gameOver := True\<rparr>), setTimer (ShowWin b)]
          else if truthy l
          then bindA (liftA (getProp b (u ''answer''))) (\<lambda>a.
                 steps [updA (\<lambda>p. p\<lparr>gameOver := True\<rparr>), setTimer (ShowLoss a)])
          else skip))])) p"

definition onGuess :: "ustring \<Rightarrow> nat \<Rightarrow> json \<Rightarrow> unit act" where
  "onGuess guess st b = (if st \<noteq> 200 then guessRejected b else guessAccepted guess b)"

section \<open>Panels\<close>

definition showStart :: "unit act" where
  "showStart =
     steps [setHidden EStart False, setHidden EGame True, setHidden EWin True, setHidden ELoss True,
       setHidden ECooldown True, setHidden EWalletPanel False, setHidden EWalletShow True,
       setHidden EWalletChangeConfirm True]"

definition showGame :: "unit act" where
  "showGame =
     steps [setHidden EStart True, setHidden EGame False, setHidden EWalletPanel True,
       setHidden EWalletChangeConfirm True]"

definition showWin :: "json \<Rightarrow> unit act" where
  "showWin data =
     steps
      [setHidden EGame True, setHidden EWin False,
       bindA (liftA (bindR (getProp data (u ''guesses'')) (\<lambda>g.
                bindR (strOf g) (\<lambda>s. Inr (s @ (if g = Some (JNum (Fin 1)) then u '' GUESS'' else u '' GUESSES''))))))
         (setText EWinGuesses),
       bindA (liftA (bindR (getProp data (u ''reward'')) formatGlac)) (setText EWinReward),
       (\<lambda>p. case storage p ADDRESS_KEY of
              None \<Rightarrow> skip p
            | Some saved \<Rightarrow> if saved = [] then skip p else setValue EClaimAddress saved p),
       bindA (liftA (bindR (getProp data (u ''claim_token'')) strOf)) (setData EClaimBtn (u ''token'')),
       bindA (liftA (bindR (getProp data (u ''reward'')) strOf)) (setData EClaimBtn (u ''reward''))]"

definition showLoss :: "json option \<Rightarrow> unit act" where
  "showLoss answer = steps [setHidden EGame True, setHidden ELoss False, setTextJson ELossWord answer]"

definition cooldownTick :: "jsnum \<Rightarrow> unit act" where
  "cooldownTick secsLeft =
     (let s = numMax (Fin 0) (numFloor secsLeft);
          mm = numFloor (numDivPos s (Fin 60)); ss = numRem s 60;
          left = numAdd secsLeft (Fin (- 1))
      in steps [setText ECooldownTime (numToString mm @ u ''m '' @ numToString ss @ u ''s''),
           setTimer (if left = NaN \<or> numLess left (Fin 0) then Reload else CooldownTick left)])"

definition showCooldown :: "jsnum \<Rightarrow> unit act" where
  "showCooldown secsLeft = steps [setHidden EStart True, setHidden ECooldown False, cooldownTick secsLeft]"

section \<open>Starting a game\<close>

definition startGame :: "unit act" where
  "startGame p =
     steps [setDisabled EPlayBtn True, setText EPlayBtn (u ''STARTING'' @ [8230]), await (StartCall (captchaToken p))] p"

definition onStart :: "nat \<Rightarrow> json \<Rightarrow> unit act" where
  "onStart st b =
     (if st = 429
      then bindA (liftA (getProp b (u ''retry_after_seconds''))) (\<lambda>secs.
             showCooldown (case secs of Some (JNum n) \<Rightarrow> n | _ \<Rightarrow> Fin 3600))
      else if st \<noteq> 200
      then bindA (liftA (getProp b (u ''error''))) (\<lambda>e.
             steps [toastJson (orText e (u ''failed to start'')), setDisabled EPlayBtn False, setText EPlayBtn (u ''PLAY'')])
      else bindA (liftA (getProp b (u ''session''))) (\<lambda>s. steps [updA (\<lambda>p. p\<lparr>sessionVar := s\<rparr>), showGame]))"

section \<open>Claiming\<close>

definition RED :: ustring where
  "RED = u ''var(--red)''"

definition DIM :: ustring where
  "DIM = u ''var(--dim)''"

definition GREEN :: ustring where
  "GREEN = u ''var(--green)''"

definition submitClaim :: "unit act" where
  "submitClaim p =
     (let addr = trim (el_value (doc p EClaimAddress))
      in if \<not> addressPattern addr
         then steps [setColor EClaimStatus RED,
                setText EClaimStatus (u ''Doesn'' @ [39] @ u ''t look like a valid Glaciem address (starts with R, 97 chars).'')] p
         else steps [setItem ADDRESS_KEY addr, setDisabled EClaimBtn True, setText EClaimBtn (u ''SUBMITTING'' @ [8230]),
                setColor EClaimStatus DIM,
                setText EClaimStatus (u ''Queued. Payout daemon picks it up within ~10s.''),
                await (ClaimCall (el_data (doc p EClaimBtn) (u ''token'')) addr)] p)"

definition pollTick :: "json option \<Rightarrow> nat \<Rightarrow> unit act" where
  "pollTick claimId tries =
     bindA (liftA (bindR (strOf claimId) encodeURIComponent)) (\<lambda>q. await (PollCall q claimId (tries + 1)))"

definition pollClaimStatus :: "json option \<Rightarrow> unit act" where
  "pollClaimStatus claimId = pollTick claimId 0"

definition onClaim :: "nat \<Rightarrow> json \<Rightarrow> unit act" where
  "onClaim st b =
     (if st \<noteq> 200
      then steps [setDisabled EClaimBtn False, setText EClaimBtn (u ''CLAIM''), setColor EClaimStatus RED,
             bindA (liftA (getProp b (u ''error''))) (\<lambda>e. setTextJson EClaimStatus (Some (orText e (u ''claim failed''))))]
      else steps [setText EClaimBtn (u ''CLAIMED''),
             bindA (liftA (getProp b (u ''claim_id''))) pollClaimStatus])"

text \<open>\<open>(v || '').slice(0, 12)\<close> in a concatenation: of a string or an array; other values have no \<open>slice\<close>.\<close>

definition slice12 :: "json option \<Rightarrow> ustring res" where
  "slice12 v =
     (if \<not> truthy v then Inr []
      else case the v of
        JStr s \<Rightarrow> Inr (take 12 s)
      | JArr vs \<Rightarrow> jsToString (JArr (take 12 vs))
      | _ \<Rightarrow> Inl TypeError)"

definition pollPaid :: "json \<Rightarrow> unit act" where
  "pollPaid b =
     steps [setColor EClaimStatus GREEN,
       bindA (liftA (bindR (getProp b (u ''tx_hash'')) slice12)) (\<lambda>h.
         setContent EClaimStatus (Markup (u ''Paid. <span class=\"mono\">tx '' @ h @ [8230] @ u ''</span>'')))]"

definition pollFailed :: "json \<Rightarrow> unit act" where
  "pollFailed b =
     steps [setColor EClaimStatus RED,
       bindA (liftA (bindR (getProp b (u ''error'')) (\<lambda>e. jsToString (orText e (u ''unknown''))))) (\<lambda>s.
         setText EClaimStatus (u ''Payout failed: '' @ s)),
       setDisabled EClaimBtn False, setText EClaimBtn (u ''RETRY'')]"

definition onPoll :: "json option \<Rightarrow> nat \<Rightarrow> nat \<Rightarrow> json \<Rightarrow> unit act" where
  "onPoll claimId tries st b =
     bindA (liftA (if st = 200 then bindR (getProp b (u ''status'')) (\<lambda>s. Inr (s = Some (JStr (u ''paid''))))
                   else Inr False)) (\<lambda>paid.
     if paid then pollPaid b
     else bindA (liftA (if truthy (Some b) then bindR (getProp b (u ''status'')) (\<lambda>s. Inr (s = Some (JStr (u ''failed''))))
                        else Inr False)) (\<lambda>failed.
     if failed then pollFailed b
     else if tries < 30 then setTimer (PollTick claimId tries)
     else steps [setColor EClaimStatus DIM,
            setText EClaimStatus (u ''Payout still pending after 2.5 min '' @ [8212] @ u '' check the address later.'')]))"

section \<open>The faucet\<close>

definition refreshFaucet :: "unit act" where
  "refreshFaucet = await FaucetCall"

definition onFaucet :: "nat \<Rightarrow> json \<Rightarrow> unit act" where
  "onFaucet st b =
     (if st \<noteq> 200 then skip
      else bindA (liftA (getProp b (u ''balance''))) (\<lambda>bal.
           bindA (liftA (getProp b (u ''address''))) (\<lambda>addr.
           bindA (liftA (toNumber bal)) (\<lambda>x.
             let mx = numMin (Fin 1) (numDivPos x (Fin 1000)); mn = numDivPos mx (Fin 6)
             in steps [bindA (liftA (formatGlac bal)) (setText EFaucetBal),
                  bindA (liftA (formatGlac (Some (JNum mx)))) (setText EMaxReward),
                  bindA (liftA (formatGlac (Some (JNum mn)))) (setText EMinReward),
                  if truthy addr then setTextJson EFaucetAddr addr else skip]))))"

section \<open>The captcha\<close>

definition onCaptcha :: "ustring \<Rightarrow> unit act" where
  "onCaptcha t =
     steps [updA (\<lambda>p. p\<lparr>captchaToken := Some t\<rparr>), setDisabled EPlayBtn False, setText EPlayBtn (u ''PLAY'')]"

definition onCaptchaExpired :: "unit act" where
  "onCaptchaExpired =
     steps [updA (\<lambda>p. p\<lparr>captchaToken := None\<rparr>), setDisabled EPlayBtn True, setText EPlayBtn (u ''CAPTCHA EXPIRED'')]"

text \<open>The interval waits for the script of the captcha and ends when it is there.\<close>

definition turnstileWaiter :: "unit act" where
  "turnstileWaiter p = (if turnstileReady p then clearTimer TurnstileInterval p else skip p)"

section \<open>The wallet\<close>

definition shortAddr :: "ustring \<Rightarrow> ustring" where
  "shortAddr a = (if a = [] then [] else take 12 a @ [8230] @ drop (length a - 8) a)"

definition renderSavedWallet :: "unit act" where
  "renderSavedWallet p =
     steps
      [(case storage p ADDRESS_KEY of
          Some a \<Rightarrow>
            if addressPattern a
            then steps [setHidden EWalletEmpty True, setHidden EWalletSaved False, setText EWalletSavedAddr a,
                   setValue EClaimAddress a]
            else steps [setHidden EWalletEmpty False, setHidden EWalletSaved True]
        | None \<Rightarrow> steps [setHidden EWalletEmpty False, setHidden EWalletSaved True]),
       setHidden EWalletPanel False] p"

definition hideAllWalletPanels :: "unit act" where
  "hideAllWalletPanels =
     steps [setHidden EWalletShow True, setContent EWalletShowSeed (Words []), setText EWalletShowAddr [],
       setChecked ESeedConfirmCb False, setDisabled ESeedContinue True]"

definition showSeed :: "wallet \<Rightarrow> unit act" where
  "showSeed w =
     steps [setText EWalletShowAddr (address w),
       setContent EWalletShowSeed (Words (zip (map (\<lambda>i. natToString (i + 1)) [0..<length (mnemonic w)]) (mnemonic w))),
       setData ESeedCopyBtn (u ''seed'') (joinWith (u '' '') (mnemonic w)),
       setHidden EWalletPanel True, setHidden EStart True, setHidden EWalletShow False,
       setData ESeedContinue (u ''addr'') (address w)]"

definition generateNewWallet :: "unit act" where
  "generateNewWallet =
     steps [setDisabled EGenWalletBtn True, setText EGenWalletBtn (u ''GENERATING'' @ [8230]), await ImportCall]"

definition resetGenerate :: "unit act" where
  "resetGenerate = steps [setDisabled EGenWalletBtn False, setText EGenWalletBtn (u ''GENERATE NEW WALLET'')]"

text \<open>The module could not be loaded, or it was and \<open>generateWallet\<close> has thrown or returned.\<close>

datatype import_result = ImportFailed | Imported "wallet res"

definition onImport :: "import_result \<Rightarrow> unit act" where
  "onImport r =
     (case r of
        ImportFailed \<Rightarrow>
          steps [toast (u ''Couldn'' @ [39] @ u ''t load wallet code '' @ [8212] @ u '' check your network''), resetGenerate]
      | Imported (Inl e) \<Rightarrow> steps [updA (\<lambda>p. p\<lparr>walletMod := True\<rparr>), resetGenerate]
      | Imported (Inr w) \<Rightarrow> steps [updA (\<lambda>p. p\<lparr>walletMod := True\<rparr>), resetGenerate, showSeed w])"

definition copySeed :: "unit act" where
  "copySeed p =
     (case el_data (doc p ESeedCopyBtn) (u ''seed'') of
        None \<Rightarrow> skip p
      | Some seed \<Rightarrow> if seed = [] then skip p else await (CopySeedCall seed) p)"

definition onCopySeed :: "ustring \<Rightarrow> bool \<Rightarrow> unit act" where
  "onCopySeed seed ok =
     (if ok
      then steps [updA (\<lambda>p. p\<lparr>clipboard := Some seed\<rparr>),
             toast (u ''25 words copied '' @ [8212] @ u '' write them on paper; restore in the Glaciem app'')]
      else toast (u ''Copy failed '' @ [8212] @ u '' select the words manually''))"

definition seedConfirm :: "bool \<Rightarrow> unit act" where
  "seedConfirm b = steps [setChecked ESeedConfirmCb b, setDisabled ESeedContinue (\<not> b)]"

definition seedContinue :: "unit act" where
  "seedContinue p =
     steps
      [(case el_data (doc p ESeedContinue) (u ''addr'') of
          None \<Rightarrow> skip
        | Some a \<Rightarrow> if a = [] then skip else setItem ADDRESS_KEY a),
       hideAllWalletPanels, renderSavedWallet, setHidden EStart False, toast (u ''Address saved'')] p"

definition walletChange :: "unit act" where
  "walletChange p =
     steps
      [setText EWalletChangeCurrentAddr (case storage p ADDRESS_KEY of
          Some a \<Rightarrow> if a = [] then u ''(none)'' else a | None \<Rightarrow> u ''(none)''),
       setChecked EWalletChangeCb False, setDisabled EWalletChangeGoBtn True,
       setHidden EWalletPanel True, setHidden EStart True, setHidden EWalletChangeConfirm False] p"

definition walletChangeConfirm :: "bool \<Rightarrow> unit act" where
  "walletChangeConfirm b = steps [setChecked EWalletChangeCb b, setDisabled EWalletChangeGoBtn (\<not> b)]"

definition walletChangeGo :: "unit act" where
  "walletChangeGo p =
     (if \<not> el_checked (doc p EWalletChangeCb) then skip p
      else steps [removeItem ADDRESS_KEY, setValue EClaimAddress [], setHidden EWalletChangeConfirm True,
             setHidden EStart False, renderSavedWallet, toast (u ''Address cleared'')] p)"

definition walletChangeCancel :: "unit act" where
  "walletChangeCancel = steps [setHidden EWalletChangeConfirm True, setHidden EStart False, renderSavedWallet]"

definition copyAddress :: "unit act" where
  "copyAddress p =
     (let a = trim (textContent (doc p EFaucetAddr))
      in if a \<noteq> [] \<and> a \<noteq> u ''loading'' @ [8230] then await (CopyAddressCall a) p else skip p)"

definition onCopyAddress :: "ustring \<Rightarrow> bool \<Rightarrow> unit act" where
  "onCopyAddress a ok =
     (if ok then steps [updA (\<lambda>p. p\<lparr>clipboard := Some a\<rparr>), toast (u ''Address copied'')] else skip)"

end
