(* ===== verification/Game_Events.thy ===== *)
theory Game_Events
  imports Game_Page
begin

text \<open>
  The page as a state machine: how it is loaded, which events reach it, and which function of the
  script each of them runs. Clicks reach what is visible and enabled; timers fire and calls are
  answered in any order, and an answer may be anything, also a failure.
\<close>

declare u_simps [simp del]

section \<open>Loading\<close>

definition htmlHidden :: "elem list" where
  "htmlHidden =
     [EWalletPanel, EWalletSaved, EWalletChangeConfirm, EWalletShow, EGame, EWin, ELoss, ECooldown]"

definition htmlText :: "elem \<Rightarrow> ustring" where
  "htmlText e =
     (case e of
        EFaucetBal \<Rightarrow> [8212] @ u '' GLAC''
      | EMaxReward \<Rightarrow> [8212] @ u '' GLAC''
      | EMinReward \<Rightarrow> [8212] @ u '' GLAC''
      | EWinReward \<Rightarrow> [8212] @ u '' GLAC''
      | EWinGuesses \<Rightarrow> [8212]
      | ECooldownTime \<Rightarrow> [8212]
      | EFaucetAddr \<Rightarrow> u ''loading'' @ [8230]
      | EPlayBtn \<Rightarrow> u ''WAITING FOR CAPTCHA'' @ [8230]
      | EClaimBtn \<Rightarrow> u ''CLAIM''
      | EGenWalletBtn \<Rightarrow> u ''GENERATE NEW WALLET''
      | EWalletChangeBtn \<Rightarrow> u ''CHANGE ADDRESS''
      | EWalletChangeGoBtn \<Rightarrow> u ''CONTINUE '' @ [8212] @ u '' REPLACE ADDRESS''
      | EWalletChangeCancelBtn \<Rightarrow> u ''CANCEL''
      | ESeedCopyBtn \<Rightarrow> u ''COPY ALL 25 WORDS''
      | ESeedContinue \<Rightarrow> u ''SAVE ADDRESS AND CONTINUE''
      | ECopyAddress \<Rightarrow> u ''COPY ADDRESS''
      | _ \<Rightarrow> [])"

definition htmlElement :: "elem \<Rightarrow> element" where
  "htmlElement e =
     blank\<lparr>el_content := Text (htmlText e), el_hidden := e \<in> set htmlHidden,
       el_disabled := e \<in> {EWalletChangeGoBtn, ESeedContinue, EPlayBtn}\<rparr>"

definition freshPage :: "(ustring \<Rightarrow> ustring option) \<Rightarrow> ustring option \<Rightarrow> page" where
  "freshPage st clip =
     \<lparr>doc = htmlElement, sessionVar = Some JNull, currentRow = 0, currentCol = 0, guessList = [],
      kbState = (\<lambda>k. None), captchaToken = None, gameOver = False, walletMod = False,
      turnstileReady = False, storage = st, timers = [], calls = [], clipboard = clip\<rparr>"

definition prefillAddress :: "unit act" where
  "prefillAddress p =
     (case storage p ADDRESS_KEY of
        None \<Rightarrow> skip p
      | Some saved \<Rightarrow> if saved = [] then skip p else setValue EClaimAddress saved p)"

definition bootstrap :: "unit act" where
  "bootstrap =
     steps [setTimer TurnstileInterval, buildBoard, buildKeyboard, showStart, renderSavedWallet, refreshFaucet,
       setTimer FaucetInterval, prefillAddress]"

definition initPage :: "(ustring \<Rightarrow> ustring option) \<Rightarrow> ustring option \<Rightarrow> page" where
  "initPage st clip = perform bootstrap (freshPage st clip)"

text \<open>\<open>location.reload()\<close>: the storage and the clipboard outlive the page.\<close>

definition reload :: "page \<Rightarrow> page" where
  "reload p = initPage (storage p) (clipboard p)"

section \<open>Events\<close>

datatype reply =
    ApiReply "(nat \<times> json) res"
  | ImportReply import_result
  | CopyReply bool

datatype page_event =
    Click elem
  | ClickReload
  | KeyDown ustring bool
  | TypeAddress ustring
  | Toggle elem bool
  | Fire nat
  | Answer nat reply
  | CaptchaSolved ustring
  | CaptchaExpired
  | TurnstileScript

text \<open>The sections of the document around an element that the player uses.\<close>

definition containers :: "elem \<Rightarrow> elem list" where
  "containers e =
     (case e of
        EPlayBtn \<Rightarrow> [EStart]
      | EClaimBtn \<Rightarrow> [EWin]
      | EClaimAddress \<Rightarrow> [EWin]
      | EGenWalletBtn \<Rightarrow> [EWalletPanel, EWalletEmpty]
      | EWalletChangeBtn \<Rightarrow> [EWalletPanel, EWalletSaved]
      | EWalletChangeCb \<Rightarrow> [EWalletChangeConfirm]
      | EWalletChangeGoBtn \<Rightarrow> [EWalletChangeConfirm]
      | EWalletChangeCancelBtn \<Rightarrow> [EWalletChangeConfirm]
      | ESeedCopyBtn \<Rightarrow> [EWalletShow]
      | ESeedConfirmCb \<Rightarrow> [EWalletShow]
      | ESeedContinue \<Rightarrow> [EWalletShow]
      | EKey t \<Rightarrow> [EGame]
      | _ \<Rightarrow> [])"

definition usable :: "page \<Rightarrow> elem \<Rightarrow> bool" where
  "usable p e \<longleftrightarrow> (\<forall>x \<in> set (containers e). \<not> el_hidden (doc p x)) \<and> \<not> el_disabled (doc p e)"

definition onClick :: "elem \<Rightarrow> unit act" where
  "onClick e =
     (case e of
        EKey t \<Rightarrow> if t \<in> set (concat KEYS) then pressKey t else skip
      | EPlayBtn \<Rightarrow> startGame
      | EClaimBtn \<Rightarrow> submitClaim
      | ECopyAddress \<Rightarrow> copyAddress
      | EGenWalletBtn \<Rightarrow> generateNewWallet
      | ESeedCopyBtn \<Rightarrow> copySeed
      | ESeedContinue \<Rightarrow> seedContinue
      | EWalletChangeBtn \<Rightarrow> walletChange
      | EWalletChangeGoBtn \<Rightarrow> walletChangeGo
      | EWalletChangeCancelBtn \<Rightarrow> walletChangeCancel
      | _ \<Rightarrow> skip)"

definition onToggle :: "elem \<Rightarrow> bool \<Rightarrow> unit act" where
  "onToggle e b =
     (case e of
        ESeedConfirmCb \<Rightarrow> seedConfirm b
      | EWalletChangeCb \<Rightarrow> walletChangeConfirm b
      | _ \<Rightarrow> skip)"

definition onKeydown :: "ustring \<Rightarrow> bool \<Rightarrow> unit act" where
  "onKeydown key modifier p =
     (if el_hidden (doc p EGame) then skip p
      else if modifier then skip p
      else if key = u ''Enter'' then pressKey (u ''ENT'') p
      else if key = u ''Backspace'' then pressKey (u ''BACK'') p
      else if length key = 1 \<and> (isLowerAZ (hd key) \<or> isUpperAZ (hd key)) then pressKey (toUpperCase key) p
      else skip p)"

definition onTimer :: "timer \<Rightarrow> unit act" where
  "onTimer t =
     (case t of
        HideToast \<Rightarrow> removeClass EToast (u ''show'')
      | FlipStart r c marks letters \<Rightarrow> onFlipStart r c marks letters
      | FlipDone r c marks letters \<Rightarrow> onFlipDone r c marks letters
      | Unshake r c \<Rightarrow> removeClass (ECell r c) (u ''shake'')
      | PaintKeyboard \<Rightarrow> paintKeyboard
      | ShowWin b \<Rightarrow> showWin b
      | ShowLoss a \<Rightarrow> showLoss a
      | Reload \<Rightarrow> skip
      | CooldownTick n \<Rightarrow> cooldownTick n
      | PollTick claimId tries \<Rightarrow> pollTick claimId tries
      | FaucetInterval \<Rightarrow> refreshFaucet
      | TurnstileInterval \<Rightarrow> turnstileWaiter)"

text \<open>After a failure nothing of the continuation runs: no function of the script catches one.\<close>

fun onReply :: "call \<Rightarrow> reply \<Rightarrow> unit act" where
  "onReply (StartCall t) (ApiReply (Inr (st, b))) = onStart st b"
| "onReply (GuessCall sess guess) (ApiReply (Inr (st, b))) = onGuess guess st b"
| "onReply (ClaimCall token addr) (ApiReply (Inr (st, b))) = onClaim st b"
| "onReply (PollCall q claimId tries) (ApiReply (Inr (st, b))) = onPoll claimId tries st b"
| "onReply FaucetCall (ApiReply (Inr (st, b))) = onFaucet st b"
| "onReply ImportCall (ImportReply r) = onImport r"
| "onReply (CopySeedCall seed) (CopyReply ok) = onCopySeed seed ok"
| "onReply (CopyAddressCall a) (CopyReply ok) = onCopyAddress a ok"
| "onReply _ _ = skip"

section \<open>Steps\<close>

definition without :: "nat \<Rightarrow> 'a list \<Rightarrow> 'a list" where
  "without i xs = take i xs @ drop (Suc i) xs"

definition isInterval :: "timer \<Rightarrow> bool" where
  "isInterval t \<longleftrightarrow> t = FaucetInterval \<or> t = TurnstileInterval"

definition fire :: "nat \<Rightarrow> page \<Rightarrow> page" where
  "fire i p =
     (if \<not> i < length (timers p) then p
      else let t = timers p ! i
           in if t = Reload then reload p
              else perform (onTimer t) (if isInterval t then p else p\<lparr>timers := without i (timers p)\<rparr>))"

definition answer :: "nat \<Rightarrow> reply \<Rightarrow> page \<Rightarrow> page" where
  "answer i r p =
     (if \<not> i < length (calls p) then p
      else perform (onReply (calls p ! i) r) (p\<lparr>calls := without i (calls p)\<rparr>))"

definition canReload :: "page \<Rightarrow> bool" where
  "canReload p \<longleftrightarrow> (\<exists>e \<in> {EWin, ELoss, ECooldown}. \<not> el_hidden (doc p e))"

text \<open>The captcha calls back only after it has been rendered, which ends the interval.\<close>

definition rendered :: "page \<Rightarrow> bool" where
  "rendered p \<longleftrightarrow> TurnstileInterval \<notin> set (timers p)"

primrec page_step :: "page_event \<Rightarrow> page \<Rightarrow> page" where
  "page_step (Click e) p = (if usable p e then perform (onClick e) p else p)"
| "page_step ClickReload p = (if canReload p then reload p else p)"
| "page_step (KeyDown key modifier) p = perform (onKeydown key modifier) p"
| "page_step (TypeAddress s) p = (if usable p EClaimAddress then perform (setValue EClaimAddress s) p else p)"
| "page_step (Toggle e b) p = (if usable p e then perform (onToggle e b) p else p)"
| "page_step (Fire i) p = fire i p"
| "page_step (Answer i r) p = answer i r p"
| "page_step (CaptchaSolved t) p = (if rendered p then perform (onCaptcha t) p else p)"
| "page_step CaptchaExpired p = (if rendered p then perform onCaptchaExpired p else p)"
| "page_step TurnstileScript p = p\<lparr>turnstileReady := True\<rparr>"

primrec runPage :: "page_event list \<Rightarrow> page \<Rightarrow> page" where
  "runPage [] p = p"
| "runPage (e # es) p = runPage es (page_step e p)"

lemma runPage_append: "runPage (es @ fs) p = runPage fs (runPage es p)"
  by (induction es arbitrary: p) simp_all

section \<open>Evaluating actions\<close>

named_theorems act_eval \<open>what an action does to a page\<close>

lemma act_simps [act_eval]:
  "skip p = (Inr (), p)"
  "throwA e p = (Inl e, p)"
  "liftA r p = (r, p)"
  "updA f p = (Inr (), f p)"
  by (simp_all add: skip_def throwA_def liftA_def updA_def)

lemma bindA_simps [act_eval]:
  "bindA skip f p = f () p"
  "bindA (updA g) f' p = f' () (g p)"
  "bindA (liftA (Inr x)) h p = h x p"
  "bindA (liftA (Inl e)) h p = (Inl e, p)"
  "bindA (throwA e) h p = (Inl e, p)"
  "bindA (bindA a b) h p = bindA a (\<lambda>x. bindA (b x) h) p"
  by (simp_all add: bindA_def skip_def updA_def liftA_def throwA_def split: prod.splits sum.splits)

lemma perform_simps [act_eval]:
  "perform skip p = p"
  "perform (throwA e) p = p"
  "perform (updA f) p = f p"
  by (simp_all add: perform_def skip_def throwA_def updA_def)

lemma perform_steps [act_eval]:
  "perform (steps []) p = p"
  "perform (steps (skip # as)) p = perform (steps as) p"
  "perform (steps (updA f # as)) p = perform (steps as) (f p)"
  "perform (steps (steps bs # as)) p = perform (steps (bs @ as)) p"
  "perform (steps (throwA e # as)) p = p"
proof -
  have "bindA (steps bs) (\<lambda>_. steps as) = steps (bs @ as)" for as bs
    by (induction bs) (simp_all add: fun_eq_iff bindA_def skip_def split: prod.splits sum.splits)
  then show "perform (steps (steps bs # as)) p = perform (steps (bs @ as)) p" by (simp add: perform_def)
qed (simp_all add: perform_def skip_def updA_def bindA_def throwA_def)

end
