(* ===== verification/Game_Inv.thy ===== *)
theory Game_Inv
  imports Game_Events
begin

text \<open>
  Invariants of the page. The locale \<open>page_rules\<close> says which single assignments of the script an
  invariant has to tolerate, and shows once that the handlers made of them keep it; the handlers
  that do more are treated for each invariant apart (\<open>page_handlers\<close>). \<open>page_invariant\<close> lifts an
  invariant of the handlers to all sequences of events.
\<close>

declare u_simps [simp del]

section \<open>Actions that keep a predicate\<close>

definition keepsA :: "(page \<Rightarrow> bool) \<Rightarrow> 'a act \<Rightarrow> bool" where
  "keepsA I a \<longleftrightarrow> (\<forall>p. I p \<longrightarrow> I (snd (a p)))"

lemma keepsA_I: "(\<And>p. I p \<Longrightarrow> I (snd (a p))) \<Longrightarrow> keepsA I a"
  by (simp add: keepsA_def)

lemma keepsA_D: "keepsA I a \<Longrightarrow> I p \<Longrightarrow> I (snd (a p))"
  by (simp add: keepsA_def)

lemma keepsA_perform: "keepsA I a \<Longrightarrow> I p \<Longrightarrow> I (perform a p)"
  by (simp add: keepsA_def perform_def)

named_theorems keeps \<open>actions that keep an invariant\<close>

lemma keepsA_basic [keeps]: "keepsA I skip" "keepsA I (throwA e)" "keepsA I (liftA r)"
  by (simp_all add: keepsA_def skip_def throwA_def liftA_def)

lemma keepsA_bindA [keeps]: "keepsA I a \<Longrightarrow> (\<And>x. keepsA I (f x)) \<Longrightarrow> keepsA I (bindA a f)"
proof (rule keepsA_I)
  fix p assume a: "keepsA I a" "\<And>x. keepsA I (f x)" and p: "I p"
  obtain r q where q: "a p = (r, q)" by fastforce
  then have "I q" using keepsA_D [OF a(1) p] by simp
  then show "I (snd (bindA a f p))" using keepsA_D [OF a(2)] q by (cases r) (simp_all add: bindA_def)
qed

lemma keepsA_lift: "(\<And>x. r = Inr x \<Longrightarrow> keepsA I (f x)) \<Longrightarrow> keepsA I (bindA (liftA r) f)"
  by (cases r) (simp_all add: keepsA_def bindA_def liftA_def)

lemma keepsA_steps [keeps]: "(\<forall>a \<in> set as. keepsA I a) \<Longrightarrow> keepsA I (steps as)"
  by (induction as) (simp_all add: keepsA_basic keepsA_bindA)

lemma keepsA_updA: "keepsA I (updA f) \<longleftrightarrow> (\<forall>p. I p \<longrightarrow> I (f p))"
  by (simp add: keepsA_def updA_def)

section \<open>What an invariant tolerates\<close>

definition isCell :: "elem \<Rightarrow> bool" where
  "isCell e = (case e of ECell r c \<Rightarrow> True | _ \<Rightarrow> False)"

lemma isCell_simps [simp]: "isCell (ECell r c)" "\<not> isCell (EKey t)"
  by (simp_all add: isCell_def)

text \<open>A change of an element that shows but holds no content, value or data.\<close>

definition cosmetic :: "(element \<Rightarrow> element) \<Rightarrow> bool" where
  "cosmetic f \<longleftrightarrow> (\<forall>x. el_content (f x) = el_content x \<and> el_value (f x) = el_value x \<and> el_data (f x) = el_data x)"

locale page_rules =
  fixes I :: "page \<Rightarrow> bool" and timerOk :: "timer \<Rightarrow> bool" and callOk :: "call \<Rightarrow> bool"
  assumes cosmetic_keeps: "cosmetic f \<Longrightarrow> keepsA I (onElem e f)"
    and content_keeps: "\<not> isCell e \<Longrightarrow> keepsA I (setContent e ct)"
    and value_keeps: "keepsA I (setValue e s)"
    and data_keeps: "e \<noteq> ESeedContinue \<Longrightarrow> keepsA I (setData e k v)"
    and timer_keeps: "timerOk t \<Longrightarrow> keepsA I (setTimer t)"
    and clear_keeps: "keepsA I (clearTimer t)"
    and call_keeps: "callOk cl \<Longrightarrow> keepsA I (await cl)"
    and remove_keeps: "keepsA I (removeItem k)"
    and session_keeps: "keepsA I (updA (\<lambda>p. p\<lparr>sessionVar := sv\<rparr>))"
    and captcha_keeps: "keepsA I (updA (\<lambda>p. p\<lparr>captchaToken := tok\<rparr>))"
    and module_keeps: "keepsA I (updA (\<lambda>p. p\<lparr>walletMod := True\<rparr>))"
    and over_keeps: "keepsA I (updA (\<lambda>p. p\<lparr>gameOver := True\<rparr>))"
    and clipboard_keeps: "keepsA I (updA (\<lambda>p. p\<lparr>clipboard := clip\<rparr>))"
    and timers_ok: "timerOk HideToast" "timerOk (Unshake r c)" "timerOk PaintKeyboard" "timerOk (ShowWin b)"
      "timerOk (ShowLoss a)" "timerOk Reload" "timerOk (CooldownTick n)" "timerOk FaucetInterval"
      "timerOk TurnstileInterval"
    and calls_ok: "callOk (StartCall captcha)" "callOk FaucetCall" "callOk ImportCall" "callOk (CopySeedCall s)"
      "callOk (CopyAddressCall s)"
begin

lemmas primitives = content_keeps value_keeps data_keeps timer_keeps clear_keeps call_keeps remove_keeps
  session_keeps captcha_keeps module_keeps over_keeps clipboard_keeps timers_ok calls_ok

lemma attributes:
  "keepsA I (setClass e cs)" "keepsA I (addClass e c)" "keepsA I (removeClass e c)" "keepsA I (setHidden e b)"
  "keepsA I (setDisabled e b)" "keepsA I (setChecked e b)" "keepsA I (setColor e s)"
  unfolding setClass_def addClass_def removeClass_def setHidden_def setDisabled_def setChecked_def setColor_def
  by (rule cosmetic_keeps, simp add: cosmetic_def)+

lemma texts:
  "\<not> isCell e \<Longrightarrow> keepsA I (setText e s)" "\<not> isCell e \<Longrightarrow> keepsA I (setTextJson e v)"
  by (simp_all add: setText_def setTextJson_def keeps primitives)

lemmas basics = primitives attributes texts

lemma toasts: "keepsA I (toast s)" "keepsA I (toastJson v)"
  by (simp_all add: toast_def toastJson_def keeps basics isCell_def)

lemma shakeRow_keeps: "keepsA I (shakeRow r)"
  by (auto simp: shakeRow_def intro!: keeps basics)

lemma panels:
  "keepsA I showStart" "keepsA I showGame" "keepsA I (showLoss a)" "keepsA I (cooldownTick n)"
  "keepsA I (showCooldown n)"
  by (simp_all add: showStart_def showGame_def showLoss_def cooldownTick_def showCooldown_def keeps basics isCell_def Let_def)

lemma prefill_keeps: "keepsA I prefillAddress"
  by (rule keepsA_I) (simp add: prefillAddress_def keepsA_D keeps basics split: option.splits)

lemma showWin_keeps: "keepsA I (showWin b)"
proof -
  have "keepsA I (\<lambda>p. case storage p ADDRESS_KEY of None \<Rightarrow> skip p
      | Some saved \<Rightarrow> if saved = [] then skip p else setValue EClaimAddress saved p)"
    by (rule keepsA_I) (simp add: keepsA_D keeps basics split: option.splits)
  then show ?thesis by (simp add: showWin_def keeps basics isCell_def)
qed

lemma guessRejected_keeps: "keepsA I (guessRejected b)"
  by (rule keepsA_I) (simp add: guessRejected_def Let_def keepsA_D keeps basics shakeRow_keeps toasts)

lemma paint_keeps: "keepsA I paintKeyboard"
proof -
  have "keepsA I (\<lambda>p. if \<not> truthy (kbState p t) then skip p
      else bindA (liftA (strOf (kbState p t))) (\<lambda>s. if classTokens [] s = [s] then addClass (EKey t) s
             else throwA (Error (u ''InvalidCharacterError''))) p)" for t
    by (rule keepsA_I) (simp add: keepsA_D keeps basics)
  then have "keepsA I (paintKey t)" for t by (simp add: paintKey_def keeps basics)
  then show ?thesis by (auto simp: paintKeyboard_def intro!: keeps)
qed

lemma start_handlers:
  "keepsA I startGame" "keepsA I (onStart st b)" "keepsA I (onFaucet st b)" "keepsA I refreshFaucet"
  "keepsA I (onCaptcha t)" "keepsA I onCaptchaExpired" "keepsA I turnstileWaiter"
proof -
  show "keepsA I startGame" by (rule keepsA_I) (simp add: startGame_def keepsA_D keeps basics isCell_def)
  show "keepsA I (onStart st b)" by (simp add: onStart_def keeps basics toasts panels isCell_def)
  show "keepsA I (onFaucet st b)" by (simp add: onFaucet_def Let_def keeps basics isCell_def)
  show "keepsA I refreshFaucet" by (simp add: refreshFaucet_def basics)
  show "keepsA I (onCaptcha t)" "keepsA I onCaptchaExpired"
    by (simp_all add: onCaptcha_def onCaptchaExpired_def keeps basics isCell_def)
  show "keepsA I turnstileWaiter" by (rule keepsA_I) (simp add: turnstileWaiter_def keepsA_D keeps basics)
qed

lemma claim_handlers: "keepsA I (pollPaid b)" "keepsA I (pollFailed b)"
  by (simp_all add: pollPaid_def pollFailed_def keeps basics isCell_def)

lemma renderSavedWallet_keeps: "keepsA I renderSavedWallet"
  by (rule keepsA_I)
    (simp add: renderSavedWallet_def keepsA_D keeps basics isCell_def split: option.splits)

lemma wallet_handlers:
  "keepsA I hideAllWalletPanels" "keepsA I generateNewWallet" "keepsA I resetGenerate" "keepsA I (onCopySeed seed ok)"
  "keepsA I (seedConfirm ok)" "keepsA I (walletChangeConfirm ok)" "keepsA I walletChangeCancel"
  "keepsA I (onCopyAddress seed ok)"
  by (simp_all add: hideAllWalletPanels_def generateNewWallet_def resetGenerate_def onCopySeed_def seedConfirm_def
      walletChangeConfirm_def walletChangeCancel_def onCopyAddress_def renderSavedWallet_keeps toasts keeps basics isCell_def)

lemma wallet_reading:
  "keepsA I copySeed" "keepsA I walletChange" "keepsA I walletChangeGo" "keepsA I copyAddress"
proof -
  show "keepsA I copySeed" by (rule keepsA_I) (simp add: copySeed_def keepsA_D keeps basics split: option.splits)
  show "keepsA I walletChange" by (rule keepsA_I) (simp add: walletChange_def keepsA_D keeps basics isCell_def)
  show "keepsA I walletChangeGo"
    by (rule keepsA_I) (simp add: walletChangeGo_def keepsA_D keeps basics isCell_def renderSavedWallet_keeps toasts)
  show "keepsA I copyAddress" by (rule keepsA_I) (simp add: copyAddress_def keepsA_D keeps basics Let_def)
qed

lemma buildKeyboard_keeps: "keepsA I buildKeyboard"
proof -
  have "keepsA I (buildKey t)" for t by (simp add: buildKey_def keeps basics)
  then show ?thesis by (auto simp: buildKeyboard_def intro!: keeps)
qed

lemma initPage_keeps:
  assumes "I (perform (steps [setTimer TurnstileInterval, buildBoard]) (freshPage st clip))"
  shows "I (initPage st clip)"
proof -
  let ?rest = "steps [buildKeyboard, showStart, renderSavedWallet, refreshFaucet, setTimer FaucetInterval, prefillAddress]"
  have "initPage st clip = perform ?rest (perform (steps [setTimer TurnstileInterval, buildBoard]) (freshPage st clip))"
    by (simp add: initPage_def bootstrap_def perform_def setTimer_def buildBoard_def bindA_def updA_def skip_def)
  moreover have "keepsA I ?rest"
    by (simp add: keeps basics buildKeyboard_keeps panels renderSavedWallet_keeps start_handlers prefill_keeps)
  ultimately show ?thesis using keepsA_perform assms by metis
qed

end

section \<open>All handlers\<close>

text \<open>What is left for an invariant: the handlers of guesses, claims and generated wallets.\<close>

definition importOk :: "(wallet \<Rightarrow> bool) \<Rightarrow> import_result \<Rightarrow> bool" where
  "importOk walletOk r = (case r of Imported (Inr w) \<Rightarrow> walletOk w | _ \<Rightarrow> True)"

definition replyOk :: "(wallet \<Rightarrow> bool) \<Rightarrow> reply \<Rightarrow> bool" where
  "replyOk walletOk r = (case r of ImportReply x \<Rightarrow> importOk walletOk x | _ \<Rightarrow> True)"

definition eventOk :: "(wallet \<Rightarrow> bool) \<Rightarrow> page_event \<Rightarrow> bool" where
  "eventOk walletOk ev = (case ev of Answer i r \<Rightarrow> replyOk walletOk r | _ \<Rightarrow> True)"

text \<open>The events that load the page anew.\<close>

definition reloading :: "page_event \<Rightarrow> page \<Rightarrow> bool" where
  "reloading ev p =
     (case ev of
        ClickReload \<Rightarrow> canReload p
      | Fire i \<Rightarrow> i < length (timers p) \<and> timers p ! i = Reload
      | _ \<Rightarrow> False)"

lemma page_step_reloading: "reloading ev p \<Longrightarrow> page_step ev p = reload p"
  by (cases ev) (simp_all add: reloading_def fire_def)

locale page_handlers = page_rules +
  fixes walletOk :: "wallet \<Rightarrow> bool"
  assumes holds: "I p \<Longrightarrow> t \<in> set (timers p) \<Longrightarrow> timerOk t" "I p \<Longrightarrow> cl \<in> set (calls p) \<Longrightarrow> callOk cl"
    and drops: "I p \<Longrightarrow> I (p\<lparr>timers := without i (timers p)\<rparr>)" "I p \<Longrightarrow> I (p\<lparr>calls := without i (calls p)\<rparr>)"
    and ready: "I p \<Longrightarrow> I (p\<lparr>turnstileReady := True\<rparr>)"
    and pressKey_keeps: "keepsA I (pressKey key)"
    and flip_keeps: "timerOk (FlipStart r c marks letters) \<Longrightarrow> keepsA I (onFlipStart r c marks letters)"
      "timerOk (FlipDone r c marks letters) \<Longrightarrow> keepsA I (onFlipDone r c marks letters)"
    and guess_keeps: "callOk (GuessCall sess guess) \<Longrightarrow> keepsA I (guessAccepted guess b)"
    and submitClaim_keeps: "keepsA I submitClaim"
    and poll_keeps: "keepsA I (pollClaimStatus claimId)"
      "timerOk (PollTick claimId tries) \<Longrightarrow> keepsA I (pollTick claimId tries)"
      "callOk (PollCall q claimId tries) \<Longrightarrow> keepsA I (onPoll claimId tries st b)"
    and showSeed_keeps: "walletOk wal \<Longrightarrow> keepsA I (showSeed wal)"
    and seedContinue_keeps: "keepsA I seedContinue"
begin

lemmas handlers = start_handlers claim_handlers wallet_handlers wallet_reading guessRejected_keeps paint_keeps
  showWin_keeps panels toasts pressKey_keeps flip_keeps guess_keeps submitClaim_keeps poll_keeps showSeed_keeps
  seedContinue_keeps renderSavedWallet_keeps prefill_keeps

lemma onClick_keeps: "keepsA I (onClick e)"
  by (cases e) (simp_all add: onClick_def handlers keeps)

lemma onToggle_keeps: "keepsA I (onToggle e b)"
  by (cases e) (simp_all add: onToggle_def handlers keeps)

lemma onKeydown_keeps: "keepsA I (onKeydown key modifier)"
  by (rule keepsA_I) (simp add: onKeydown_def keepsA_D handlers keeps)

lemma onTimer_keeps: "timerOk t \<Longrightarrow> keepsA I (onTimer t)"
  by (cases t) (simp_all add: onTimer_def handlers keeps basics)

lemma onClaim_keeps: "keepsA I (onClaim st b)"
  by (simp add: onClaim_def handlers keeps basics isCell_def)

lemma onImport_keeps: "importOk walletOk r \<Longrightarrow> keepsA I (onImport r)"
  by (auto simp: onImport_def importOk_def handlers keeps basics split: import_result.splits sum.splits)

lemma onReply_keeps:
  assumes "callOk cl" "replyOk walletOk r"
  shows "keepsA I (onReply cl r)"
  using assms
  by (cases "(cl, r)" rule: onReply.cases)
    (simp_all add: replyOk_def onGuess_def handlers keeps guess_keeps onClaim_keeps onImport_keeps)

lemma page_step_keeps:
  assumes "I p" "eventOk walletOk ev" "\<not> reloading ev p"
  shows "I (page_step ev p)"
proof (cases ev)
  case (Fire i)
  have "keepsA I (onTimer (timers p ! i))" if "i < length (timers p)"
    using that holds(1) [OF assms(1)] by (simp add: onTimer_keeps)
  then show ?thesis
    using Fire assms(1,3) by (simp add: fire_def reloading_def Let_def drops keepsA_perform)
next
  case (Answer i r)
  have "keepsA I (onReply (calls p ! i) r)" if "i < length (calls p)"
    using that holds(2) [OF assms(1)] Answer assms(2) by (simp add: onReply_keeps eventOk_def)
  then show ?thesis using Answer assms(1) by (simp add: answer_def drops keepsA_perform)
next
  case ClickReload
  then show ?thesis using assms(1,3) by (simp add: reloading_def)
qed (simp_all add: assms(1) ready keepsA_perform onClick_keeps onToggle_keeps onKeydown_keeps value_keeps
    start_handlers)

end

section \<open>Invariants\<close>

text \<open>An invariant that also holds for a page that is loaded anew holds for ever.\<close>

locale page_invariant = page_handlers +
  assumes reloads: "I p \<Longrightarrow> I (reload p)"
begin

lemma runPage_keeps: "I p \<Longrightarrow> list_all (eventOk walletOk) evs \<Longrightarrow> I (runPage evs p)"
proof (induction evs arbitrary: p)
  case (Cons ev evs)
  have "I (page_step ev p)"
    using Cons.prems page_step_keeps page_step_reloading reloads by (cases "reloading ev p") simp_all
  then show ?case using Cons by simp
qed simp

end

end
