(* ===== verification/Game_Play.thy ===== *)
theory Game_Play
  imports Game_Inv
begin

text \<open>
  What a page of the game keeps whatever happens: the letters on the board, the form of the guesses
  and of the claims it sends, the number of polls, and the address it remembers; and the
  colours of the keyboard, which only grow brighter.
\<close>

declare u_simps [simp del]

section \<open>Well-formed pages\<close>

definition letter :: "ustring \<Rightarrow> bool" where
  "letter s \<longleftrightarrow> length s = 1 \<and> isUpperAZ (hd s)"

definition cellText :: "page \<Rightarrow> nat \<Rightarrow> nat \<Rightarrow> ustring" where
  "cellText p r c = textContent (doc p (ECell r c))"

definition timerFine :: "timer \<Rightarrow> bool" where
  "timerFine t =
     (case t of
        FlipStart r c marks letters \<Rightarrow> c < 5 \<and> guessPattern letters
      | FlipDone r c marks letters \<Rightarrow> c < 5 \<and> guessPattern letters
      | PollTick claimId tries \<Rightarrow> tries < 30
      | _ \<Rightarrow> True)"

definition callFine :: "call \<Rightarrow> bool" where
  "callFine c =
     (case c of
        GuessCall sess guess \<Rightarrow> guessPattern guess
      | ClaimCall token addr \<Rightarrow> addressPattern addr
      | PollCall q claimId tries \<Rightarrow> 0 < tries \<and> tries \<le> 30
      | _ \<Rightarrow> True)"

definition page_ok :: "page \<Rightarrow> bool" where
  "page_ok p \<longleftrightarrow>
     (\<forall>r c. cellText p r c = [] \<or> letter (cellText p r c)) \<and>
     currentCol p \<le> 5 \<and>
     (currentRow p < 6 \<longrightarrow> (\<forall>c < currentCol p. letter (cellText p (currentRow p) c))) \<and>
     (\<forall>t \<in> set (timers p). timerFine t) \<and>
     (\<forall>c \<in> set (calls p). callFine c) \<and>
     (\<forall>a. storage p ADDRESS_KEY = Some a \<longrightarrow> addressPattern a) \<and>
     (\<forall>a. el_data (doc p ESeedContinue) (u ''addr'') = Some a \<longrightarrow> addressPattern a)"

lemma letter_not_Nil [simp]: "\<not> letter []"
  by (simp add: letter_def)

lemma cosmetic_textContent: "cosmetic f \<Longrightarrow> textContent (f x) = textContent x"
  by (simp add: cosmetic_def textContent_def)

lemma textContent_simps [simp]:
  "textContent (x\<lparr>el_content := Text s\<rparr>) = s"
  "textContent (x\<lparr>el_value := s\<rparr>) = textContent x"
  "textContent (x\<lparr>el_data := d\<rparr>) = textContent x"
  "textContent (x\<lparr>el_class := cs\<rparr>) = textContent x"
  by (simp_all add: textContent_def)

lemma without_subset: "set (without i xs) \<subseteq> set xs"
  by (auto simp: without_def dest: in_set_takeD in_set_dropD)

text \<open>The single assignments.\<close>

lemma page_ok_elem:
  assumes "page_ok p" "\<And>x. textContent (f x) = textContent x \<or> \<not> isCell e"
    "\<And>x. el_data (f x) = el_data x \<or> e \<noteq> ESeedContinue"
  shows "page_ok (p\<lparr>doc := (doc p)(e := f (doc p e))\<rparr>)"
proof -
  have "textContent (((doc p)(e := f (doc p e))) (ECell r c)) = textContent (doc p (ECell r c))" for r c
    using assms(2) by (auto simp: isCell_def)
  moreover have "el_data (((doc p)(e := f (doc p e))) ESeedContinue) = el_data (doc p ESeedContinue)"
    using assms(3) by auto
  ultimately show ?thesis using assms(1) unfolding page_ok_def cellText_def by simp
qed

interpretation ok_rules: page_rules page_ok timerFine callFine
proof
  show "keepsA page_ok (onElem e f)" if "cosmetic f" for f e
    using that cosmetic_textContent [OF that] by (simp add: onElem_def keepsA_updA page_ok_elem cosmetic_def)
  show "keepsA page_ok (setContent e ct)" if "\<not> isCell e" for e ct
    using that by (simp add: setContent_def onElem_def keepsA_updA page_ok_elem)
  show "keepsA page_ok (setValue e s)" for e s
    by (simp add: setValue_def onElem_def keepsA_updA page_ok_elem)
  show "keepsA page_ok (setData e k v)" if "e \<noteq> ESeedContinue" for e k v
    using that by (simp add: setData_def onElem_def keepsA_updA page_ok_elem)
qed (auto simp: keepsA_updA setTimer_def clearTimer_def await_def removeItem_def page_ok_def cellText_def
    timerFine_def callFine_def)

section \<open>Typing\<close>

text \<open>Writing a cell of the current row, at the column that is left.\<close>

definition putCell :: "nat \<Rightarrow> nat \<Rightarrow> ustring \<Rightarrow> ustring \<Rightarrow> page \<Rightarrow> page" where
  "putCell r c ch cls p =
     (if hasCell r c
      then p\<lparr>doc := (doc p)(ECell r c := (doc p (ECell r c))\<lparr>el_content := Text ch,
             el_class := u ''cell'' # (if cls = [] then [] else [cls])\<rparr>)\<rparr>
      else p)"

lemma setCell_eq: "setCell r c ch cls p = (Inr (), putCell r c ch cls p)"
  by (simp add: setCell_def putCell_def setText_def setContent_def setClass_def onElem_def bindA_def updA_def skip_def)

lemma currentCol_putCell [simp]: "currentCol (putCell r c ch cls p) = currentCol p"
  by (simp add: putCell_def)

lemma typed_letter:
  assumes "page_ok p" "currentCol p < 5" "letter t"
  shows "page_ok (putCell (currentRow p) (currentCol p) t cls p\<lparr>currentCol := Suc (currentCol p)\<rparr>)"
  using assms unfolding page_ok_def cellText_def putCell_def
  by (auto simp: hasCell_def less_Suc_eq)

lemma erased_letter:
  assumes "page_ok p" "currentCol p = Suc n"
  shows "page_ok (putCell (currentRow p) n [] [] (p\<lparr>currentCol := n\<rparr>))"
  using assms unfolding page_ok_def cellText_def putCell_def
  by (auto simp: hasCell_def)

lemma row_guess:
  assumes "page_ok p" "currentCol p = 5" "currentRow p < 6"
  shows "guessPattern (concat (map (\<lambda>c. textContent (doc p (ECell (currentRow p) c))) [0..<5]))"
proof -
  have "letter (textContent (doc p (ECell (currentRow p) c)))" if "c < 5" for c
    using assms that by (simp add: page_ok_def cellText_def)
  then have "\<forall>c \<in> set [0..<5]. letter (textContent (doc p (ECell (currentRow p) c)))" by simp
  then have "length (concat (map (\<lambda>c. textContent (doc p (ECell (currentRow p) c))) [0..<5])) = 5"
    by (simp add: letter_def upt_rec)
  moreover have "isUpperAZ x" if "x \<in> set s" "letter s" for x s
    using that by (cases s) (auto simp: letter_def)
  ultimately show ?thesis
    using \<open>\<forall>c \<in> set [0..<5]. letter (textContent (doc p (ECell (currentRow p) c)))\<close>
    by (auto simp: guessPattern_def)
qed

lemma submitRow_ok: "keepsA page_ok submitRow"
proof (rule keepsA_I)
  fix p assume p: "page_ok p"
  show "page_ok (snd (submitRow p))"
  proof (cases "currentCol p < 5")
    case True
    then show ?thesis
      using p by (simp add: submitRow_def keepsA_D keeps ok_rules.shakeRow_keeps ok_rules.toasts del: steps.simps)
  next
    case False
    then have "currentCol p = 5" using p by (simp add: page_ok_def)
    then show ?thesis
      using p row_guess [OF p]
      by (simp add: submitRow_def getCurrentGuess_def bindA_def throwA_def keepsA_D ok_rules.call_keeps callFine_def)
  qed
qed

lemma pressKey_ok: "keepsA page_ok (pressKey key)"
proof (rule keepsA_I)
  fix p assume p: "page_ok p"
  have "page_ok (snd (steps [setCell (currentRow p) (currentCol p) key (u ''typing''),
      updA (\<lambda>p. p\<lparr>currentCol := currentCol p + 1\<rparr>)] p))" if "currentCol p < 5" "letter key"
    using typed_letter [OF p that] by (simp add: bindA_def updA_def skip_def setCell_eq)
  moreover have "page_ok (snd (backspace p))"
    using p erased_letter [OF p] by (cases "currentCol p") (simp_all add: backspace_def bindA_def updA_def skip_def setCell_eq)
  moreover have "page_ok (snd (submitRow p))" using submitRow_ok p by (rule keepsA_D)
  ultimately show "page_ok (snd (pressKey key p))"
    using p by (auto simp: pressKey_def letter_def skip_def)
qed

section \<open>Answers\<close>

lemma updateKey_ok: "keepsA page_ok (updateKey marks letters c)"
proof (rule keepsA_I)
  fix p assume p: "page_ok p"
  have "keepsA page_ok (updA (\<lambda>p. p\<lparr>kbState := (kbState p)(L := m)\<rparr>))" for L m
    by (simp add: keepsA_updA page_ok_def cellText_def)
  then show "page_ok (snd (updateKey marks letters c p))"
    using p by (simp add: updateKey_def Let_def keepsA_D keeps)
qed

lemma guessAccepted_ok: "guessPattern guess \<Longrightarrow> keepsA page_ok (guessAccepted guess b)"
proof (rule keepsA_I)
  fix p assume g: "guessPattern guess" and p: "page_ok p"
  have "keepsA page_ok (flipRow r marks guess)" for r marks
    using g by (auto simp: flipRow_def timerFine_def intro!: keeps ok_rules.timer_keeps)
  moreover have "keepsA page_ok
      (updA (\<lambda>p. p\<lparr>guessList := guessList p @ [(guess, marks)], currentRow := currentRow p + 1, currentCol := 0\<rparr>))" for marks
    by (simp add: keepsA_updA page_ok_def cellText_def)
  ultimately show "page_ok (snd (guessAccepted guess b p))"
    using p by (simp add: guessAccepted_def keepsA_D keeps updateKey_ok ok_rules.basics ball_Un del: steps.simps)
qed

lemma flips_ok:
  "timerFine (FlipStart r c marks letters) \<Longrightarrow> keepsA page_ok (onFlipStart r c marks letters)"
  "timerFine (FlipDone r c marks letters) \<Longrightarrow> keepsA page_ok (onFlipDone r c marks letters)"
proof -
  assume t: "timerFine (FlipStart r c marks letters)"
  then have "timerFine (FlipDone r c marks letters)" by (simp add: timerFine_def)
  then show "keepsA page_ok (onFlipStart r c marks letters)"
    by (simp add: onFlipStart_def keeps ok_rules.basics)
next
  assume "timerFine (FlipDone r c marks letters)"
  then have "letter (letterText letters c)"
    by (auto simp: timerFine_def guessPattern_def letterText_def letter_def)
  then have "keepsA page_ok (setText (ECell r c) (letterText letters c))"
    by (auto simp: setText_def setContent_def onElem_def keepsA_updA page_ok_def cellText_def)
  then show "keepsA page_ok (onFlipDone r c marks letters)"
    by (simp add: onFlipDone_def keeps ok_rules.basics)
qed

section \<open>Claims\<close>

lemma setItem_ok: "addressPattern a \<Longrightarrow> keepsA page_ok (setItem ADDRESS_KEY a)"
  by (simp add: setItem_def keepsA_updA page_ok_def cellText_def)

lemma submitClaim_ok: "keepsA page_ok submitClaim"
  by (rule keepsA_I)
    (simp add: submitClaim_def Let_def keepsA_D keeps ok_rules.basics isCell_def setItem_ok callFine_def)

lemma polls_ok:
  "keepsA page_ok (pollClaimStatus claimId)"
  "timerFine (PollTick claimId tries) \<Longrightarrow> keepsA page_ok (pollTick claimId tries)"
  "callFine (PollCall q claimId tries) \<Longrightarrow> keepsA page_ok (onPoll claimId tries st b)"
  by (simp_all add: pollClaimStatus_def pollTick_def onPoll_def keeps ok_rules.basics ok_rules.claim_handlers
      isCell_def callFine_def timerFine_def)

section \<open>Wallets\<close>

lemma showSeed_ok: "addressPattern (address wal) \<Longrightarrow> keepsA page_ok (showSeed wal)"
proof -
  assume "addressPattern (address wal)"
  then have "keepsA page_ok (setData ESeedContinue (u ''addr'') (address wal))"
    by (auto simp: setData_def onElem_def keepsA_updA page_ok_def cellText_def)
  then show ?thesis by (simp add: showSeed_def keeps ok_rules.basics isCell_def)
qed

lemma seedContinue_ok: "keepsA page_ok seedContinue"
proof (rule keepsA_I)
  fix p assume p: "page_ok p"
  have "keepsA page_ok (setItem ADDRESS_KEY a)" if "el_data (doc p ESeedContinue) (u ''addr'') = Some a" for a
    using p that by (simp add: setItem_ok page_ok_def)
  then show "page_ok (snd (seedContinue p))"
    using p by (simp add: seedContinue_def keepsA_D keeps ok_rules.basics ok_rules.wallet_handlers
        ok_rules.renderSavedWallet_keeps ok_rules.toasts del: steps.simps split: option.splits)
qed

lemma initPage_ok: "(\<forall>a. st ADDRESS_KEY = Some a \<longrightarrow> addressPattern a) \<Longrightarrow> page_ok (initPage st clip)"
  by (rule ok_rules.initPage_keeps)
    (simp add: perform_def setTimer_def buildBoard_def bindA_def updA_def skip_def freshPage_def page_ok_def cellText_def
      htmlElement_def htmlText_def blank_def textContent_def timerFine_def)

interpretation ok_pages: page_invariant page_ok timerFine callFine "\<lambda>w. addressPattern (address w)"
proof
  show "page_ok (p\<lparr>timers := without i (timers p)\<rparr>)" "page_ok (p\<lparr>calls := without i (calls p)\<rparr>)" if "page_ok p" for p i
    using that without_subset by (fastforce simp: page_ok_def cellText_def)+
  show "page_ok (reload p)" if "page_ok p" for p
    using that initPage_ok [of "storage p"] unfolding reload_def page_ok_def [of p] by blast
qed (simp_all add: pressKey_ok flips_ok guessAccepted_ok submitClaim_ok polls_ok showSeed_ok seedContinue_ok callFine_def,
    simp_all add: page_ok_def cellText_def callFine_def)

section \<open>The keyboard\<close>

text \<open>How bright a key is: not coloured, gray, yellow or green.\<close>

definition brightness :: "json option \<Rightarrow> nat" where
  "brightness v =
     (if \<not> truthy v then 0
      else case orderOf v of Inr (Some n) \<Rightarrow> n + 1 | _ \<Rightarrow> 1)"

lemma truthy_cases: "\<not> truthy v \<Longrightarrow> v \<in> {None, Some JNull, Some (JBool False), Some (JNum (Fin 0)), Some (JNum NaN), Some (JStr [])}"
  by (auto simp: truthy_def split: option.splits json.splits)

lemma ordered_truthy: "orderOf v = Inr (Some n) \<Longrightarrow> truthy v"
proof (rule ccontr)
  assume v: "orderOf v = Inr (Some n)" "\<not> truthy v"
  from truthy_cases [OF v(2)] v(1) show False
    by (auto simp: orderOf_def strOf_def finToString_def u_simps split: if_splits)
qed

lemma upgrades_brighter:
  assumes "upgrades marks c cur = Inr True" "indexProp marks c = Inr m"
  shows "brightness cur \<le> brightness m"
proof (cases "truthy cur")
  case True
  then obtain x y where "orderOf m = Inr (Some x)" "orderOf cur = Inr (Some y)" "y < x"
    using assms by (auto simp: upgrades_def bindR_eq_Inr split: option.splits prod.splits)
  then show ?thesis using ordered_truthy [of m x] by (simp add: brightness_def)
qed (simp add: brightness_def)

definition brighter :: "page \<Rightarrow> page \<Rightarrow> bool" where
  "brighter p0 p \<longleftrightarrow> (\<forall>k. brightness (kbState p0 k) \<le> brightness (kbState p k))"

lemma updateKey_brighter: "keepsA (brighter p0) (updateKey marks letters c)"
proof (rule keepsA_I)
  fix p assume p: "brighter p0 p"
  let ?L = "letterAt letters c"
  have "brighter p0 (p\<lparr>kbState := (kbState p)(?L := m)\<rparr>)"
    if "upgrades marks c (kbState p ?L) = Inr True" "indexProp marks c = Inr m" for m
    using p upgrades_brighter [OF that] by (auto simp: brighter_def intro: order_trans)
  then show "brighter p0 (snd (updateKey marks letters c p))"
    using p by (auto simp: updateKey_def Let_def bindA_def liftA_def updA_def skip_def split: sum.splits)
qed

interpretation key_rules: page_rules "brighter p0" "\<lambda>t. True" "\<lambda>c. True" for p0
  by unfold_locales
    (simp_all add: keepsA_updA brighter_def onElem_def setContent_def setValue_def setData_def setTimer_def clearTimer_def
      await_def removeItem_def)

lemma typing_brighter: "keepsA (brighter p0) (pressKey key)"
proof -
  have cell: "keepsA (brighter p0) (setCell r c ch cls)" for r c ch cls
    by (rule keepsA_I) (simp add: setCell_eq putCell_def brighter_def)
  have col: "keepsA (brighter p0) (updA (\<lambda>p. p\<lparr>currentCol := f p\<rparr>))" for f
    by (simp add: keepsA_updA brighter_def)
  have "keepsA (brighter p0) submitRow"
    by (rule keepsA_I)
      (auto simp: submitRow_def getCurrentGuess_def bindA_def throwA_def keepsA_D key_rules.call_keeps keeps
        key_rules.shakeRow_keeps key_rules.toasts simp del: steps.simps)
  moreover have "keepsA (brighter p0) backspace"
    by (rule keepsA_I) (simp add: backspace_def keepsA_D keeps cell col)
  ultimately show ?thesis
    by (intro keepsA_I) (simp add: pressKey_def keepsA_D keeps cell col)
qed

lemma guessAccepted_brighter: "keepsA (brighter p0) (guessAccepted guess b)"
proof (rule keepsA_I)
  fix p assume p: "brighter p0 p"
  have "keepsA (brighter p0) (flipRow r marks guess)" for r marks
    by (auto simp: flipRow_def intro!: keeps key_rules.timer_keeps)
  moreover have "keepsA (brighter p0)
      (updA (\<lambda>p. p\<lparr>guessList := guessList p @ [(guess, marks)], currentRow := currentRow p + 1, currentCol := 0\<rparr>))" for marks
    by (simp add: keepsA_updA brighter_def)
  ultimately show "brighter p0 (snd (guessAccepted guess b p))"
    using p by (simp add: guessAccepted_def keepsA_D keeps updateKey_brighter key_rules.basics ball_Un del: steps.simps)
qed

lemma others_brighter:
  "keepsA (brighter p0) (setText e s)" "keepsA (brighter p0) (setData e k v)" "keepsA (brighter p0) (setItem k v)"
  by (simp_all add: keepsA_updA brighter_def onElem_def setContent_def setText_def setData_def setItem_def)

interpretation key_pages: page_handlers "brighter p0" "\<lambda>t. True" "\<lambda>c. True" "\<lambda>w. True" for p0
proof
  show "keepsA (brighter p0) submitClaim"
    by (rule keepsA_I) (simp add: submitClaim_def Let_def keepsA_D keeps others_brighter key_rules.basics)
  show "keepsA (brighter p0) seedContinue"
    by (rule keepsA_I)
      (simp add: seedContinue_def keepsA_D keeps others_brighter key_rules.basics key_rules.wallet_handlers
        key_rules.renderSavedWallet_keeps key_rules.toasts del: steps.simps split: option.splits)
qed (simp_all add: typing_brighter guessAccepted_brighter onFlipStart_def onFlipDone_def pollClaimStatus_def pollTick_def
    onPoll_def showSeed_def keeps others_brighter key_rules.basics key_rules.claim_handlers isCell_def,
    simp_all add: brighter_def)

end
