(* ===== verification/Js_Decimal.thy ===== *)
theory Js_Decimal
  imports Json_Parse
begin

text \<open>
  Numbers survive printing and reading: the search for the shortest decimal form of a double
  ends within its bound, because the exact form is found there at the latest, and every form it
  may find is read back as the same number.
\<close>

declare u_simps [simp del]

section \<open>The digits of a number\<close>

lemma length_natToRadix:
  assumes "2 \<le> r" "r ^ k \<le> n" "n < r ^ Suc k"
  shows "length (natToRadix r n) = Suc k"
  using assms
proof (induction k arbitrary: n)
  case 0
  then show ?case by (simp add: natToRadix_small)
next
  case (Suc k)
  have "r \<le> n" using Suc.prems by (meson dual_order.trans self_le_power zero_less_Suc le_trans Suc_leD numeral_2_eq_2 one_le_numeral)
  moreover have "r ^ k \<le> n div r" using Suc.prems by (simp add: less_eq_div_iff_mult_less_eq mult.commute)
  moreover have "n div r < r ^ Suc k" using Suc.prems by (simp add: div_less_iff_less_mult mult.commute)
  ultimately show ?case using Suc by (simp add: natToRadix_step)
qed

lemma isDecimal_radix: "isDecimal c \<longleftrightarrow> isRadixDigit 10 c"
  by (auto simp: isDecimal_def isRadixDigit_def digitVal_def char_class_defs split: option.splits if_splits)

lemma natToString_digits:
  "natToString n \<noteq> []" "\<forall>c \<in> set (natToString n). isDecimal c" "digitsValue 10 (natToString n) = n"
  using natToRadix_digits [of 10 n] by (simp_all add: isDecimal_radix)

lemma natToRadix_hd: "2 \<le> r \<Longrightarrow> 0 < n \<Longrightarrow> hd (natToRadix r n) \<noteq> 48"
proof (induction r n rule: natToRadix.induct)
  case (1 r n)
  show ?case
  proof (cases "n < r")
    case True
    then show ?thesis using 1 by (simp add: natToRadix_small digitChar_def)
  next
    case False
    then have "natToRadix r n = natToRadix r (n div r) @ [digitChar (n mod r)]" using 1 by (simp add: natToRadix_step)
    moreover have "natToRadix r (n div r) \<noteq> []" by (subst natToRadix.simps) simp
    moreover have "0 < n div r" using False 1 by (simp add: div_greater_zero_iff)
    ultimately show ?thesis using 1 False by simp
  qed
qed

lemma digitsValue_append: "digitsValue r (a @ b) = digitsValue r a * r ^ length b + digitsValue r b"
  by (induction b rule: rev_induct) (simp_all add: digitsValue_snoc algebra_simps flip: append_assoc, simp add: digitsValue_def)

lemma digitsValue_zeros: "digitsValue r (replicate k 48) = 0"
  by (induction k) (simp_all add: digitsValue_def digitOr0_def digitVal_def)

section \<open>Candidates\<close>

lemma pow10_pos [simp]: "0 < (10 :: rat) powi e"
  by (simp add: zero_less_power_int)

lemma pow10_split: "(10 :: rat) powi (a + b) = 10 powi a * 10 powi b"
  by (simp add: power_int_add)

lemma scaled_bounds:
  assumes "0 < x" "1 \<le> k"
  shows "10 ^ (k - 1) \<le> x / 10 powi (leadExp 10 x + 1 - int k)" "x / 10 powi (leadExp 10 x + 1 - int k) < 10 ^ k"
proof -
  let ?l = "leadExp 10 x" and ?s = "(10 :: rat) powi (leadExp 10 x + 1 - int k)"
  have l: "10 powi ?l \<le> x" "x < 10 powi (?l + 1)" using leadExp_bounds [of x 10] assms(1) by simp_all
  have "10 ^ (k - 1) * ?s = 10 powi (int (k - 1) + (?l + 1 - int k))" by (simp add: pow10_split)
  also have "int (k - 1) + (?l + 1 - int k) = ?l" using assms(2) by simp
  finally show "10 ^ (k - 1) \<le> x / ?s" using l by (simp add: le_divide_eq)
  have "10 ^ k * ?s = 10 powi (int k + (?l + 1 - int k))" by (simp only: pow10_split power_int_of_nat)
  then show "x / ?s < 10 ^ k" using l by (simp add: divide_less_eq)
qed

lemma digitCandidate_bounds:
  assumes "digitCandidate x k = Some c" "0 < x" "1 \<le> k"
  shows "fl (of_int c * 10 powi (leadExp 10 x + 1 - int k)) = x" "10 ^ (k - 1) \<le> c" "c \<le> 10 ^ k"
proof -
  let ?s = "(10 :: rat) powi (leadExp 10 x + 1 - int k)"
  have c: "fl (of_int c * ?s) = x" "c = \<lfloor>x / ?s\<rfloor> \<or> c = \<lfloor>x / ?s\<rfloor> + 1"
    using assms(1) by (auto simp: digitCandidate_def Let_def split: if_splits)
  then show "fl (of_int c * ?s) = x" by simp
  have "(of_int (10 ^ (k - 1)) :: rat) \<le> x / ?s" "x / ?s < of_int (10 ^ k)"
    using scaled_bounds [OF assms(2,3)] by simp_all
  then have "10 ^ (k - 1) \<le> \<lfloor>x / ?s\<rfloor>" "\<lfloor>x / ?s\<rfloor> < 10 ^ k" by (simp_all only: le_floor_iff floor_less_iff)
  then show "10 ^ (k - 1) \<le> c" "c \<le> 10 ^ k" using c(2) by auto
qed

text \<open>The exact form is a candidate.\<close>

lemma digitCandidate_exact:
  assumes "x / 10 powi (leadExp 10 x + 1 - int k) = of_int m" "0 < m" "fl x = x"
  shows "digitCandidate x k = Some m"
proof -
  let ?s = "(10 :: rat) powi (leadExp 10 x + 1 - int k)"
  have "of_int m * ?s = x" by (simp flip: assms(1))
  then have "fl (of_int m * ?s) = x" using assms(3) by simp
  then show ?thesis unfolding digitCandidate_def Let_def assms(1) using assms(2) by simp
qed

lemma shortestDigits_Some:
  "shortestDigits x k n = Some (c, j) \<Longrightarrow> digitCandidate x j = Some c \<and> k \<le> j"
  by (induction x k n rule: shortestDigits.induct) (auto split: option.splits)

lemma shortestDigits_finds:
  "digitCandidate x j \<noteq> None \<Longrightarrow> k \<le> j \<Longrightarrow> j < k + n \<Longrightarrow> shortestDigits x k n \<noteq> None"
proof (induction x k n rule: shortestDigits.induct)
  case (2 x k n)
  then show ?case by (cases "k = j") (auto split: option.splits)
qed simp

section \<open>The search ends\<close>

text \<open>A double as an integer times a power of two.\<close>

lemma double_form:
  assumes "fl x = x" "0 < x"
  obtains m e where "x = of_int m * 2 powi e" "0 < m" "m \<le> 2 ^ 53" "- 1074 \<le> e"
proof
  let ?m = "roundEven (x / 2 powi ulpExp x)"
  show x: "x = of_int ?m * 2 powi ulpExp x" using assms by (simp add: fl_def flPos_def)
  then show "0 < ?m" using assms(2) by (metis mult_pos_pos not_less of_int_0_less_iff pow2_pos zero_less_mult_pos2)
  show "?m \<le> 2 ^ 53" using roundEven_scaled(2) [OF assms(2)] .
  show "- 1074 \<le> ulpExp x" by (simp add: ulpExp_def)
qed

lemma leadExp_less:
  assumes "0 < x" "x < 10 ^ n"
  shows "leadExp 10 x < int n"
proof (rule ccontr)
  assume "\<not> leadExp 10 x < int n"
  then have "(10 :: rat) powi int n \<le> 10 powi leadExp 10 x" by (intro power_int_increasing) simp_all
  also have "\<dots> \<le> x" using leadExp_bounds(1) [of x 10] assms(1) by simp
  finally show False using assms(2) by simp
qed

lemma small_double:
  assumes "x = of_int m * 2 powi (- int j)" "m \<le> 2 ^ 53" "1 \<le> j" "j \<le> 1074" "0 < x"
  shows "leadExp 10 x + 1 + int j < 1100"
proof -
  have "(of_int m :: rat) \<le> of_int (2 ^ 53)" using assms(2) by (simp only: of_int_le_iff)
  then have "x \<le> 2 powi 53 * 2 powi (- int j)" unfolding assms(1) by (intro mult_right_mono) simp_all
  also have "\<dots> = 2 powi (53 - int j)" by (simp only: diff_conv_add_uminus power_int_add [of 2] zero_neq_numeral [symmetric] simp_thms)
  finally have x: "x \<le> 2 powi (53 - int j)" .
  show ?thesis
  proof (cases "53 \<le> j")
    case True
    then have "(2 :: rat) powi (53 - int j) \<le> 2 powi 0" unfolding pow2_le_iff by simp
    then have "x < 10 ^ 1" using x by simp
    then show ?thesis using leadExp_less [of x 1] assms by simp
  next
    case False
    then have "(2 :: rat) powi (53 - int j) \<le> 2 powi 53" unfolding pow2_le_iff by simp
    then have "x < 10 ^ 16" using x by simp
    then show ?thesis using leadExp_less [of x 16] assms False by simp
  qed
qed

lemma exact_digits:
  assumes "x * 10 ^ j = of_int m" "0 < m" "fl x = x" "0 < x" "leadExp 10 x + 1 + int j < 1100"
  shows "shortestDigits x 1 1100 \<noteq> None"
proof -
  let ?l = "leadExp 10 x"
  have "(1 :: rat) \<le> of_int m" using assms(2) by simp
  then have "10 powi (- int j) \<le> x"
    unfolding assms(1) [symmetric] by (simp add: power_int_minus field_simps)
  then have "\<not> (10 :: rat) powi (?l + 1) \<le> 10 powi (- int j)"
    using leadExp_bounds(2) [of x 10] assms(4) by simp
  then have l: "- int j < ?l + 1"
    using power_int_increasing [of "?l + 1" "- int j" "10 :: rat"] by force
  define k where "k = nat (?l + 1 + int j)"
  have k: "1 \<le> k" "k < 1 + 1100" "?l + 1 - int k = - int j" using l assms(5) by (simp_all add: k_def)
  have "x / 10 powi (?l + 1 - int k) = of_int m"
    unfolding k(3) assms(1) [symmetric] by (simp add: power_int_minus divide_inverse)
  then have "digitCandidate x k = Some m" using assms(2,3) by (rule digitCandidate_exact)
  then show ?thesis using k(1,2) shortestDigits_finds by blast
qed

lemma shortestDigits_double:
  assumes "fl x = x" "0 < x" "x < 2 ^ 1024"
  shows "shortestDigits x 1 1100 \<noteq> None"
proof -
  obtain m e where x: "x = of_int m * 2 powi e" "0 < m" "m \<le> 2 ^ 53" "- 1074 \<le> e"
    using double_form [OF assms(1,2)] by blast
  show ?thesis
  proof (cases "0 \<le> e")
    case True
    then have "x * 10 ^ 0 = of_int (m * 2 ^ nat e)" using x(1) by (simp add: pow2_int)
    moreover have "(2 :: rat) ^ 1024 < 10 ^ 309" by simp
    then have "x < 10 ^ 309" by (rule less_trans [OF assms(3)])
    then have "leadExp 10 x < 309" using leadExp_less [OF assms(2), of 309] by (simp only: of_nat_numeral)
    moreover have "0 < m * 2 ^ nat e" using x(2) by simp
    ultimately show ?thesis using assms(1,2) by (intro exact_digits [of x 0 "m * 2 ^ nat e"]) simp_all
  next
    case False
    define j where "j = nat (- e)"
    have j: "e = - int j" "1 \<le> j" "j \<le> 1074" using False x(4) by (simp_all add: j_def)
    have "(10 :: rat) ^ j = 2 ^ j * 5 ^ j" by (simp flip: power_mult_distrib)
    then have "x * 10 ^ j = of_int (m * 5 ^ j)" unfolding x(1) j(1) by (simp add: power_int_minus)
    moreover have "leadExp 10 x + 1 + int j < 1100" using small_double x j assms(2) by simp
    moreover have "0 < m * 5 ^ j" using x(2) by simp
    ultimately show ?thesis using assms(1,2) by (intro exact_digits [of x j "m * 5 ^ j"]) simp_all
  qed
qed

section \<open>The decimal form\<close>

definition digitString :: "ustring \<Rightarrow> bool" where
  "digitString ds \<longleftrightarrow> ds \<noteq> [] \<and> hd ds \<noteq> 48 \<and> (\<forall>c \<in> set ds. isDecimal c)"

lemma digitString_nat: "0 < n \<Longrightarrow> digitString (natToString n)"
  by (simp add: digitString_def natToString_digits natToRadix_hd)

lemma length_natToString: "1 \<le> k \<Longrightarrow> 10 ^ (k - 1) \<le> n \<Longrightarrow> n < 10 ^ k \<Longrightarrow> length (natToString n) = k"
  using length_natToRadix [of 10 "k - 1" n] by simp

text \<open>The value that digits and the place of the point stand for.\<close>

definition decimalValue :: "ustring \<Rightarrow> int \<Rightarrow> rat" where
  "decimalValue ds n = of_nat (digitsValue 10 ds) * 10 powi (n - int (length ds))"

lemma decimalForm_value:
  assumes "fl x = x" "0 < x" "x < 2 ^ 1024"
  obtains ds n where "decimalForm x = Some (ds, n)" "digitString ds" "fl (decimalValue ds n) = x"
proof -
  let ?l = "leadExp 10 x"
  obtain c k where c: "shortestDigits x 1 1100 = Some (c, k)" using shortestDigits_double [OF assms] by auto
  then have k: "digitCandidate x k = Some c" "1 \<le> k" using shortestDigits_Some by blast+
  note b = digitCandidate_bounds [OF k(1) assms(2) k(2)]
  have c0: "0 < c" using b(2) by (meson less_le_trans zero_less_power zero_less_numeral)
  show thesis
  proof (cases "c = 10 ^ k")
    case True
    define n where "n = (10 :: nat) ^ (k - 1)"
    have "c div 10 = int n" using True k(2) by (cases k) (simp_all add: n_def)
    then have "decimalForm x = Some (natToString n, ?l + 2)" using c True by (simp add: decimalForm_def)
    moreover have "length (natToString n) = k"
      using k(2) by (intro length_natToString) (simp_all add: n_def power_strict_increasing)
    then have "decimalValue (natToString n) (?l + 2) = of_int c * 10 powi (?l + 1 - int k)"
      using True k(2) by (cases k) (simp_all add: decimalValue_def natToString_digits n_def power_int_diff power_int_add)
    ultimately show thesis using that [of "natToString n" "?l + 2"] b(1) by (simp add: digitString_nat n_def)
  next
    case False
    define n where "n = nat c"
    have n: "c = int n" using c0 by (simp add: n_def)
    have "decimalForm x = Some (natToString n, ?l + 1)" using c False by (simp add: decimalForm_def n_def)
    moreover have "10 ^ (k - 1) \<le> n" "n < 10 ^ k"
      using b(2,3) False unfolding n by (simp_all flip: of_nat_le_iff of_nat_less_iff)
    then have "length (natToString n) = k" using k(2) by (intro length_natToString)
    then have "decimalValue (natToString n) (?l + 1) = of_int c * 10 powi (?l + 1 - int k)"
      by (simp add: decimalValue_def natToString_digits n)
    ultimately show thesis using that [of "natToString n" "?l + 1"] b(1) c0 by (simp add: digitString_nat n)
  qed
qed

section \<open>Reading it back\<close>

text \<open>What may follow a number.\<close>

definition numberEnd :: "ustring \<Rightarrow> bool" where
  "numberEnd t \<longleftrightarrow> t = [] \<or> \<not> isDecimal (hd t) \<and> hd t \<notin> {46, 69, 101}"

definition noDigit :: "ustring \<Rightarrow> bool" where
  "noDigit t \<longleftrightarrow> t = [] \<or> \<not> isDecimal (hd t)"

lemma noDigit_simps [simp]: "noDigit []" "noDigit (c # t) \<longleftrightarrow> \<not> isDecimal c" "numberEnd t \<Longrightarrow> noDigit t"
  by (auto simp: noDigit_def numberEnd_def)

lemma noDigit_take [simp]: "noDigit t \<Longrightarrow> takeWhile isDecimal t = []" "noDigit t \<Longrightarrow> dropWhile isDecimal t = t"
  by (cases t; simp)+

lemma take_digits:
  assumes "\<forall>c \<in> set ds. isDecimal c" "noDigit t"
  shows "takeWhile isDecimal (ds @ t) = ds" "dropWhile isDecimal (ds @ t) = t"
  using assms by simp_all

lemma parseWhole_digits: "digitString ds \<Longrightarrow> noDigit t \<Longrightarrow> parseWhole (ds @ t) = Some (ds, t)"
  using take_digits [of ds t] by (cases ds) (simp_all add: parseWhole_def digitString_def)

lemma parseFraction_digits:
  "fd \<noteq> [] \<Longrightarrow> \<forall>c \<in> set fd. isDecimal c \<Longrightarrow> noDigit t \<Longrightarrow> parseFraction (46 # fd @ t) = Some (fd, t)"
  by (simp add: parseFraction_def take_digits)

lemma parse_ends:
  "numberEnd t \<Longrightarrow> parseFraction t = Some ([], t)" "numberEnd t \<Longrightarrow> parseExponent t = Some (0, t)"
  "c = 101 \<Longrightarrow> parseFraction (c # t) = Some ([], c # t)"
  by (auto simp: parseFraction_def parseExponent_def numberEnd_def split: list.splits)

lemma parseExponent_digits:
  assumes "noDigit t" "sg = 43 \<or> sg = 45"
  shows "parseExponent (101 # sg # natToString n @ t) = Some (if sg = 45 then - int n else int n, t)"
  using assms by (auto simp: parseExponent_def Let_def take_digits natToString_digits)

lemma parseNumber_parts:
  assumes "parseWhole s = Some (w, s1)" "parseFraction s1 = Some (fd, s2)" "parseExponent s2 = Some (e, t)"
  shows "s \<noteq> [] \<Longrightarrow> hd s \<noteq> 45 \<Longrightarrow>
      parseNumber s = Some (toDouble (of_nat (digitsValue 10 (w @ fd)) * 10 powi (e - int (length fd))), t)"
    "parseNumber (45 # s) = Some (toDouble (- (of_nat (digitsValue 10 (w @ fd)) * 10 powi (e - int (length fd)))), t)"
  using assms by (simp_all add: parseNumber_def)

text \<open>The three parts of a laid-out number, and that they have its value.\<close>

definition readsAs :: "ustring \<Rightarrow> ustring \<Rightarrow> rat \<Rightarrow> bool" where
  "readsAs s t v \<longleftrightarrow> s \<noteq> [] \<and> hd s \<noteq> 45 \<and> isDecimal (hd s) \<and>
     (\<exists>w s1 fd s2 e. parseWhole s = Some (w, s1) \<and> parseFraction s1 = Some (fd, s2) \<and> parseExponent s2 = Some (e, t) \<and>
        of_nat (digitsValue 10 (w @ fd)) * 10 powi (e - int (length fd)) = v)"

lemma readsAs_parseNumber:
  assumes "readsAs s t v"
  shows "parseNumber s = Some (toDouble v, t)" "parseNumber (45 # s) = Some (toDouble (- v), t)"
  using assms parseNumber_parts unfolding readsAs_def by metis+

lemma readsAsI:
  assumes "isDecimal (hd s)" "s \<noteq> []" "parseWhole s = Some (w, s1)" "parseFraction s1 = Some (fd, s2)"
    "parseExponent s2 = Some (e, t)" "of_nat (digitsValue 10 (w @ fd)) * 10 powi (e - int (length fd)) = v"
  shows "readsAs s t v"
  unfolding readsAs_def using assms by (intro conjI exI) (auto simp: isDecimal_def)

lemma layout_whole:
  assumes "digitString ds" "numberEnd t" "int (length ds) \<le> n"
  shows "readsAs (ds @ replicate (nat (n - int (length ds))) 48 @ t) t (decimalValue ds n)"
proof (rule readsAsI)
  let ?z = "replicate (nat (n - int (length ds))) (48 :: nat)"
  have d: "digitString (ds @ ?z)" using assms(1) by (auto simp: digitString_def isDecimal_def)
  show "parseWhole (ds @ ?z @ t) = Some (ds @ ?z, t)" using parseWhole_digits [OF d, of t] assms(2) by simp
  show "isDecimal (hd (ds @ ?z @ t))" "ds @ ?z @ t \<noteq> []" using assms(1) by (simp_all add: digitString_def)
  have "(10 :: rat) ^ nat (n - int (length ds)) = 10 powi (n - int (length ds))" using assms(3) by (simp add: power_int_def)
  then show "of_nat (digitsValue 10 ((ds @ ?z) @ [])) * 10 powi (0 - int (length ([] :: ustring))) = decimalValue ds n"
    by (simp add: decimalValue_def digitsValue_append digitsValue_zeros)
qed (use assms(2) parse_ends in auto)

lemma layout_point:
  assumes "digitString ds" "numberEnd t" "0 < n" "n < int (length ds)"
  shows "readsAs (take (nat n) ds @ [46] @ drop (nat n) ds @ t) t (decimalValue ds n)"
proof (rule readsAsI)
  let ?a = "take (nat n) ds" and ?b = "drop (nat n) ds"
  have dec: "\<forall>c \<in> set ?a. isDecimal c" "\<forall>c \<in> set ?b. isDecimal c"
    using assms(1) by (auto simp: digitString_def dest: in_set_takeD in_set_dropD)
  have "?a \<noteq> []" "hd ?a = hd ds" "?b \<noteq> []" using assms by (auto simp: digitString_def)
  then have d: "digitString ?a" using assms(1) dec by (simp add: digitString_def)
  show "parseWhole (?a @ [46] @ ?b @ t) = Some (?a, 46 # ?b @ t)"
    using parseWhole_digits [OF d, of "46 # ?b @ t"] by (simp add: isDecimal_def)
  show "parseFraction (46 # ?b @ t) = Some (?b, t)" using \<open>?b \<noteq> []\<close> dec assms(2) by (simp add: parseFraction_digits)
  show "isDecimal (hd (?a @ [46] @ ?b @ t))" "?a @ [46] @ ?b @ t \<noteq> []"
    using \<open>?a \<noteq> []\<close> assms(1) by (simp_all add: digitString_def)
  show "of_nat (digitsValue 10 (?a @ ?b)) * 10 powi (0 - int (length ?b)) = decimalValue ds n"
    using assms(3,4) by (simp add: decimalValue_def of_nat_diff)
qed (use assms(2) parse_ends in auto)

lemma layout_small:
  assumes "digitString ds" "numberEnd t" "n \<le> 0"
  shows "readsAs (u ''0.'' @ replicate (nat (- n)) 48 @ ds @ t) t (decimalValue ds n)"
proof (rule readsAsI)
  let ?z = "replicate (nat (- n)) (48 :: nat)"
  have zero: "u ''0.'' = [48, 46]" by (simp add: u_simps)
  have dec: "\<forall>c \<in> set (?z @ ds). isDecimal c" "?z @ ds \<noteq> []"
    using assms(1) by (auto simp: digitString_def isDecimal_def)
  show "parseWhole (u ''0.'' @ ?z @ ds @ t) = Some ([48], 46 # (?z @ ds) @ t)" by (simp add: zero parseWhole_def)
  show "parseFraction (46 # (?z @ ds) @ t) = Some (?z @ ds, t)"
    using parseFraction_digits [OF dec(2,1)] assms(2) by simp
  show "isDecimal (hd (u ''0.'' @ ?z @ ds @ t))" "u ''0.'' @ ?z @ ds @ t \<noteq> []" by (simp_all add: zero isDecimal_def)
  have "digitsValue 10 ([48] @ ?z @ ds) = digitsValue 10 ds"
    using digitsValue_append [of 10 "replicate (Suc (nat (- n))) 48" ds] by (simp add: digitsValue_zeros [of 10 "Suc (nat (- n))", simplified])
  moreover have "0 - int (length (?z @ ds)) = n - int (length ds)" using assms(3) by simp
  ultimately show "of_nat (digitsValue 10 ([48] @ ?z @ ds)) * 10 powi (0 - int (length (?z @ ds))) = decimalValue ds n"
    by (simp only: decimalValue_def)
qed (use assms(2) parse_ends in auto)

lemma layout_exponent:
  assumes "digitString ds" "numberEnd t" "n \<noteq> 1"
  shows "readsAs (take 1 ds @ (if length ds = 1 then [] else [46] @ drop 1 ds) @ u ''e'' @
     (if 0 < n - 1 then u ''+'' else u ''-'') @ natToString (nat \<bar>n - 1\<bar>) @ t) t (decimalValue ds n)"
proof -
  obtain d ds' where ds: "ds = d # ds'" using assms(1) by (cases ds) (auto simp: digitString_def)
  let ?sg = "if 0 < n - 1 then 43 else 45 :: nat" and ?N = "natToString (nat \<bar>n - 1\<bar>)"
  let ?f = "if ds' = [] then [] else 46 # ds'"
  have e: "u ''e'' @ (if 0 < n - 1 then u ''+'' else u ''-'') @ ?N @ t = 101 # ?sg # ?N @ t" by (simp add: u_simps)
  have d: "digitString [d]" "\<forall>c \<in> set ds'. isDecimal c" using assms(1) by (auto simp: ds digitString_def)
  have "parseExponent (101 # ?sg # ?N @ t) = Some (n - 1, t)"
    using assms(2,3) parseExponent_digits [of t ?sg "nat \<bar>n - 1\<bar>"] by auto
  moreover have "parseFraction (?f @ 101 # ?sg # ?N @ t) = Some (ds', 101 # ?sg # ?N @ t)"
    using d(2) by (simp add: parse_ends parseFraction_digits isDecimal_def)
  moreover have "parseWhole ([d] @ ?f @ 101 # ?sg # ?N @ t) = Some ([d], ?f @ 101 # ?sg # ?N @ t)"
    using d(1) by (intro parseWhole_digits) (simp_all add: isDecimal_def)
  moreover have "of_nat (digitsValue 10 ([d] @ ds')) * 10 powi (n - 1 - int (length ds')) = decimalValue ds n"
    by (simp add: decimalValue_def ds algebra_simps)
  ultimately have "readsAs ([d] @ ?f @ 101 # ?sg # ?N @ t) t (decimalValue ds n)"
    using d(1) by (intro readsAsI) (auto simp: digitString_def)
  moreover have "take 1 ds @ (if length ds = 1 then [] else [46] @ drop 1 ds) @ 101 # ?sg # ?N @ t = [d] @ ?f @ 101 # ?sg # ?N @ t"
    by (simp add: ds)
  ultimately show ?thesis unfolding e by (simp only:)
qed

lemma layout_reads:
  assumes "digitString ds" "numberEnd t"
  shows "readsAs (layoutDecimal ds n @ t) t (decimalValue ds n)"
proof -
  let ?k = "int (length ds)"
  have k: "0 < ?k" using assms(1) by (simp add: digitString_def)
  consider "?k \<le> n" "n \<le> 21" | "\<not> ?k \<le> n" "0 < n" "n \<le> 21" | "- 6 < n" "n \<le> 0" | "21 < n \<or> n \<le> - 6" by linarith
  then show ?thesis
  proof cases
    case 1
    then show ?thesis using layout_whole [OF assms, of n] by (simp add: layoutDecimal_def)
  next
    case 2
    then show ?thesis using layout_point [OF assms, of n] by (simp add: layoutDecimal_def)
  next
    case 3
    then have "\<not> ?k \<le> n" using k by linarith
    then show ?thesis using 3 layout_small [OF assms, of n] by (simp add: layoutDecimal_def)
  next
    case 4
    then have eq: "layoutDecimal ds n = take 1 ds @ (if length ds = 1 then [] else [46] @ drop 1 ds) @ u ''e'' @
        (if 0 < n - 1 then u ''+'' else u ''-'') @ natToString (nat \<bar>n - 1\<bar>)"
      using k by (auto simp: layoutDecimal_def Let_def)
    have "n \<noteq> 1" using 4 by auto
    then show ?thesis using layout_exponent [OF assms, of n] unfolding eq append_assoc by blast
  qed
qed

text \<open>All finite doubles.\<close>

definition isDouble :: "rat \<Rightarrow> bool" where
  "isDouble x \<longleftrightarrow> fl x = x \<and> \<bar>x\<bar> < 2 ^ 1024"

lemma toDouble_back: "fl y = x \<Longrightarrow> \<bar>x\<bar> < 2 ^ 1024 \<Longrightarrow> toDouble y = Fin x"
proof -
  assume y: "fl y = x" "\<bar>x\<bar> < 2 ^ 1024"
  have "\<not> B \<le> x \<and> \<not> x \<le> - B" if "\<bar>x\<bar> < B" for B using that by linarith
  from this [OF y(2)] show ?thesis unfolding toDouble_def Let_def y(1) by (simp only: if_False simp_thms)
qed

lemma posToString_reads:
  assumes "isDouble x" "0 < x" "numberEnd t"
  shows "\<exists>v. readsAs (posToString x @ t) t v \<and> fl v = x"
proof -
  have "fl x = x" "x < 2 ^ 1024" using assms(1,2) unfolding isDouble_def abs_less_iff by blast+
  then obtain ds n where "decimalForm x = Some (ds, n)" "digitString ds" "fl (decimalValue ds n) = x"
    using decimalForm_value assms(2) by blast
  then show ?thesis using layout_reads [OF _ assms(3)] by (auto simp: posToString_def)
qed

lemma parseNumber_finToString:
  assumes "isDouble x" "numberEnd t"
  shows "parseNumber (finToString x @ t) = Some (Fin x, t)"
proof -
  consider "x = 0" | "0 < x" | "x < 0" by linarith
  then show ?thesis
  proof cases
    case 1
    have "readsAs ([48] @ t) t 0"
      using assms(2) parse_ends by (intro readsAsI [where w = "[48]"]) (auto simp: parseWhole_def isDecimal_def digitsValue_zeros [of 10 1, simplified])
    moreover have "toDouble 0 = Fin 0" by (simp add: toDouble_def)
    ultimately show ?thesis using 1 readsAs_parseNumber(1) by (fastforce simp: finToString_def u_simps)
  next
    case 2
    then obtain v where "readsAs (posToString x @ t) t v" "fl v = x" using posToString_reads assms by blast
    then show ?thesis
      using 2 assms(1) readsAs_parseNumber(1) toDouble_back by (simp add: finToString_def isDouble_def)
  next
    case 3
    have "isDouble (- x)" using assms(1) by (simp add: isDouble_def fl_minus)
    then obtain v where v: "readsAs (posToString (- x) @ t) t v" "fl v = - x" using posToString_reads 3 assms(2) by force
    then have "toDouble (- v) = Fin x" using assms(1) by (intro toDouble_back) (simp_all add: fl_minus isDouble_def)
    then show ?thesis using 3 readsAs_parseNumber(2) [OF v(1)] by (simp add: finToString_def u_simps)
  qed
qed

end
