(* ===== verification/Json_Text.thy ===== *)
theory Json_Text
  imports Js_Decimal
begin

text \<open>
  JSON text is read back as the value that was written, for values whose numbers are finite
  doubles and whose objects are in the order the language keeps; and the text of a value is
  well formed, so that its UTF-8 form is read back as well. What the pages and the workers send
  each other as JSON therefore arrives as it was sent.
\<close>

declare u_simps [simp del]

section \<open>Strings\<close>

lemma hex4_read:
  assumes "c < 65536"
  shows "parseHex4 (hex4 c @ t) = Some (c, t)"
proof -
  have len: "length (natToRadix 16 c) \<le> 4"
  proof (cases "c = 0")
    case False
    then obtain k where k: "16 ^ k \<le> c" "c < 16 ^ Suc k"
      using ex_power_ivl1 [of 16 c] by auto
    then have "16 ^ k < (16 :: nat) ^ 4" using assms by (simp add: order_le_less_trans)
    then have "k < 4" by (rule power_less_imp_less_exp [rotated]) simp
    then show ?thesis using length_natToRadix [of 16 k c] k by simp
  qed (simp add: natToRadix_small)
  have d: "\<forall>x \<in> set (natToRadix 16 c). isRadixDigit 16 x" "digitsValue 16 (natToRadix 16 c) = c"
    using natToRadix_digits [of 16 c] by simp_all
  have "length (hex4 c) = 4" using len by (simp add: hex4_def padStart_def)
  moreover have "\<forall>x \<in> set (hex4 c). isRadixDigit 16 x"
    using d(1) isRadixDigit_digitChar [of 0 16] by (auto simp: hex4_def padStart_def digitChar_def)
  moreover have "digitsValue 16 (hex4 c) = c"
    using d(2) by (simp add: hex4_def padStart_def digitsValue_append digitsValue_zeros)
  ultimately show ?thesis by (simp add: parseHex4_def)
qed

lemma quoteUnit_read:
  "parseString (quoteUnit c @ t) = map_option (\<lambda>(r, t'). (c # r, t')) (parseString t)"
proof (cases "c < 32 \<or> isHigh c \<or> isLow c")
  case True
  then have "parseHex4 (hex4 c @ t) = Some (c, t)" by (intro hex4_read) (auto simp: isHigh_def isLow_def)
  then show ?thesis using True by (auto simp: quoteUnit_def parseEscape_def)
qed (auto simp: quoteUnit_def parseEscape_def)

lemma quoteUnits_read: "parseString (quoteUnits s @ 34 # t) = Some (s, t)"
proof (induction s rule: quoteUnits.induct)
  case (3 c d s)
  show ?case
  proof (cases "isHigh c \<and> isLow d")
    case True
    then have "c \<ge> 55296" "d \<ge> 55296" by (auto simp: isHigh_def isLow_def)
    then show ?thesis using 3(1) [OF True] True by simp
  next
    case False
    then have "quoteUnits (c # d # s) @ 34 # t = quoteUnit c @ quoteUnits (d # s) @ 34 # t" by auto
    then show ?thesis using 3(2) [OF False] by (simp only: quoteUnit_read) simp
  qed
qed (simp_all add: quoteUnit_read)

section \<open>Values that are kept\<close>

fun jsonKept :: "json \<Rightarrow> bool" where
  "jsonKept (JNum n) = (case n of Fin x \<Rightarrow> isDouble x | _ \<Rightarrow> False)"
| "jsonKept (JArr vs) = (\<forall>v \<in> set vs. jsonKept v)"
| "jsonKept (JObj kvs) =
     ((\<forall>kv \<in> set kvs. jsonKept (snd kv)) \<and> foldl (\<lambda>acc (k, v). objSet k v acc) [] kvs = kvs)"
| "jsonKept v = True"

text \<open>An object whose keys differ and are no indices is in order.\<close>

lemma objSet_fresh: "k \<notin> fst ` set kvs \<Longrightarrow> indexKey k = None \<Longrightarrow> objSet k v kvs = kvs @ [(k, v)]"
  by (simp add: objSet_def)

lemma named_object:
  assumes "distinct (map fst kvs)" "\<forall>k \<in> fst ` set kvs. indexKey k = None"
  shows "foldl (\<lambda>acc (k, v). objSet k v acc) [] kvs = kvs"
  using assms by (induction kvs rule: rev_induct) (auto simp: objSet_fresh)

text \<open>The text of a value begins with no white space, and after it another value may follow.\<close>

definition valueEnd :: "ustring \<Rightarrow> bool" where
  "valueEnd t \<longleftrightarrow> t = [] \<or> hd t \<in> {44, 93, 125}"

lemma valueEnd_number: "valueEnd t \<Longrightarrow> numberEnd t"
  by (auto simp: valueEnd_def numberEnd_def isDecimal_def)

lemma skipSpace_simps [simp]:
  "skipSpace [] = []" "\<not> isJsonSpace c \<Longrightarrow> skipSpace (c # t) = c # t"
  by (simp_all add: skipSpace_def)

lemma number_start:
  assumes "isDouble x" "numberEnd t"
  obtains c s where "finToString x @ t = c # s" "isDecimal c \<or> c = 45"
proof -
  have pos: "\<exists>c s. posToString y @ t = c # s \<and> isDecimal c" if "isDouble y" "0 < y" for y
    using posToString_reads [OF that assms(2)] by (cases "posToString y @ t") (auto simp: readsAs_def)
  consider "x = 0" | "0 < x" | "x < 0" by linarith
  then show thesis
  proof cases
    case 1
    then show thesis using that by (simp add: finToString_def u_simps isDecimal_def)
  next
    case 2
    then show thesis using pos [OF assms(1)] that by (auto simp: finToString_def)
  next
    case 3
    then show thesis using that by (simp add: finToString_def u_simps)
  qed
qed

section \<open>Values are read back\<close>

definition readsValue :: "json \<Rightarrow> bool" where
  "readsValue v \<longleftrightarrow> (\<forall>t. valueEnd t \<longrightarrow> (\<exists>n. parseValue n (stringify v @ t) = Some (v, t)))"

lemma readsValueD: "readsValue v \<Longrightarrow> valueEnd t \<Longrightarrow> length (stringify v @ t) < n \<Longrightarrow> parseValue n (stringify v @ t) = Some (v, t)"
  using parse_enough(1) unfolding readsValue_def by (metis trans_less_add1)

lemma value_start:
  assumes "jsonKept v" "valueEnd t"
  obtains c s where "stringify v @ t = c # s" "\<not> isJsonSpace c" "c \<noteq> 93" "c \<noteq> 125"
proof (cases v)
  case (JNum n)
  then obtain x where x: "n = Fin x" "isDouble x" using assms(1) by (cases n) auto
  obtain c s where "finToString x @ t = c # s" "isDecimal c \<or> c = 45"
    using number_start [OF x(2) valueEnd_number [OF assms(2)]] by blast
  then show thesis using that JNum x(1) by (auto simp: isDecimal_def isJsonSpace_def)
next
  case (JBool b)
  then show thesis using that by (cases b) (simp_all add: u_simps isJsonSpace_def)
qed (use that in \<open>simp_all add: u_simps quoteJSON_def isJsonSpace_def\<close>)

lemma elems_read:
  assumes "vs \<noteq> []" "\<forall>v \<in> set vs. readsValue v" "Suc (length (joinWith [44] (map stringify vs) @ 93 # t)) < n"
  shows "parseElems n (joinWith [44] (map stringify vs) @ 93 # t) = Some (vs, t)"
  using assms
proof (induction vs arbitrary: n)
  case (Cons v vs)
  then obtain m where n: "n = Suc m" by (cases n) simp_all
  show ?case
  proof (cases "vs = []")
    case True
    have "parseValue m (stringify v @ 93 # t) = Some (v, 93 # t)"
      using Cons.prems True n by (intro readsValueD) (simp_all add: valueEnd_def)
    then show ?thesis using True n by (simp add: parseElems_iff isJsonSpace_def)
  next
    case False
    let ?r = "joinWith [44] (map stringify vs) @ 93 # t"
    have eq: "joinWith [44] (map stringify (v # vs)) @ 93 # t = stringify v @ 44 # ?r"
      using False by (cases vs) simp_all
    have "parseValue m (stringify v @ 44 # ?r) = Some (v, 44 # ?r)"
      using Cons.prems n unfolding eq by (intro readsValueD) (simp_all add: valueEnd_def)
    moreover have "parseElems m ?r = Some (vs, t)" using Cons False n unfolding eq by simp
    ultimately show ?thesis unfolding eq n by (simp add: parseElems_iff isJsonSpace_def)
  qed
qed simp

abbreviation member :: "ustring \<times> json \<Rightarrow> ustring" where
  "member kv \<equiv> case kv of (k, v) \<Rightarrow> quoteJSON k @ [58] @ stringify v"

abbreviation setAll :: "(ustring \<times> json) list \<Rightarrow> (ustring \<times> json) list \<Rightarrow> (ustring \<times> json) list" where
  "setAll \<equiv> foldl (\<lambda>acc (k, v). objSet k v acc)"

lemma member_read:
  assumes "readsValue v" "valueEnd t" "length (stringify v @ t) < n"
  obtains s1 s2 s3 where "skipSpace (quoteJSON k @ 58 # stringify v @ t) = 34 # s1" "parseString s1 = Some (k, s2)"
    "skipSpace s2 = 58 # s3" "parseValue n s3 = Some (v, t)"
proof
  have "quoteJSON k @ 58 # stringify v @ t = 34 # quoteUnits k @ 34 # 58 # stringify v @ t" by (simp add: quoteJSON_def)
  then show "skipSpace (quoteJSON k @ 58 # stringify v @ t) = 34 # (quoteUnits k @ 34 # 58 # stringify v @ t)"
    by (simp add: isJsonSpace_def)
  show "parseString (quoteUnits k @ 34 # 58 # stringify v @ t) = Some (k, 58 # stringify v @ t)" by (rule quoteUnits_read)
  show "skipSpace (58 # stringify v @ t) = 58 # (stringify v @ t)" by (simp add: isJsonSpace_def)
  show "parseValue n (stringify v @ t) = Some (v, t)" by (rule readsValueD [OF assms])
qed

lemma members_read:
  assumes "kvs \<noteq> []" "\<forall>kv \<in> set kvs. readsValue (snd kv)" "Suc (length (joinWith [44] (map member kvs) @ 125 # t)) < n"
  shows "parseMembers n acc (joinWith [44] (map member kvs) @ 125 # t) = Some (setAll acc kvs, t)"
  using assms
proof (induction kvs arbitrary: n acc)
  case (Cons kv kvs)
  obtain k v where kv: "kv = (k, v)" by fastforce
  obtain m where n: "n = Suc m" using Cons.prems by (cases n) simp_all
  have v: "readsValue v" using Cons.prems kv by simp
  show ?case
  proof (cases "kvs = []")
    case True
    have "length (stringify v @ 125 # t) < m" using Cons.prems True n kv by (simp add: quoteJSON_def)
    then obtain s1 s2 s3 where "skipSpace (quoteJSON k @ 58 # stringify v @ 125 # t) = 34 # s1"
        "parseString s1 = Some (k, s2)" "skipSpace s2 = 58 # s3" "parseValue m s3 = Some (v, 125 # t)"
      using member_read [OF v, of "125 # t" m k] unfolding valueEnd_def by auto
    then show ?thesis using True n kv by (auto simp: parseMembers_iff isJsonSpace_def)
  next
    case False
    let ?r = "joinWith [44] (map member kvs) @ 125 # t"
    have eq: "joinWith [44] (map member (kv # kvs)) @ 125 # t = quoteJSON k @ 58 # stringify v @ 44 # ?r"
      using False kv by (cases kvs) simp_all
    have "length (stringify v @ 44 # ?r) < m" using Cons.prems n unfolding eq by (simp add: quoteJSON_def)
    then obtain s1 s2 s3 where "skipSpace (quoteJSON k @ 58 # stringify v @ 44 # ?r) = 34 # s1"
        "parseString s1 = Some (k, s2)" "skipSpace s2 = 58 # s3" "parseValue m s3 = Some (v, 44 # ?r)"
      using member_read [OF v, of "44 # ?r" m k] unfolding valueEnd_def by auto
    moreover have "parseMembers m (objSet k v acc) ?r = Some (setAll (objSet k v acc) kvs, t)"
      using Cons False n unfolding eq by simp
    ultimately show ?thesis unfolding eq n by (auto simp: kv parseMembers_iff isJsonSpace_def)
  qed
qed simp

lemma parse_literals:
  "parseValue (Suc n) (u ''null'' @ t) = Some (JNull, t)"
  "parseValue (Suc n) (u ''true'' @ t) = Some (JBool True, t)"
  "parseValue (Suc n) (u ''false'' @ t) = Some (JBool False, t)"
  by (simp_all add: parseValue_iff u_simps isJsonSpace_def parseLiteral_def startsWith_iff)

lemma readsValue_number:
  assumes "isDouble x"
  shows "readsValue (JNum (Fin x))"
  unfolding readsValue_def
proof (intro allI impI exI)
  fix t assume t: "valueEnd t"
  obtain c s where c: "finToString x @ t = c # s" "isDecimal c \<or> c = 45"
    using number_start [OF assms valueEnd_number [OF t]] by blast
  have n: "parseNumber (c # s) = Some (Fin x, t)"
    using parseNumber_finToString [OF assms valueEnd_number [OF t]] c(1) by simp
  have "skipSpace (c # s) = c # s" "c \<noteq> 123" "c \<noteq> 91" "c \<noteq> 34"
    using c(2) by (auto simp: isDecimal_def isJsonSpace_def)
  moreover have "parseLiteral (c # s) = Some (JNum (Fin x), t)"
    using c(2) n by (auto simp: parseLiteral_def startsWith_iff isDecimal_def u_simps)
  ultimately show "parseValue (Suc 0) (stringify (JNum (Fin x)) @ t) = Some (JNum (Fin x), t)"
    using c(1) by (simp add: parseValue_iff)
qed

lemma readsValue_array:
  assumes "\<forall>v \<in> set vs. readsValue v \<and> jsonKept v"
  shows "readsValue (JArr vs)"
  unfolding readsValue_def
proof (intro allI impI)
  fix t assume t: "valueEnd t"
  let ?b = "joinWith [44] (map stringify vs) @ 93 # t"
  show "\<exists>n. parseValue n (stringify (JArr vs) @ t) = Some (JArr vs, t)"
  proof (cases vs)
    case Nil
    have "parseValue (Suc 0) (stringify (JArr vs) @ t) = Some (JArr vs, t)"
      using Nil by (simp add: parseValue_iff isJsonSpace_def)
    then show ?thesis by blast
  next
    case (Cons v ws)
    obtain r where r: "?b = stringify v @ r" "valueEnd r"
      using Cons by (cases ws) (auto simp: valueEnd_def)
    obtain c s where "?b = c # s" "\<not> isJsonSpace c" "c \<noteq> 93"
    proof -
      have "jsonKept v" using assms Cons by simp
      then show thesis using value_start [OF _ r(2)] that r(1) by metis
    qed
    then have "hd (skipSpace ?b) \<noteq> 93" by simp
    moreover have "parseElems (length ?b + 2) ?b = Some (vs, t)"
      using elems_read [of vs t "length ?b + 2"] assms Cons by simp
    ultimately have "parseValue (Suc (length ?b + 2)) (91 # ?b) = Some (JArr vs, t)"
      unfolding parseValue_iff by (simp add: isJsonSpace_def)
    then show ?thesis by (metis append_Cons append_Nil append_assoc stringify.simps(5))
  qed
qed

lemma readsValue_object:
  assumes "\<forall>kv \<in> set kvs. readsValue (snd kv)" "setAll [] kvs = kvs"
  shows "readsValue (JObj kvs)"
  unfolding readsValue_def
proof (intro allI impI)
  fix t assume t: "valueEnd t"
  let ?b = "joinWith [44] (map member kvs) @ 125 # t"
  show "\<exists>n. parseValue n (stringify (JObj kvs) @ t) = Some (JObj kvs, t)"
  proof (cases kvs)
    case Nil
    have "parseValue (Suc 0) (stringify (JObj kvs) @ t) = Some (JObj kvs, t)"
      using Nil by (simp add: parseValue_iff isJsonSpace_def)
    then show ?thesis by blast
  next
    case (Cons kv ws)
    have "\<exists>r. ?b = 34 # r"
      using Cons by (cases kv; cases ws) (simp_all add: quoteJSON_def)
    then have "hd (skipSpace ?b) \<noteq> 125" by (auto simp: isJsonSpace_def)
    moreover have "parseMembers (length ?b + 2) [] ?b = Some (kvs, t)"
      using members_read [of kvs t "length ?b + 2" "[]"] assms Cons by simp
    ultimately have "parseValue (Suc (length ?b + 2)) (123 # ?b) = Some (JObj kvs, t)"
      unfolding parseValue_iff by (simp add: isJsonSpace_def)
    then show ?thesis by (metis append_Cons append_Nil append_assoc stringify.simps(6))
  qed
qed

lemma readsValue_kept: "jsonKept v \<Longrightarrow> readsValue v"
proof (induction v rule: stringify.induct)
  case (2 b)
  then show ?case using parse_literals unfolding readsValue_def by (cases b) (simp_all, blast+)
next
  case (3 n)
  then show ?case by (cases n) (auto simp: readsValue_number)
next
  case (4 s)
  have "parseValue (Suc 0) (stringify (JStr s) @ t) = Some (JStr s, t)" for t
    using quoteUnits_read by (simp add: parseValue_iff quoteJSON_def isJsonSpace_def)
  then show ?case unfolding readsValue_def by blast
next
  case (6 kvs)
  have "\<forall>kv \<in> set kvs. readsValue (snd kv)"
  proof
    fix kv assume kv: "kv \<in> set kvs"
    show "readsValue (snd kv)"
      using 6(1) [OF kv, of "fst kv" "snd kv"] 6(2) kv unfolding jsonKept.simps by simp
  qed
  then show ?case using 6 by (intro readsValue_object) simp_all
qed (use parse_literals in \<open>simp add: readsValue_def, blast\<close>, simp add: readsValue_array)

theorem jsonParse_stringify:
  assumes "jsonKept v"
  shows "jsonParse (stringify v) = Inr v"
  using readsValue_kept [OF assms] jsonParse_enough [of _ "stringify v" v "[]"]
  unfolding readsValue_def valueEnd_def by auto

section \<open>The text is well formed\<close>

abbreviation ascii :: "ustring \<Rightarrow> bool" where
  "ascii s \<equiv> \<forall>c \<in> set s. c < 128"

lemma ascii_wellFormed: "ascii s \<Longrightarrow> wellFormed s"
  by (rule wellFormed_plain) auto

lemma ascii_unit [simp]: "c < 128 \<Longrightarrow> \<not> isHigh c" "c < 128 \<Longrightarrow> \<not> isLow c"
  by (simp_all add: isHigh_def isLow_def)

lemma ascii_digits: "2 \<le> r \<Longrightarrow> r \<le> 36 \<Longrightarrow> ascii (natToRadix r n)"
proof -
  assume "2 \<le> r" "r \<le> 36"
  then have "\<forall>c \<in> set (natToRadix r n). isRadixDigit r c" using natToRadix_digits [of r n] by simp
  then show ?thesis by (auto simp: isRadixDigit_def digitVal_def char_class_defs split: if_splits)
qed

lemma ascii_layout: "ascii ds \<Longrightarrow> ascii (layoutDecimal ds n)"
  using ascii_digits [of 10]
  by (auto simp: layoutDecimal_def Let_def u_simps dest: in_set_takeD in_set_dropD)

lemma ascii_finToString: "ascii (finToString x)"
proof -
  have "ascii (posToString y)" for y
  proof (cases "decimalForm y")
    case (Some d)
    then obtain k n where "d = (natToString k, n)" by (auto simp: decimalForm_def split: if_splits)
    then show ?thesis
      using Some ascii_layout [OF ascii_digits, of 10 k n] by (simp add: posToString_def)
  qed (simp add: posToString_def)
  then show ?thesis by (auto simp: finToString_def u_simps)
qed

lemma wellFormed_quoteUnit: "c < 65536 \<Longrightarrow> wellFormed (quoteUnit c)"
proof (cases "isHigh c \<or> isLow c \<or> c < 32")
  case True
  have "ascii (quoteUnit c)"
    using True ascii_digits [of 16 c] by (auto simp: quoteUnit_def hex4_def padStart_def)
  then show ?thesis by (rule ascii_wellFormed)
qed (auto simp: quoteUnit_def)

lemma wellFormed_quoteJSON: "\<forall>c \<in> set s. c < 65536 \<Longrightarrow> wellFormed (quoteJSON s)"
proof -
  assume "\<forall>c \<in> set s. c < 65536"
  then have "wellFormed (quoteUnits s)"
  proof (induction s rule: quoteUnits.induct)
    case (3 c d s)
    show ?case
    proof (cases "isHigh c \<and> isLow d")
      case True
      then show ?thesis using 3 by simp
    next
      case False
      then have "quoteUnits (c # d # s) = quoteUnit c @ quoteUnits (d # s)" by auto
      then show ?thesis using 3(2) [OF False] 3(3) by (simp add: wellFormed_append wellFormed_quoteUnit)
    qed
  qed (simp_all add: wellFormed_quoteUnit)
  then show ?thesis
    unfolding quoteJSON_def by (intro wellFormed_append) (simp_all add: ascii_wellFormed)
qed

lemma wellFormed_joinWith: "wellFormed sep \<Longrightarrow> \<forall>s \<in> set ss. wellFormed s \<Longrightarrow> wellFormed (joinWith sep ss)"
  by (induction sep ss rule: joinWith.induct) (simp_all add: wellFormed_append)

text \<open>The strings in a value are made of units of 16 bits.\<close>

fun jsonUnits :: "json \<Rightarrow> bool" where
  "jsonUnits (JStr s) = (\<forall>c \<in> set s. c < 65536)"
| "jsonUnits (JArr vs) = (\<forall>v \<in> set vs. jsonUnits v)"
| "jsonUnits (JObj kvs) = (\<forall>kv \<in> set kvs. (\<forall>c \<in> set (fst kv). c < 65536) \<and> jsonUnits (snd kv))"
| "jsonUnits v = True"

lemma wellFormed_stringify: "jsonUnits v \<Longrightarrow> wellFormed (stringify v)"
proof (induction v rule: stringify.induct)
  case (3 n)
  then show ?case
    using ascii_wellFormed [OF ascii_finToString] by (auto simp: u_simps isHigh_def isLow_def split: jsnum.splits)
next
  case (5 vs)
  then have "wellFormed (joinWith [44] (map stringify vs))"
    by (intro wellFormed_joinWith) auto
  then show ?case unfolding stringify.simps by (intro wellFormed_append) (simp_all add: ascii_wellFormed)
next
  case (6 kvs)
  have "wellFormed (member kv)" if kv: "kv \<in> set kvs" for kv
  proof -
    have "wellFormed (stringify (snd kv))" "\<forall>c \<in> set (fst kv). c < 65536"
      using 6(1) [OF kv, of "fst kv" "snd kv"] 6(2) kv unfolding jsonUnits.simps by simp_all
    then have "wellFormed (quoteJSON (fst kv) @ [58] @ stringify (snd kv))"
      using wellFormed_quoteJSON by (intro wellFormed_append) simp_all
    then show ?thesis by (simp add: case_prod_beta)
  qed
  then have "wellFormed (joinWith [44] (map member kvs))"
    by (intro wellFormed_joinWith) auto
  then show ?case unfolding stringify.simps by (intro wellFormed_append) (simp_all add: ascii_wellFormed)
qed (simp_all add: wellFormed_quoteJSON u_simps isHigh_def isLow_def)

lemma stringify_start: "jsonKept v \<Longrightarrow> stringify v = [] \<or> hd (stringify v) \<noteq> 65279"
proof (cases v)
  case (JNum n)
  have "finToString x = [] \<or> hd (finToString x) \<noteq> 65279" for x
    using ascii_finToString [of x] by (cases "finToString x") auto
  then show ?thesis using JNum by (auto simp: u_simps split: jsnum.splits)
qed (auto simp: u_simps quoteJSON_def)

section \<open>Over the wire\<close>

text \<open>A value that is sent as the JSON text of a body, in UTF-8, and read with \<open>json()\<close>.\<close>

definition readJson :: "bytes \<Rightarrow> json res" where
  "readJson b = jsonParse (utf8Decode b)"

definition sendJson :: "json \<Rightarrow> bytes" where
  "sendJson v = utf8Encode (stringify v)"

lemma readJson_sendJson: "jsonKept v \<Longrightarrow> jsonUnits v \<Longrightarrow> readJson (sendJson v) = Inr v"
  by (simp add: readJson_def sendJson_def utf8Decode_utf8Encode wellFormed_stringify stringify_start jsonParse_stringify)

end
