(* ===== verification/Game_Worker.thy ===== *)
theory Game_Worker
  imports Game_Play Json_Text Wordmine_Start Wordmine_Claim
begin

text \<open>
  The page and the worker together: a call of the page as the request the worker receives, the
  worker's response as the answer the page receives, both through their JSON text in UTF-8, and
  the address of a poll through percent-encoding. On top of that a round of the game: the
  letters of a guess are typed and sent, the worker grades it, the page shows the marks.
\<close>

declare u_simps [simp del]

section \<open>Queries\<close>

text \<open>\<open>url.searchParams\<close>: the parser of \<^verbatim>\<open>application/x-www-form-urlencoded\<close>.\<close>

function percentDecode :: "ustring \<Rightarrow> bytes" where
  "percentDecode [] = []"
| "percentDecode (c # s) =
     (if c = 37 \<and> 2 \<le> length s \<and> (\<forall>d \<in> set (take 2 s). isRadixDigit 16 d)
      then byteOf (digitsValue 16 (take 2 s)) # percentDecode (drop 2 s)
      else byteOf c # percentDecode s)"
  by pat_completeness auto
termination by (relation "measure length") auto

definition formValue :: "ustring \<Rightarrow> ustring" where
  "formValue s = decodeUnits (percentDecode (map (\<lambda>c. if c = 43 then 32 else c) s))"

fun splitAt :: "nat \<Rightarrow> ustring \<Rightarrow> ustring \<Rightarrow> ustring list" where
  "splitAt d t [] = [t]"
| "splitAt d t (c # s) = (if c = d then t # splitAt d [] s else splitAt d (t @ [c]) s)"

definition parseQuery :: "ustring \<Rightarrow> (ustring \<times> ustring) list" where
  "parseQuery q =
     map (\<lambda>s. (formValue (takeWhile (\<lambda>c. c \<noteq> 61) s), formValue (drop 1 (dropWhile (\<lambda>c. c \<noteq> 61) s))))
       (filter (\<lambda>s. s \<noteq> []) (splitAt 38 [] q))"

text \<open>What \<open>encodeURIComponent\<close> has written is read back.\<close>

lemma upperDigit:
  assumes "d < 16"
  obtains c where "upperUnit (digitChar d) = [c]" "digitVal c = Some d" "c \<noteq> 43" "c \<noteq> 38" "c \<noteq> 61"
proof (cases "d < 10")
  case True
  then show thesis
    using that [of "48 + d"] by (simp add: upperUnit_def digitChar_def digitVal_def char_class_defs)
next
  case False
  then show thesis
    using that [of "55 + d"] assms by (simp add: upperUnit_def digitChar_def digitVal_def char_class_defs)
qed

lemma upperHex_read:
  obtains c d where "upperHex b = [c, d]" "isRadixDigit 16 c" "isRadixDigit 16 d" "{c, d} \<inter> {38, 43, 61} = {}"
    "digitsValue 16 [c, d] = unat b"
proof -
  have "unat b < 256" using unsigned_less [where 'a = nat, of b] by simp
  then have b: "unat b div 16 < 16" "unat b mod 16 < 16" by simp_all
  have pad: "padStart 2 48 (natToRadix 16 (unat b)) = [digitChar (unat b div 16), digitChar (unat b mod 16)]"
    using b by (cases "unat b < 16") (simp_all add: natToRadix_small natToRadix_step padStart_def digitChar_def)
  obtain c where c: "upperUnit (digitChar (unat b div 16)) = [c]" "digitVal c = Some (unat b div 16)"
      "c \<noteq> 43" "c \<noteq> 38" "c \<noteq> 61" by (rule upperDigit [OF b(1)])
  obtain d where d: "upperUnit (digitChar (unat b mod 16)) = [d]" "digitVal d = Some (unat b mod 16)"
      "d \<noteq> 43" "d \<noteq> 38" "d \<noteq> 61" by (rule upperDigit [OF b(2)])
  show thesis
  proof
    show "upperHex b = [c, d]" using c(1) d(1) by (simp add: upperHex_def toUpperCase_def pad)
  qed (use b c d in \<open>simp_all add: isRadixDigit_def digitsValue_def digitOr0_def\<close>)
qed

abbreviation percentByte :: "8 word \<Rightarrow> ustring" where
  "percentByte b \<equiv> if isUnreserved (unat b) then [unat b] else u ''%'' @ upperHex b"

lemma unreserved_plain: "isUnreserved c \<Longrightarrow> c \<noteq> 37 \<and> c \<noteq> 38 \<and> c \<noteq> 43 \<and> c \<noteq> 61"
  by (auto simp: isUnreserved_def u_simps char_class_defs isDecimal_def)

lemma percentByte_plain: "c \<in> set (percentByte b) \<Longrightarrow> c \<noteq> 38 \<and> c \<noteq> 43 \<and> c \<noteq> 61"
  by (rule upperHex_read [of b]) (auto simp: u_simps dest: unreserved_plain split: if_splits)

lemma percentDecode_byte: "percentDecode (percentByte b @ s) = b # percentDecode s"
proof (rule upperHex_read [of b])
  fix c d assume "upperHex b = [c, d]" "isRadixDigit 16 c" "isRadixDigit 16 d" "digitsValue 16 [c, d] = unat b"
  then show ?thesis
    using unreserved_plain [of "unat b"] by (cases "isUnreserved (unat b)") (simp_all add: u_simps byteOf_def)
qed

lemma percentDecode_encoded: "percentDecode (concat (map percentByte bs)) = bs"
  by (induction bs) (simp_all only: list.map concat.simps percentDecode_byte percentDecode.simps(1))

lemma formValue_encoded:
  assumes "encodeURIComponent s = Inr q"
  shows "formValue q = s" "\<forall>c \<in> set q. c \<noteq> 38 \<and> c \<noteq> 61"
proof -
  have q: "wellFormed s" "q = concat (map percentByte (utf8Encode s))"
    using assms by (simp_all add: encodeURIComponent_def split: if_splits)
  have plain: "c \<noteq> 38 \<and> c \<noteq> 43 \<and> c \<noteq> 61" if "c \<in> set q" for c
  proof -
    obtain b where "c \<in> set (percentByte b)" using \<open>c \<in> set q\<close> unfolding q(2) set_concat set_map by blast
    then show ?thesis by (rule percentByte_plain)
  qed
  then have "map (\<lambda>c. if c = 43 then 32 else c) q = q" by (simp add: map_idI)
  then show "formValue q = s"
    using percentDecode_encoded q by (simp add: formValue_def decodeUnits_utf8Encode)
  show "\<forall>c \<in> set q. c \<noteq> 38 \<and> c \<noteq> 61" using plain by blast
qed

lemma splitAt_none: "\<forall>c \<in> set s. c \<noteq> d \<Longrightarrow> splitAt d t s = [t @ s]"
  by (induction s arbitrary: t) simp_all

lemma parseQuery_id:
  assumes "encodeURIComponent s = Inr q"
  shows "parseQuery (u ''id='' @ q) = [(u ''id'', s)]"
proof -
  have "splitAt 38 [] (u ''id='' @ q) = [u ''id='' @ q]"
    using formValue_encoded(2) [OF assms] by (subst splitAt_none) (auto simp: u_simps)
  moreover have "formValue (u ''id'') = u ''id''" by (simp add: formValue_def u_simps byteOf_def decode_simps unitsOf_def)
  ultimately show ?thesis
    using formValue_encoded(1) [OF assms] by (simp add: parseQuery_def u_simps)
qed

section \<open>Requests and responses\<close>

text \<open>
  The request the worker receives for a call, with the headers the browser and the platform add.
  The path is split at the question mark; reading the body that is not there fails.
\<close>

definition requestOf :: "(ustring \<times> ustring) list \<Rightarrow> call \<Rightarrow> request option" where
  "requestOf hs c =
     map_option (\<lambda>(path, b).
       \<lparr>req_method = (case b of None \<Rightarrow> u ''GET'' | Some v \<Rightarrow> u ''POST''),
        pathname = takeWhile (\<lambda>x. x \<noteq> 63) path,
        searchParams = parseQuery (drop 1 (dropWhile (\<lambda>x. x \<noteq> 63) path)),
        req_headers = hs,
        req_json = (case b of None \<Rightarrow> Inl SyntaxError | Some v \<Rightarrow> readJson (sendJson v))\<rparr>) (api c)"

text \<open>
  \<open>r.json().then((j) => ({ status: r.status, body: j }))\<close>. For a request on which the worker throws,
  the platform answers with a page that is no JSON.
\<close>

definition bodyBytes :: "body \<Rightarrow> bytes" where
  "bodyBytes b = (case b of BJson v \<Rightarrow> sendJson v | BRaw bs \<Rightarrow> bs)"

definition replyOf :: "response res \<Rightarrow> reply" where
  "replyOf r =
     ApiReply (case r of
       Inl e \<Rightarrow> Inl SyntaxError
     | Inr resp \<Rightarrow> bindR (readJson (bodyBytes (resp_body resp))) (\<lambda>j. Inr (resp_status resp, j)))"

text \<open>A call is served: the worker runs, and the page continues with the answer.\<close>

definition serveCall ::
  "'s outside \<Rightarrow> wm_env \<Rightarrow> (ustring \<times> ustring) list \<Rightarrow> nat \<Rightarrow> page \<times> 's world \<Rightarrow> page \<times> 's world" where
  "serveCall out env hs i pw =
     (case pw of (p, w) \<Rightarrow>
        if \<not> i < length (calls p) then (p, w)
        else case requestOf hs (calls p ! i) of
               None \<Rightarrow> (p, w)
             | Some req \<Rightarrow>
                 (case run (wm_handle out) (wm_fetch env req) w of
                    (r, w') \<Rightarrow> (answer i (replyOf r) p, w')))"

section \<open>Values that arrive\<close>

lemma indexKey_name: "k = [] \<or> \<not> isRadixDigit 10 (hd k) \<Longrightarrow> indexKey k = None"
  by (cases k) (auto simp: indexKey_def parseUnsigned_def stripHexPrefix_def Let_def)

lemma jsonKept_object:
  assumes "distinct (map fst kvs)" "\<forall>k \<in> fst ` set kvs. \<not> isDecimal (hd k)" "\<forall>kv \<in> set kvs. jsonKept (snd kv)"
  shows "jsonKept (JObj kvs)"
proof -
  have "\<forall>k \<in> fst ` set kvs. indexKey k = None" using assms(2) indexKey_name by (simp add: isDecimal_radix)
  then show ?thesis using assms(1,3) named_object [of kvs] by simp
qed

lemma isDouble_int: "\<bar>n\<bar> \<le> 2 ^ 53 \<Longrightarrow> isDouble (of_int n)"
proof -
  assume n: "\<bar>n\<bar> \<le> 2 ^ 53"
  have "\<bar>of_int n :: rat\<bar> \<le> 2 ^ 53"
    using n by (metis of_int_abs of_int_le_iff of_int_numeral of_int_power)
  also have "(2 :: rat) ^ 53 < 2 ^ 1024" by (rule power_strict_increasing) simp_all
  finally show ?thesis unfolding isDouble_def using fl_of_int [OF n] by blast
qed

lemma isDouble_unit: "fl x = x \<Longrightarrow> 0 \<le> x \<Longrightarrow> x \<le> 1 \<Longrightarrow> isDouble x"
proof -
  assume x: "fl x = x" "0 \<le> x" "x \<le> 1"
  have "\<bar>x\<bar> \<le> 1" using x by simp
  also have "(1 :: rat) < 2 ^ 1024" by (rule one_less_power) simp_all
  finally show ?thesis unfolding isDouble_def using x(1) by blast
qed

section \<open>A guess at the worker\<close>

definition guessRequest :: "(ustring \<times> ustring) list \<Rightarrow> ustring \<Rightarrow> ustring \<Rightarrow> request" where
  "guessRequest hs sid g =
     \<lparr>req_method = u ''POST'', pathname = u ''/api/guess'', searchParams = [], req_headers = hs,
      req_json = Inr (JObj [(u ''session'', JStr sid), (u ''guess'', JStr g)])\<rparr>"

lemma guessPattern_units: "guessPattern g \<Longrightarrow> \<forall>c \<in> set g. c < 65536"
  by (auto simp: guessPattern_def isUpperAZ_def)

lemma requestOf_guess:
  assumes "guessPattern g" "\<forall>c \<in> set sid. c < 65536"
  shows "requestOf hs (GuessCall (Some (JStr sid)) g) = Some (guessRequest hs sid g)"
proof -
  have "jsonKept (JObj [(u ''session'', JStr sid), (u ''guess'', JStr g)])"
    by (rule jsonKept_object) (simp_all add: u_simps isDecimal_def)
  then have "readJson (sendJson (JObj [(u ''session'', JStr sid), (u ''guess'', JStr g)]))
      = Inr (JObj [(u ''session'', JStr sid), (u ''guess'', JStr g)])"
    using assms guessPattern_units [OF assms(1)] by (intro readJson_sendJson) (simp_all add: u_simps)
  then show ?thesis
    by (simp add: requestOf_def api_def guessRequest_def u_simps parseQuery_def)
qed

lemma run_guess:
  assumes "faultless out" "guessPattern g" "sid \<noteq> []" "\<not> won rec" "\<not> lost rec"
    "kvget out (store w) (clock out (tick w)) (u ''session:'' @ sid) = Some (VSession rec)"
  shows "run (wm_handle out) (wm_fetch env (guessRequest hs sid g)) w =
    run (wm_handle out) (guessRest (JStr sid) sid rec g) (w\<lparr>tick := Suc (tick w)\<rparr>)"
proof -
  have g: "toUpperCase g = g" "g \<noteq> []" using assms(2) toUpperCase_upper by (auto simp: guessPattern_def)
  have "wm_fetch env (guessRequest hs sid g) =
      bindP (handleGuess (guessRequest hs sid g)) (\<lambda>resp. Ret (withSecurityHeaders resp))"
    by (simp add: wm_fetch_def route_def guessRequest_def u_simps)
  moreover have "run (wm_handle out) (handleGuess (guessRequest hs sid g)) w =
      run (wm_handle out) (recordGuess (JStr sid) (u ''session:'' @ sid) rec g) (w\<lparr>tick := Suc (tick w)\<rparr>)"
    using assms g
    by (simp add: handleGuess_def guessRequest_def bodyOf_def stringOrEmpty_def kvGetSession_def run_simps
        faultless_def Let_def u_simps)
  ultimately show ?thesis by (simp add: guessRest_def run_bindP)
qed

lemma run_balance_ok:
  assumes "faultless out" "store_ok out F (store w) (clock out (tick w))"
  obtains b un n where "run (wm_handle out) getFaucetBalance w = (Inr (b, un), w\<lparr>tick := n\<rparr>)"
    "tick w \<le> n" "n \<le> tick w + 2"
proof (cases "kvget out (store w) (clock out (tick w)) (u ''faucet:balance'')")
  case None
  then show thesis
    using that [of 0 0 "Suc (tick w)"] assms(1)
    by (simp add: getFaucetBalance_def kvGetFaucet_def run_simps faultless_def)
next
  case (Some v)
  then have "typed F (u ''faucet:balance'') v" using assms(2) unfolding store_ok_def by blast
  then obtain f where "v = VFaucet f" by (auto simp: typed_def startsWith_def u_simps)
  then have "\<exists>b un. run (wm_handle out) getFaucetBalance w = (Inr (b, un), w\<lparr>tick := tick w + 2\<rparr>)"
    using Some assms(1) by (simp add: getFaucetBalance_def kvGetFaucet_def run_simps faultless_def Let_def)
  then show thesis using that by fastforce
qed

lemma guess_graded:
  assumes "faultless out" "store_ok out anySession (store w) (clock out (Suc (tick w)))" "guessPattern g" "sid \<noteq> []"
    "\<not> won rec" "\<not> lost rec" "kvget out (store w) (clock out (tick w)) (u ''session:'' @ sid) = Some (VSession rec)"
  obtains rec2 n where
    "run (wm_handle out) (wm_fetch env (guessRequest hs sid g)) w =
      (Inr (withSecurityHeaders (jsonResponse (guessBody (grade g (word rec)) rec2 (JStr sid)) 200)),
       w\<lparr>store := kvput out (store w) (clock out n) (u ''session:'' @ sid) (VSession rec2) (sessionTtl rec2), tick := Suc n\<rparr>)"
    "tick w \<le> n" "n \<le> tick w + 3" "rec2 = (gradedSession rec g)\<lparr>reward := reward rec2\<rparr>"
    "won rec2 \<longrightarrow> isDouble (reward rec2)"
proof -
  let ?rec = "gradedSession rec g" and ?w = "w\<lparr>tick := Suc (tick w)\<rparr>"
  note r = run_guess [OF assms(1,3-7), of env hs]
  show thesis
  proof (cases "won ?rec")
    case True
    obtain b un n where b: "run (wm_handle out) getFaucetBalance ?w = (Inr (b, un), ?w\<lparr>tick := n\<rparr>)"
        "tick ?w \<le> n" "n \<le> tick ?w + 2"
      by (rule run_balance_ok [of out anySession ?w]) (use assms(1,2) in simp_all)
    let ?x = "jsDiv (maxReward un) (of_nat (guess_count ?rec))"
    have one: "1 \<le> guess_count ?rec" by (simp add: gradedSession_def Let_def)
    have "isDouble ?x"
      using reward_bounds [OF one, of un] by (intro isDouble_unit) (simp_all add: jsDiv_def fl_idem)
    then show thesis
      using True b r assms(1)
      by (intro that [of "?rec\<lparr>reward := ?x\<rparr>" n])
        (simp_all add: guessRest_def recordGuess_def run_simps Let_def sessionTtl_def faultless_def)
  next
    case False
    then show thesis
      using r assms(1)
      by (intro that [of ?rec "Suc (tick w)"])
        (simp_all add: guessRest_def recordGuess_def run_simps Let_def faultless_def)
  qed
qed

text \<open>The answer to a guess arrives as it was sent.\<close>

lemma guessBody_arrives:
  assumes "won rec \<longrightarrow> isDouble (reward rec)" "guess_count rec \<le> 6" "\<forall>c \<in> set sid. c < 65536" "word rec \<in> set WORDS"
  shows "replyOf (Inr (withSecurityHeaders (jsonResponse (guessBody marks rec (JStr sid)) 200))) =
    ApiReply (Inr (200, guessBody marks rec (JStr sid)))"
proof -
  have count: "isDouble (of_int (int (guess_count rec)))" using assms(2) by (intro isDouble_int) simp
  have word: "\<forall>c \<in> set (word rec). c < 65536" by (rule guessPattern_units [OF WORDS_shape [OF assms(4)]])
  have marks: "jsonKept (markJson m) \<and> jsonUnits (markJson m)" for m by (cases m) (simp_all add: markJson_def u_simps)
  have "jsonKept (guessBody marks rec (JStr sid))"
    unfolding guessBody_def
    by (rule jsonKept_object) (use assms count marks in \<open>auto simp: u_simps isDecimal_def jsInt_def jsRat_def\<close>)
  moreover have "jsonUnits (guessBody marks rec (JStr sid))"
    unfolding guessBody_def using assms(3) word marks by (auto simp: u_simps jsInt_def jsRat_def)
  ultimately have "readJson (sendJson (guessBody marks rec (JStr sid))) = Inr (guessBody marks rec (JStr sid))"
    by (rule readJson_sendJson)
  then show ?thesis
    by (simp add: replyOf_def withSecurityHeaders_def jsonResponse_def bodyBytes_def)
qed

end
