(* ===== verification/Game_Round.thy ===== *)
theory Game_Round
  imports Game_Worker
begin

text \<open>
  Rounds of the game, over page and worker. The abstract game has a word, the rows of guesses with
  their marks, and ends when the word was guessed or six rows are full. A player who types words
  and presses Enter, with the worker serving each call, sees exactly the abstract game.
\<close>

declare u_simps [simp del]

section \<open>The abstract game\<close>

type_synonym rows = "(ustring \<times> mark list) list"

definition gameEnded :: "ustring \<Rightarrow> rows \<Rightarrow> bool" where
  "gameEnded w rs \<longleftrightarrow> rs \<noteq> [] \<and> (fst (last rs) = w \<or> 6 \<le> length rs)"

definition gameRow :: "ustring \<Rightarrow> ustring \<Rightarrow> rows \<Rightarrow> rows" where
  "gameRow w g rs = (if gameEnded w rs then rs else rs @ [(g, map (markSpec g w) [0..<5])])"

primrec gameRows :: "ustring \<Rightarrow> ustring list \<Rightarrow> rows \<Rightarrow> rows" where
  "gameRows w [] rs = rs"
| "gameRows w (g # gs) rs = gameRows w gs (gameRow w g rs)"

section \<open>The page in a game\<close>

definition shownRow :: "ustring \<times> mark list \<Rightarrow> ustring \<times> json option" where
  "shownRow r = (fst r, Some (JArr (map markJson (snd r))))"

definition kbMarks :: "page \<Rightarrow> bool" where
  "kbMarks p \<longleftrightarrow> (\<forall>k. kbState p k = None \<or> (\<exists>m. kbState p k = Some (markJson m)))"

definition inGame :: "ustring \<Rightarrow> rows \<Rightarrow> bool \<Rightarrow> page \<Rightarrow> bool" where
  "inGame sid rs over p \<longleftrightarrow>
     sessionVar p = Some (JStr sid) \<and> currentRow p = length rs \<and> currentCol p = 0 \<and>
     guessList p = map shownRow rs \<and> gameOver p = over \<and> \<not> el_hidden (doc p EGame) \<and> kbMarks p"

subsection \<open>Typing\<close>

definition typeWord :: "ustring \<Rightarrow> page_event list" where
  "typeWord g = map (\<lambda>c. KeyDown [c] False) g @ [KeyDown (u ''Enter'') False]"

definition wordKeys :: "ustring \<Rightarrow> bool" where
  "wordKeys g \<longleftrightarrow> length g = 5 \<and> (\<forall>c \<in> set g. isLowerAZ c \<or> isUpperAZ c)"

lemma toUpperCase_letters:
  "\<forall>c \<in> set g. isLowerAZ c \<or> isUpperAZ c \<Longrightarrow> toUpperCase g = map (\<lambda>c. if isLowerAZ c then c - 32 else c) g"
  by (induction g) (auto simp: toUpperCase_def upperUnit_def char_class_defs)

lemma guessPattern_toUpperCase: "wordKeys g \<Longrightarrow> guessPattern (toUpperCase g)"
  by (auto simp: wordKeys_def guessPattern_def toUpperCase_letters char_class_defs)

lemma type_letter:
  assumes "\<not> el_hidden (doc p EGame)" "\<not> gameOver p" "currentCol p < 5" "isLowerAZ c \<or> isUpperAZ c"
  shows "page_step (KeyDown [c] False) p =
    (putCell (currentRow p) (currentCol p) (toUpperCase [c]) (u ''typing'') p)\<lparr>currentCol := Suc (currentCol p)\<rparr>"
proof -
  have c: "length (toUpperCase [c]) = 1" "isUpperAZ (hd (toUpperCase [c]))"
    using assms(4) by (auto simp: toUpperCase_letters char_class_defs)
  then have "toUpperCase [c] \<noteq> u ''ENT''" "toUpperCase [c] \<noteq> u ''BACK''" by (auto simp: u_simps)
  then have "pressKey (toUpperCase [c]) p = (Inr (), (putCell (currentRow p) (currentCol p) (toUpperCase [c]) (u ''typing'') p)
      \<lparr>currentCol := Suc (currentCol p)\<rparr>)"
    using assms c by (simp add: pressKey_def bindA_def updA_def skip_def setCell_eq)
  then show ?thesis using assms by (simp add: perform_def onKeydown_def u_simps)
qed

lemma type_letters:
  assumes "\<not> el_hidden (doc p EGame)" "\<not> gameOver p" "currentCol p + length g \<le> 5" "currentRow p < 6"
    "\<forall>c \<in> set g. isLowerAZ c \<or> isUpperAZ c"
  shows "\<exists>d. runPage (map (\<lambda>c. KeyDown [c] False) g) p = p\<lparr>doc := d, currentCol := currentCol p + length g\<rparr> \<and>
    \<not> el_hidden (d EGame) \<and>
    (\<forall>i < currentCol p. textContent (d (ECell (currentRow p) i)) = textContent (doc p (ECell (currentRow p) i))) \<and>
    (\<forall>i < length g. textContent (d (ECell (currentRow p) (currentCol p + i))) = toUpperCase [g ! i])"
  using assms
proof (induction g arbitrary: p)
  case Nil
  then show ?case by (intro exI [of _ "doc p"]) simp
next
  case (Cons c g)
  let ?q = "(putCell (currentRow p) (currentCol p) (toUpperCase [c]) (u ''typing'') p)\<lparr>currentCol := Suc (currentCol p)\<rparr>"
  have step: "page_step (KeyDown [c] False) p = ?q" using Cons.prems by (intro type_letter) simp_all
  have cell: "hasCell (currentRow p) (currentCol p)" using Cons.prems by (simp add: hasCell_def)
  have q: "\<not> el_hidden (doc ?q EGame)" "\<not> gameOver ?q" "currentCol ?q + length g \<le> 5" "currentRow ?q < 6"
    using Cons.prems cell by (simp_all add: putCell_def)
  obtain d where d: "runPage (map (\<lambda>c. KeyDown [c] False) g) ?q = ?q\<lparr>doc := d, currentCol := currentCol ?q + length g\<rparr>"
      "\<not> el_hidden (d EGame)"
      "\<forall>i < currentCol ?q. textContent (d (ECell (currentRow ?q) i)) = textContent (doc ?q (ECell (currentRow ?q) i))"
      "\<forall>i < length g. textContent (d (ECell (currentRow ?q) (currentCol ?q + i))) = toUpperCase [g ! i]"
    using Cons.IH [OF q] Cons.prems(5) by auto
  have "?q\<lparr>doc := d, currentCol := currentCol ?q + length g\<rparr> = p\<lparr>doc := d, currentCol := currentCol p + length (c # g)\<rparr>"
    using cell by (simp add: putCell_def)
  moreover have "textContent (d (ECell (currentRow p) (currentCol p + i))) = toUpperCase [(c # g) ! i]" if "i < length (c # g)" for i
    using that d(3,4) cell by (cases i) (simp_all add: putCell_def)
  moreover have "\<forall>i < currentCol p. textContent (d (ECell (currentRow p) i)) = textContent (doc p (ECell (currentRow p) i))"
    using d(3) cell by (simp add: putCell_def)
  ultimately show ?case using d(1,2) step by auto
qed

lemma row_text:
  assumes "length g = 5" "\<forall>i < length g. textContent (d (ECell r i)) = toUpperCase [g ! i]"
  shows "concat (map (\<lambda>c. textContent (d (ECell r c))) [0..<5]) = toUpperCase g"
proof -
  have "map (\<lambda>c. textContent (d (ECell r c))) [0..<5] = map (\<lambda>c. toUpperCase [g ! c]) [0..<5]"
    using assms by simp
  also have "\<dots> = map (\<lambda>c. toUpperCase [c]) g"
    using assms(1) by (intro nth_equalityI) simp_all
  finally show ?thesis by (simp add: toUpperCase_def comp_def)
qed

lemma word_sent:
  assumes "inGame sid rs False p" "length rs < 6" "wordKeys g"
  shows "\<exists>d. runPage (typeWord g) p = p\<lparr>doc := d, currentCol := 5, calls := calls p @ [GuessCall (Some (JStr sid)) (toUpperCase g)]\<rparr> \<and>
    \<not> el_hidden (d EGame)"
proof -
  have g: "length g = 5" "\<forall>c \<in> set g. isLowerAZ c \<or> isUpperAZ c" using assms(3) by (simp_all add: wordKeys_def)
  have p: "\<not> el_hidden (doc p EGame)" "\<not> gameOver p" "currentCol p = 0" "currentRow p < 6" "sessionVar p = Some (JStr sid)"
    using assms(1,2) by (simp_all add: inGame_def)
  obtain d where d: "runPage (map (\<lambda>c. KeyDown [c] False) g) p = p\<lparr>doc := d, currentCol := 5\<rparr>" "\<not> el_hidden (d EGame)"
      "\<forall>i < length g. textContent (d (ECell (currentRow p) i)) = toUpperCase [g ! i]"
    using type_letters [OF p(1,2) _ p(4) g(2)] g(1) p(3) by auto
  have "submitRow (p\<lparr>doc := d, currentCol := 5\<rparr>) =
      (Inr (), p\<lparr>doc := d, currentCol := 5, calls := calls p @ [GuessCall (Some (JStr sid)) (toUpperCase g)]\<rparr>)"
    using row_text [of g d "currentRow p"] g(1) d(3) p(4,5)
    by (simp add: submitRow_def getCurrentGuess_def bindA_def await_def updA_def)
  then show ?thesis
    using d p(2) by (intro exI [of _ d]) (simp add: typeWord_def runPage_append perform_def onKeydown_def pressKey_def)
qed

lemma over_ignored: "inGame sid rs True p \<Longrightarrow> runPage (typeWord g) p = p"
proof -
  assume p: "inGame sid rs True p"
  have "pressKey t p = (Inr (), p)" for t using p by (simp add: inGame_def pressKey_def skip_def)
  then have step: "page_step (KeyDown k False) p = p" for k by (simp add: perform_def onKeydown_def skip_def)
  have "runPage (map (\<lambda>c. KeyDown [c] False) g) p = p" by (induction g) (simp_all add: step del: page_step.simps)
  then show ?thesis by (simp add: typeWord_def runPage_append step del: page_step.simps)
qed

subsection \<open>The marks arrive\<close>

text \<open>Actions that end well and change nothing but timers and the colours of keys.\<close>

definition harmless :: "unit act \<Rightarrow> bool" where
  "harmless a \<longleftrightarrow> (\<forall>p. kbMarks p \<longrightarrow> (\<exists>ts kb. a p = (Inr (), p\<lparr>timers := ts, kbState := kb\<rparr>) \<and> kbMarks (p\<lparr>timers := ts, kbState := kb\<rparr>)))"

lemma kbMarks_timers [simp]: "kbMarks (p\<lparr>timers := ts\<rparr>) = kbMarks p"
  by (simp add: kbMarks_def)

lemma harmless_setTimer: "harmless (setTimer t)"
  unfolding harmless_def
proof (intro allI impI)
  fix p assume "kbMarks p"
  then show "\<exists>ts kb. setTimer t p = (Inr (), p\<lparr>timers := ts, kbState := kb\<rparr>) \<and> kbMarks (p\<lparr>timers := ts, kbState := kb\<rparr>)"
    by (intro exI [of _ "timers p @ [t]"] exI [of _ "kbState p"]) (simp add: setTimer_def updA_def)
qed

lemma harmless_steps:
  assumes "\<forall>a \<in> set as. harmless a" "kbMarks p"
  obtains ts kb where "kbMarks (p\<lparr>timers := ts, kbState := kb\<rparr>)"
    "\<And>bs. steps (as @ bs) p = steps bs (p\<lparr>timers := ts, kbState := kb\<rparr>)"
  using assms
proof (induction as arbitrary: p thesis)
  case Nil
  then show ?case using Nil(1) [where ts = "timers p" and kb = "kbState p"] by simp
next
  case (Cons a as)
  obtain ts kb where a: "a p = (Inr (), p\<lparr>timers := ts, kbState := kb\<rparr>)" "kbMarks (p\<lparr>timers := ts, kbState := kb\<rparr>)"
    using Cons.prems by (auto simp: harmless_def)
  obtain ts' kb' where "kbMarks (p\<lparr>timers := ts, kbState := kb\<rparr>\<lparr>timers := ts', kbState := kb'\<rparr>)"
      "\<And>bs. steps (as @ bs) (p\<lparr>timers := ts, kbState := kb\<rparr>) = steps bs (p\<lparr>timers := ts, kbState := kb\<rparr>\<lparr>timers := ts', kbState := kb'\<rparr>)"
    using Cons.IH [of "p\<lparr>timers := ts, kbState := kb\<rparr>"] Cons.prems(2) a(2) by auto
  then show ?case using Cons.prems(1) [where ts = ts' and kb = kb'] a(1) by (simp add: bindA_def)
qed

lemma harmless_flip: "harmless (flipRow r marks letters)"
  unfolding harmless_def
proof (intro allI impI)
  fix p assume p: "kbMarks p"
  let ?as = "map (\<lambda>c. setTimer (FlipStart r c marks letters)) [0..<5]"
  have "\<forall>a \<in> set ?as. harmless a" by (simp add: harmless_setTimer)
  then obtain ts kb where "kbMarks (p\<lparr>timers := ts, kbState := kb\<rparr>)" "\<And>bs. steps (?as @ bs) p = steps bs (p\<lparr>timers := ts, kbState := kb\<rparr>)"
    using harmless_steps [OF _ p] by blast
  from this(1) this(2) [of "[]"] show "\<exists>ts kb. flipRow r marks letters p = (Inr (), p\<lparr>timers := ts, kbState := kb\<rparr>) \<and>
      kbMarks (p\<lparr>timers := ts, kbState := kb\<rparr>)"
    unfolding flipRow_def append_Nil2 steps.simps(1) by (metis skip_def)
qed

lemma orderOf_mark: "\<exists>n. orderOf (Some (markJson m)) = Inr (Some n)"
  by (cases m) (simp_all add: orderOf_def markJson_def strOf_def u_simps)

lemma truthy_mark: "truthy (Some (markJson m))"
  by (cases m) (simp_all add: markJson_def u_simps)

lemma harmless_updateKey:
  assumes "c < length ms"
  shows "harmless (updateKey (Some (JArr (map markJson ms))) letters c)"
  unfolding harmless_def
proof (intro allI impI)
  fix p assume p: "kbMarks p"
  let ?L = "letterAt letters c" and ?m = "markJson (ms ! c)"
  have mark: "indexProp (Some (JArr (map markJson ms))) c = Inr (Some ?m)" using assms by (simp add: indexProp_def)
  obtain n where n: "orderOf (Some ?m) = Inr (Some n)" using orderOf_mark by blast
  obtain b where b: "upgrades (Some (JArr (map markJson ms))) c (kbState p ?L) = Inr b"
  proof (cases "kbState p ?L")
    case (Some v)
    then obtain k where "v = markJson k" using p by (metis kbMarks_def option.distinct(1) option.inject)
    moreover obtain l where "orderOf (Some (markJson k)) = Inr (Some l)" using orderOf_mark by blast
    ultimately show thesis using that mark n Some by (simp add: upgrades_def truthy_mark)
  qed (use that in \<open>simp add: upgrades_def\<close>)
  show "\<exists>ts kb. updateKey (Some (JArr (map markJson ms))) letters c p = (Inr (), p\<lparr>timers := ts, kbState := kb\<rparr>) \<and>
      kbMarks (p\<lparr>timers := ts, kbState := kb\<rparr>)"
  proof (cases b)
    case True
    have "kbMarks (p\<lparr>kbState := (kbState p)(?L \<mapsto> ?m)\<rparr>)" using p by (auto simp: kbMarks_def)
    then show ?thesis
      using b True mark
      by (intro exI [of _ "timers p"] exI [of _ "(kbState p)(?L \<mapsto> ?m)"]) (simp add: updateKey_def Let_def act_eval)
  next
    case False
    then show ?thesis
      using b p by (intro exI [of _ "timers p"] exI [of _ "kbState p"]) (simp add: updateKey_def Let_def act_eval)
  qed
qed

lemma getProp_guessBody:
  "getProp (guessBody ms rec tok) (u ''marks'') = Inr (Some (JArr (map markJson ms)))"
  "getProp (guessBody ms rec tok) (u ''won'') = Inr (Some (JBool (won rec)))"
  "getProp (guessBody ms rec tok) (u ''lost'') = Inr (Some (JBool (lost rec)))"
  "lost rec \<Longrightarrow> \<not> won rec \<Longrightarrow> getProp (guessBody ms rec tok) (u ''answer'') = Inr (Some (JStr (word rec)))"
  by (simp_all add: guessBody_def u_simps)

lemma marks_shown:
  assumes "sessionVar q = Some (JStr sid)" "currentRow q = length rs" "guessList q = map shownRow rs" "\<not> gameOver q"
    "\<not> el_hidden (doc q EGame)" "kbMarks q" "length ms = 5"
  shows "inGame sid (rs @ [(g, ms)]) (won rec \<or> lost rec) (perform (onGuess g 200 (guessBody ms rec tok)) q)"
proof -
  let ?marks = "Some (JArr (map markJson ms))" and ?b = "guessBody ms rec tok"
  let ?as = "[flipRow (currentRow q) ?marks g] @ map (updateKey ?marks g) [0..<5] @ [setTimer PaintKeyboard]"
  have "\<forall>a \<in> set ?as. harmless a"
    using assms(7) by (auto simp: harmless_flip harmless_setTimer intro!: harmless_updateKey)
  then obtain ts kb where k: "kbMarks (q\<lparr>timers := ts, kbState := kb\<rparr>)"
      "\<And>bs. steps (?as @ bs) q = steps bs (q\<lparr>timers := ts, kbState := kb\<rparr>)"
    using harmless_steps [OF _ assms(6)] by blast
  have kb: "\<forall>k. kb k = None \<or> (\<exists>m. kb k = Some (markJson m))" using k(1) by (simp add: kbMarks_def)
  let ?q = "q\<lparr>timers := ts, kbState := kb, guessList := guessList q @ [(g, ?marks)], currentRow := currentRow q + 1, currentCol := 0\<rparr>"
  let ?over = "bindA (liftA (getProp ?b (u ''won''))) (\<lambda>w. bindA (liftA (getProp ?b (u ''lost''))) (\<lambda>l.
          if truthy w then steps [updA (\<lambda>p. p\<lparr>gameOver := True\<rparr>), setTimer (ShowWin ?b)]
          else if truthy l
          then bindA (liftA (getProp ?b (u ''answer''))) (\<lambda>a.
                 steps [updA (\<lambda>p. p\<lparr>gameOver := True\<rparr>), setTimer (ShowLoss a)])
          else skip))"
  have "guessAccepted g ?b q = steps (?as @ [updA (\<lambda>p. p\<lparr>guessList := guessList p @ [(g, ?marks)],
      currentRow := currentRow p + 1, currentCol := 0\<rparr>), ?over]) q"
    by (simp add: guessAccepted_def getProp_guessBody(1) act_eval)
  then have "perform (onGuess g 200 ?b) q = snd (steps [?over] ?q)"
    by (simp only: k(2)) (simp add: onGuess_def perform_def act_eval)
  also have "inGame sid (rs @ [(g, ms)]) (won rec \<or> lost rec) \<dots>"
    using assms kb
    by (cases "won rec"; cases "lost rec")
      (simp_all add: getProp_guessBody act_eval setTimer_def inGame_def shownRow_def kbMarks_def)
  finally show ?thesis .
qed

section \<open>Rounds\<close>

text \<open>
  Between two guesses the timers of the display may fire in any order: toasts, flips, shakes, the
  colours of the keyboard and the intervals.
\<close>

definition idle :: "timer \<Rightarrow> bool" where
  "idle t =
     (case t of
        HideToast \<Rightarrow> True | FlipStart r c marks letters \<Rightarrow> True | FlipDone r c marks letters \<Rightarrow> True
      | Unshake r c \<Rightarrow> True | PaintKeyboard \<Rightarrow> True | FaucetInterval \<Rightarrow> True | TurnstileInterval \<Rightarrow> True
      | _ \<Rightarrow> False)"

primrec settle :: "nat list \<Rightarrow> page \<Rightarrow> page" where
  "settle [] p = p"
| "settle (i # is) p = settle is (if i < length (timers p) \<and> idle (timers p ! i) then page_step (Fire i) p else p)"

definition playRound ::
  "'s outside \<Rightarrow> wm_env \<Rightarrow> (ustring \<times> ustring) list \<Rightarrow> nat list \<times> ustring \<Rightarrow> page \<times> 's world \<Rightarrow> page \<times> 's world" where
  "playRound out env hs r pw =
     (let p1 = settle (fst r) (fst pw); p2 = runPage (typeWord (snd r)) p1
      in if length (calls p1) < length (calls p2) then serveCall out env hs (length (calls p1)) (p2, snd pw)
         else (p2, snd pw))"

primrec playRounds ::
  "'s outside \<Rightarrow> wm_env \<Rightarrow> (ustring \<times> ustring) list \<Rightarrow> (nat list \<times> ustring) list \<Rightarrow> page \<times> 's world \<Rightarrow> page \<times> 's world" where
  "playRounds out env hs [] pw = pw"
| "playRounds out env hs (r # rs) pw = playRounds out env hs rs (playRound out env hs r pw)"

lemma inGame_elem:
  "(\<And>x. el_hidden (f x) = el_hidden x) \<Longrightarrow> keepsA (inGame sid rs over) (onElem e f)"
  by (auto simp: onElem_def keepsA_updA inGame_def kbMarks_def)

lemma inGame_upd:
  "keepsA (inGame sid rs over) (setTimer t)" "keepsA (inGame sid rs over) (clearTimer t)" "keepsA (inGame sid rs over) (await c)"
  by (simp_all add: setTimer_def clearTimer_def await_def keepsA_updA inGame_def kbMarks_def)

lemma inGame_attributes:
  "keepsA (inGame sid rs over) (setText e s)" "keepsA (inGame sid rs over) (setClass e cs)"
  "keepsA (inGame sid rs over) (addClass e k)" "keepsA (inGame sid rs over) (removeClass e k)"
  by (simp_all add: setText_def setContent_def setClass_def addClass_def removeClass_def inGame_elem)

lemma inGame_paint: "keepsA (inGame sid rs over) paintKeyboard"
proof -
  have "keepsA (inGame sid rs over) (\<lambda>p. if \<not> truthy (kbState p t) then skip p
      else bindA (liftA (strOf (kbState p t))) (\<lambda>s. if classTokens [] s = [s] then addClass (EKey t) s
             else throwA (Error (u ''InvalidCharacterError''))) p)" for t
    by (rule keepsA_I) (simp add: keepsA_D keeps inGame_attributes)
  then have "keepsA (inGame sid rs over) (paintKey t)" for t by (simp add: paintKey_def keeps inGame_attributes)
  then show ?thesis by (auto simp: paintKeyboard_def intro!: keeps)
qed

lemma inGame_turnstile: "keepsA (inGame sid rs over) turnstileWaiter"
  by (rule keepsA_I) (simp add: turnstileWaiter_def keepsA_D keeps inGame_upd)

lemma inGame_timer: "idle t \<Longrightarrow> keepsA (inGame sid rs over) (onTimer t)"
  by (cases t)
    (simp_all add: idle_def onTimer_def onFlipStart_def onFlipDone_def refreshFaucet_def keeps inGame_attributes inGame_upd
      inGame_paint inGame_turnstile)

lemma inGame_settle: "inGame sid rs over p \<Longrightarrow> inGame sid rs over (settle is p)"
proof (induction "is" arbitrary: p)
  case (Cons i "is")
  have "inGame sid rs over (page_step (Fire i) p)" if i: "i < length (timers p)" "idle (timers p ! i)"
  proof -
    have "timers p ! i \<noteq> Reload" using i(2) by (auto simp: idle_def)
    moreover have "inGame sid rs over (p\<lparr>timers := ts\<rparr>)" for ts
      using Cons.prems by (simp add: inGame_def)
    ultimately show ?thesis
      using i Cons.prems inGame_timer [OF i(2)] by (simp add: fire_def Let_def keepsA_perform)
  qed
  then show ?case using Cons by simp
qed simp

subsection \<open>The worker keeps the same game\<close>

definition heldSession :: "'s outside \<Rightarrow> nat \<Rightarrow> ustring \<Rightarrow> session \<Rightarrow> 's world \<Rightarrow> bool" where
  "heldSession out T sid rec w \<longleftrightarrow>
     (\<forall>n \<ge> tick w. clock out n < T \<longrightarrow> kvget out (store w) (clock out n) (u ''session:'' @ sid) = Some (VSession rec))"

definition sameGame :: "ustring \<Rightarrow> rows \<Rightarrow> session \<Rightarrow> bool" where
  "sameGame wd rs rec \<longleftrightarrow>
     word rec = wd \<and> guess_count rec = length rs \<and> (won rec \<longleftrightarrow> rs \<noteq> [] \<and> fst (last rs) = wd) \<and>
     (lost rec \<longleftrightarrow> \<not> won rec \<and> 6 \<le> length rs)"

text \<open>Page and worker in the same game, which began at step \<open>n0\<close>.\<close>

definition playing ::
  "'s outside \<Rightarrow> nat \<Rightarrow> ustring \<Rightarrow> ustring \<Rightarrow> rows \<Rightarrow> page \<times> 's world \<Rightarrow> bool" where
  "playing out n0 sid wd rs pw \<longleftrightarrow>
     inGame sid rs (gameEnded wd rs) (fst pw) \<and>
     store_ok out anySession (store (snd pw)) (clock out (tick (snd pw))) \<and>
     (\<exists>rec. heldSession out (clock out n0 + 300000) sid rec (snd pw) \<and> sameGame wd rs rec) \<and>
     n0 \<le> tick (snd pw) \<and> tick (snd pw) \<le> n0 + 4 * length rs"

lemma sameGame_ended: "sameGame wd rs rec \<Longrightarrow> gameEnded wd rs \<longleftrightarrow> won rec \<or> lost rec"
  by (auto simp: sameGame_def gameEnded_def)

lemma sameGame_graded:
  assumes "sameGame wd rs rec" "\<not> gameEnded wd rs" "length g = 5" "length wd = 5"
    "rec2 = (gradedSession rec g)\<lparr>reward := x\<rparr>"
  shows "sameGame wd (gameRow wd g rs) rec2"
  using assms grade_all_green [of g wd] by (auto simp: sameGame_def gameRow_def gradedSession_def Let_def)

lemma heldSession_put:
  assumes "kv_laws out" "supply_laws out" "n0 \<le> n"
  shows "heldSession out (clock out n0 + 300000) sid rec
    (w\<lparr>store := kvput out s (clock out n) (u ''session:'' @ sid) (VSession rec) (sessionTtl rec), tick := Suc n\<rparr>)"
  unfolding heldSession_def
proof (intro allI impI)
  fix m assume m: "tick (w\<lparr>store := kvput out s (clock out n) (u ''session:'' @ sid) (VSession rec) (sessionTtl rec), tick := Suc n\<rparr>) \<le> m"
    and T: "clock out m < clock out n0 + 300000"
  have "clock out n \<le> clock out m" "clock out n0 \<le> clock out n"
    using m assms(3) clock_mono [OF assms(2)] by simp_all
  then show "kvget out (store (w\<lparr>store := kvput out s (clock out n) (u ''session:'' @ sid) (VSession rec) (sessionTtl rec), tick := Suc n\<rparr>))
      (clock out m) (u ''session:'' @ sid) = Some (VSession rec)"
    using T assms(1) by (simp add: kv_laws_def sessionTtl_def)
qed

lemma played_guess:
  assumes "inGame sid rs False p" "length rs < 6" "wordKeys g" "\<forall>c \<in> set sid. c < 65536"
    "run (wm_handle out) (wm_fetch env (guessRequest hs sid (toUpperCase g))) w = (r, w')"
    "replyOf r = ApiReply (Inr (200, guessBody ms rec2 tok))" "length ms = 5"
  shows "\<exists>p'. playRound out env hs ([], g) (p, w) = (p', w') \<and>
    inGame sid (rs @ [(toUpperCase g, ms)]) (won rec2 \<or> lost rec2) p'"
proof -
  let ?g = "toUpperCase g"
  obtain d where d: "runPage (typeWord g) p = p\<lparr>doc := d, currentCol := 5, calls := calls p @ [GuessCall (Some (JStr sid)) ?g]\<rparr>"
      "\<not> el_hidden (d EGame)"
    using word_sent [OF assms(1-3)] by blast
  let ?p = "p\<lparr>doc := d, currentCol := 5, calls := calls p @ [GuessCall (Some (JStr sid)) ?g]\<rparr>"
  let ?q = "?p\<lparr>calls := without (length (calls p)) (calls ?p)\<rparr>"
  have "requestOf hs (calls ?p ! length (calls p)) = Some (guessRequest hs sid ?g)"
    using requestOf_guess [OF guessPattern_toUpperCase [OF assms(3)] assms(4)] by simp
  then have "playRound out env hs ([], g) (p, w) = (answer (length (calls p)) (replyOf r) ?p, w')"
    using assms(5) by (simp add: playRound_def d(1) serveCall_def)
  moreover have "answer (length (calls p)) (replyOf r) ?p = perform (onGuess ?g 200 (guessBody ms rec2 tok)) ?q"
    using assms(6) by (simp add: answer_def)
  moreover have "inGame sid (rs @ [(?g, ms)]) (won rec2 \<or> lost rec2) (perform (onGuess ?g 200 (guessBody ms rec2 tok)) ?q)"
    using assms(1,7) d(2) by (intro marks_shown) (simp_all add: inGame_def kbMarks_def)
  ultimately show ?thesis by simp
qed

lemma playing_open:
  assumes "playing out n0 sid wd rs (p, w)" "\<not> gameEnded wd rs" "supply_laws out" "clock out (n0 + 24) < clock out n0 + 300000"
  obtains rec where "length rs < 6" "sameGame wd rs rec" "\<not> won rec" "\<not> lost rec" "session_ok rec"
    "kvget out (store w) (clock out (tick w)) (u ''session:'' @ sid) = Some (VSession rec)"
proof -
  obtain rec where rec: "heldSession out (clock out n0 + 300000) sid rec w" "sameGame wd rs rec"
    using assms(1) by (auto simp: playing_def)
  have len: "length rs < 6" using assms(2) by (auto simp: gameEnded_def)
  have "tick w \<le> n0 + 24" using assms(1) len by (simp add: playing_def)
  then have "clock out (tick w) < clock out n0 + 300000" using clock_mono [OF assms(3)] assms(4) by (meson le_less_trans)
  then have get: "kvget out (store w) (clock out (tick w)) (u ''session:'' @ sid) = Some (VSession rec)"
    using rec(1) by (simp add: heldSession_def)
  have "session_ok rec" using store_ok_session [OF _ get] assms(1) by (auto simp: playing_def)
  then show thesis using that [OF len rec(2) _ _ _ get] assms(2) sameGame_ended [OF rec(2)] by simp
qed

lemma playing_guess:
  assumes "faultless out" "kv_laws out" "supply_laws out" "clock out (n0 + 24) < clock out n0 + 300000"
    "sid \<noteq> []" "\<forall>c \<in> set sid. c < 65536" "wordKeys g" "playing out n0 sid wd rs (p, w)" "\<not> gameEnded wd rs"
  shows "playing out n0 sid wd (gameRow wd (toUpperCase g) rs) (playRound out env hs ([], g) (p, w))"
proof -
  let ?g = "toUpperCase g"
  obtain rec where rec: "length rs < 6" "sameGame wd rs rec" "\<not> won rec" "\<not> lost rec" "session_ok rec"
      "kvget out (store w) (clock out (tick w)) (u ''session:'' @ sid) = Some (VSession rec)"
    using playing_open [OF assms(8,9,3,4)] by blast
  have p: "inGame sid rs False p" "n0 \<le> tick w" "tick w \<le> n0 + 4 * length rs"
    and st: "store_ok out anySession (store w) (clock out (tick w))"
    using assms(8,9) by (simp_all add: playing_def)
  have g: "guessPattern ?g" by (rule guessPattern_toUpperCase [OF assms(7)])
  have wd: "word rec = wd" "wd \<in> set WORDS" "length wd = 5" "length ?g = 5"
    using rec(2,5) g WORDS_shape by (auto simp: sameGame_def session_ok_def guessPattern_def)
  have later: "store_ok out anySession (store w) (clock out (Suc (tick w)))"
    by (rule store_ok_later [OF st clock_mono [OF assms(3)]]) simp
  obtain rec2 n where r: "run (wm_handle out) (wm_fetch env (guessRequest hs sid ?g)) w =
      (Inr (withSecurityHeaders (jsonResponse (guessBody (grade ?g wd) rec2 (JStr sid)) 200)),
       w\<lparr>store := kvput out (store w) (clock out n) (u ''session:'' @ sid) (VSession rec2) (sessionTtl rec2), tick := Suc n\<rparr>)"
    and n: "tick w \<le> n" "n \<le> tick w + 3" and rec2: "rec2 = (gradedSession rec ?g)\<lparr>reward := reward rec2\<rparr>"
      "won rec2 \<longrightarrow> isDouble (reward rec2)"
    using guess_graded [OF assms(1) later g assms(5) rec(3,4,6)] wd(1) by metis
  have same: "sameGame wd (gameRow wd ?g rs) rec2"
    by (rule sameGame_graded [OF rec(2) assms(9) wd(4,3) rec2(1)])
  then have count: "guess_count rec2 \<le> 6" "word rec2 \<in> set WORDS"
    using rec(1) wd(2) assms(9) by (simp_all add: sameGame_def gameRow_def)
  obtain p' where p': "playRound out env hs ([], g) (p, w) = (p',
       w\<lparr>store := kvput out (store w) (clock out n) (u ''session:'' @ sid) (VSession rec2) (sessionTtl rec2), tick := Suc n\<rparr>)"
      "inGame sid (rs @ [(?g, grade ?g wd)]) (won rec2 \<or> lost rec2) p'"
    using played_guess [OF p(1) rec(1) assms(7,6) r guessBody_arrives [OF rec2(2) count(1) assms(6) count(2)]] by auto
  have "wm_inv out anySession (\<lambda>i. True) (\<lambda>t. True) w" using assms(2,3) st by (simp add: wm_inv_def)
  from wm.run_keeps [OF anyp.guards_wm_fetch this r]
  have "store_ok out anySession (kvput out (store w) (clock out n) (u ''session:'' @ sid) (VSession rec2) (sessionTtl rec2)) (clock out (Suc n))"
    by (simp add: wm_inv_def)
  moreover have "inGame sid (gameRow wd ?g rs) (gameEnded wd (gameRow wd ?g rs)) p'"
    using p'(2) sameGame_ended [OF same] assms(9) by (simp add: gameRow_def grade_spec)
  moreover have "length (gameRow wd ?g rs) = Suc (length rs)" using assms(9) by (simp add: gameRow_def)
  ultimately show ?thesis
    using same heldSession_put [OF assms(2,3), where w = w and s = "store w" and n = n and ?n0.0 = n0 and sid = sid and rec = rec2] p n unfolding p'(1) playing_def by auto
qed

lemma playing_round:
  assumes "faultless out" "kv_laws out" "supply_laws out" "clock out (n0 + 24) < clock out n0 + 300000"
    "sid \<noteq> []" "\<forall>c \<in> set sid. c < 65536" "wordKeys (snd r)" "playing out n0 sid wd rs pw"
  shows "playing out n0 sid wd (gameRow wd (toUpperCase (snd r)) rs) (playRound out env hs r pw)"
proof -
  let ?p = "settle (fst r) (fst pw)"
  have s: "playing out n0 sid wd rs (?p, snd pw)" using assms(8) inGame_settle by (simp add: playing_def)
  have eq: "playRound out env hs r pw = playRound out env hs ([], snd r) (?p, snd pw)" by (simp add: playRound_def Let_def)
  show ?thesis
  proof (cases "gameEnded wd rs")
    case True
    then have "runPage (typeWord (snd r)) ?p = ?p"
      using s over_ignored [of sid rs ?p] by (simp add: playing_def)
    then have "playRound out env hs ([], snd r) (?p, snd pw) = (?p, snd pw)" by (simp add: playRound_def Let_def)
    then show ?thesis using s True unfolding eq by (simp add: gameRow_def)
  next
    case False
    then show ?thesis unfolding eq using playing_guess [OF assms(1-7) s] by simp
  qed
qed

lemma playing_rounds:
  assumes "faultless out" "kv_laws out" "supply_laws out" "clock out (n0 + 24) < clock out n0 + 300000"
    "sid \<noteq> []" "\<forall>c \<in> set sid. c < 65536" "\<forall>r \<in> set plays. wordKeys (snd r)" "playing out n0 sid wd rs pw"
  shows "playing out n0 sid wd (gameRows wd (map (\<lambda>r. toUpperCase (snd r)) plays) rs) (playRounds out env hs plays pw)"
  using assms(7,8)
proof (induction plays arbitrary: rs pw)
  case (Cons r plays)
  then show ?case using playing_round [OF assms(1-6)] by simp
qed simp

end
