(* ===== verification/Game_Start.thy ===== *)
theory Game_Start
  imports Game_Round
begin

text \<open>
  From loading the page to the first row: the captcha is solved, PLAY is pressed, the worker opens
  a session, and page and worker are in the same game.
\<close>

declare u_simps [simp del]

section \<open>A start at the worker\<close>

text \<open>The captcha service accepts the token, or the secret is the one of the tests.\<close>

definition captchaPasses :: "'s outside \<Rightarrow> wm_env \<Rightarrow> ustring \<Rightarrow> ustring \<Rightarrow> bool" where
  "captchaPasses out env tok ip \<longleftrightarrow>
     (case TURNSTILE_SECRET env of
        None \<Rightarrow> False
      | Some sec \<Rightarrow>
          sec = u ''TEST'' \<or>
          sec \<noteq> [] \<and> tok \<noteq> [] \<and>
          (case siteverify out sec tok ip of
             Inl e \<Rightarrow> False
           | Inr j \<Rightarrow> (case getProp j (u ''success'') of Inl e \<Rightarrow> False | Inr s \<Rightarrow> truthy s)))"

definition startRequest :: "(ustring \<times> ustring) list \<Rightarrow> ustring \<Rightarrow> request" where
  "startRequest hs tok =
     \<lparr>req_method = u ''POST'', pathname = u ''/api/start'', searchParams = [], req_headers = hs,
      req_json = Inr (JObj [(u ''captcha'', JStr tok)])\<rparr>"

lemma requestOf_start:
  assumes "\<forall>c \<in> set tok. c < 65536"
  shows "requestOf hs (StartCall (Some tok)) = Some (startRequest hs tok)"
proof -
  have "jsonKept (JObj [(u ''captcha'', JStr tok)])"
    by (rule jsonKept_object) (simp_all add: u_simps isDecimal_def)
  then have "readJson (sendJson (JObj [(u ''captcha'', JStr tok)])) = Inr (JObj [(u ''captcha'', JStr tok)])"
    using assms by (intro readJson_sendJson) (simp_all add: u_simps)
  then show ?thesis by (simp add: requestOf_def api_def startRequest_def u_simps parseQuery_def)
qed

lemma run_verify:
  assumes "faultless out" "captchaPasses out env tok ip"
  obtains n where "run (wm_handle out) (verifyTurnstile (Some (JStr tok)) (TURNSTILE_SECRET env) ip) w = (Inr True, w\<lparr>tick := n\<rparr>)"
    "tick w \<le> n" "n \<le> Suc (tick w)"
proof (cases "TURNSTILE_SECRET env = Some (u ''TEST'')")
  case True
  then show thesis using that [of "tick w"] by (simp add: verifyTurnstile_def)
next
  case False
  then obtain sec j s where s: "TURNSTILE_SECRET env = Some sec" "sec \<noteq> []" "tok \<noteq> []" "siteverify out sec tok ip = Inr j"
      "getProp j (u ''success'') = Inr s" "truthy s"
    using assms(2) by (auto simp: captchaPasses_def split: option.splits sum.splits)
  then show thesis
    using that [of "Suc (tick w)"] assms(1) False
    by (simp add: verifyTurnstile_def siteVerify_def run_simps wm_remote_def faultless_def)
qed

lemma ascii_sessionId: "ascii (sessionId b)"
proof -
  have "ascii (hexByte y)" for y using ascii_digits [of 16 "unat y"] by (auto simp: hexByte_def padStart_def)
  then show ?thesis by (auto simp: sessionId_def u_simps hexOfBytes_def)
qed

text \<open>The session that is opened, as the store holds it afterwards.\<close>

definition openedAt :: "'s outside \<Rightarrow> nat \<Rightarrow> ustring \<Rightarrow> session \<Rightarrow> 's world \<Rightarrow> bool" where
  "openedAt out n sid s w \<longleftrightarrow>
     (\<forall>t. clock out n \<le> t \<and> t < clock out n + 1800000 \<longrightarrow> kvget out (store w) t (u ''session:'' @ sid) = Some (VSession s))"

lemma run_opening:
  assumes "faultless out" "kv_laws out" "supply_laws out"
  obtains wd t w' where "run (wm_handle out) (startSession env (u ''ratelimit:'' @ ip)) w =
      (Inr (jsonResponse (JObj [(u ''session'', JStr (sessionId (entropy out (Suc (tick w)) 16)))]) 200), w')"
    "wd \<in> set WORDS" "openedAt out (tick w + 3) (sessionId (entropy out (Suc (tick w)) 16)) (newSession wd t) w'"
    "tick w + 3 \<le> tick w'" "tick w' \<le> tick w + 6"
proof -
  let ?sid = "sessionId (entropy out (Suc (tick w)) 16)"
  let ?wd = "pickWord (random out (tick w))"
  let ?s = "newSession ?wd (clock out (tick w + 2))"
  let ?st = "kvput out (store w) (clock out (tick w + 3)) (u ''session:'' @ ?sid) (VSession ?s) 1800"
  have wd: "?wd \<in> set WORDS" using assms(3) by (intro pickWord_mem) (simp_all add: supply_laws_def)
  have differ: "u ''session:'' @ ?sid \<noteq> u ''ratelimit:'' @ ip" by (simp add: u_simps)
  show thesis
  proof (cases "rateLimitOff env")
    case True
    have "openedAt out (tick w + 3) ?sid ?s (w\<lparr>store := ?st, tick := tick w + 4\<rparr>)"
      using kv_get_put [OF assms(2)] by (simp add: openedAt_def)
    then show thesis
      using True assms(1) wd
      by (intro that [of "w\<lparr>store := ?st, tick := tick w + 4\<rparr>" ?wd "clock out (tick w + 2)"])
        (simp_all add: startSession_def newId_def sessionId_def run_simps Let_def faultless_def tick_sums)
  next
    case False
    let ?w = "w\<lparr>store := kvput out ?st (clock out (tick w + 5)) (u ''ratelimit:'' @ ip)
        (VText (natToString (clock out (tick w + 4)))) 3600, tick := tick w + 6\<rparr>"
    have "openedAt out (tick w + 3) ?sid ?s ?w"
      using kv_get_put [OF assms(2)] differ by (simp add: openedAt_def)
    then show thesis
      using False assms(1) wd
      by (intro that [of ?w ?wd "clock out (tick w + 2)"])
        (simp_all add: startSession_def newId_def sessionId_def run_simps Let_def faultless_def tick_sums)
  qed
qed

lemma run_start:
  assumes "faultless out" "kv_laws out" "supply_laws out" "captchaPasses out env tok (clientIp (startRequest hs tok))"
    "rateLimitOff env \<or> kvget out (store w) (clock out (tick w)) (u ''ratelimit:'' @ clientIp (startRequest hs tok)) = None"
  obtains sid wd t n w' where "run (wm_handle out) (wm_fetch env (startRequest hs tok)) w =
      (Inr (withSecurityHeaders (jsonResponse (JObj [(u ''session'', JStr sid)]) 200)), w')"
    "wd \<in> set WORDS" "sid \<noteq> []" "ascii sid" "openedAt out n sid (newSession wd t) w'"
    "tick w \<le> n" "n \<le> tick w'" "tick w' \<le> tick w + 8"
proof -
  let ?req = "startRequest hs tok"
  let ?ip = "clientIp ?req"
  have f: "fault out n = None" for n using assms(1) by (simp add: faultless_def)
  obtain n1 where n1: "run (wm_handle out) (if rateLimitOff env then Ret None else kvGetText (u ''ratelimit:'' @ ?ip)) w
      = (Inr None, w\<lparr>tick := n1\<rparr>)" "tick w \<le> n1" "n1 \<le> Suc (tick w)"
  proof (cases "rateLimitOff env")
    case True
    then show thesis using that [of "tick w"] by simp
  next
    case False
    then show thesis using that [of "Suc (tick w)"] assms(5) f by (simp add: kvGetText_def run_simps)
  qed
  obtain n2 where n2: "run (wm_handle out) (verifyTurnstile (Some (JStr tok)) (TURNSTILE_SECRET env) ?ip) (w\<lparr>tick := n1\<rparr>)
      = (Inr True, w\<lparr>tick := n1\<rparr>\<lparr>tick := n2\<rparr>)" "n1 \<le> n2" "n2 \<le> Suc n1"
    using run_verify [OF assms(1,4), of "w\<lparr>tick := n1\<rparr>"] by auto
  let ?sid = "sessionId (entropy out (Suc n2) 16)"
  obtain wd t w' where w': "run (wm_handle out) (startSession env (u ''ratelimit:'' @ ?ip)) (w\<lparr>tick := n2\<rparr>) =
      (Inr (jsonResponse (JObj [(u ''session'', JStr ?sid)]) 200), w')" "wd \<in> set WORDS"
      "openedAt out (n2 + 3) ?sid (newSession wd t) w'" "n2 + 3 \<le> tick w'" "tick w' \<le> n2 + 6"
    by (rule run_opening [OF assms(1-3), of env ?ip "w\<lparr>tick := n2\<rparr>"]) (rule that, simp_all)
  have "run (wm_handle out) (wm_fetch env ?req) w =
      (Inr (withSecurityHeaders (jsonResponse (JObj [(u ''session'', JStr ?sid)]) 200)), w')"
  proof -
    have route: "route env ?req = handleStart env ?req" by (simp add: route_def startRequest_def)
    have "getProp (bodyOf ?req) (u ''captcha'') = Inr (Some (JStr tok))" by (simp add: bodyOf_def startRequest_def)
    then have "run (wm_handle out) (handleStart env ?req) w =
        (Inr (jsonResponse (JObj [(u ''session'', JStr ?sid)]) 200), w')"
      using n1(1) n2(1) w'(1) unfolding handleStart_def Let_def run_bindP
      by (simp add: cooldownLeft_def run_simps)
    then show ?thesis unfolding wm_fetch_def route run_bindP by simp
  qed
  then show thesis
  proof (rule that [OF _ w'(2) _ _ w'(3)])
    show "?sid \<noteq> []" by (simp add: sessionId_def u_simps)
    show "ascii ?sid" by (rule ascii_sessionId)
  qed (use n1 n2 w' in simp_all)
qed

section \<open>Opening the game on the page\<close>

definition startPlaying :: "ustring \<Rightarrow> page_event list" where
  "startPlaying tok = [TurnstileScript, Fire 0, CaptchaSolved tok, Click EPlayBtn]"

text \<open>Actions that end well and change only the document, and do not hide the start panel.\<close>

definition docOnly :: "unit act \<Rightarrow> bool" where
  "docOnly a \<longleftrightarrow> (\<forall>p. \<exists>d. a p = (Inr (), p\<lparr>doc := d\<rparr>) \<and> (\<not> el_hidden (doc p EStart) \<longrightarrow> \<not> el_hidden (d EStart)))"

lemma docOnly_D:
  "docOnly a \<Longrightarrow> \<not> el_hidden (doc p EStart) \<Longrightarrow> \<exists>d. a p = (Inr (), p\<lparr>doc := d\<rparr>) \<and> \<not> el_hidden (d EStart)"
  unfolding docOnly_def by blast

lemma docOnly_skip: "docOnly skip"
proof -
  have "skip p = (Inr (), p\<lparr>doc := doc p\<rparr>)" for p by (simp add: skip_def)
  then show ?thesis unfolding docOnly_def by blast
qed

lemma docOnly_elem: "(\<forall>x. \<not> el_hidden x \<longrightarrow> \<not> el_hidden (f x)) \<or> e \<noteq> EStart \<Longrightarrow> docOnly (onElem e f)"
  unfolding docOnly_def
proof
  fix p assume "(\<forall>x. \<not> el_hidden x \<longrightarrow> \<not> el_hidden (f x)) \<or> e \<noteq> EStart"
  then show "\<exists>d. onElem e f p = (Inr (), p\<lparr>doc := d\<rparr>) \<and> (\<not> el_hidden (doc p EStart) \<longrightarrow> \<not> el_hidden (d EStart))"
    by (intro exI [of _ "(doc p)(e := f (doc p e))"]) (auto simp: onElem_def updA_def)
qed

lemma docOnly_attributes:
  "docOnly (setText e s)" "docOnly (setClass e cs)" "docOnly (setData e k v)" "docOnly (setValue e s)"
  "\<not> b \<or> e \<noteq> EStart \<Longrightarrow> docOnly (setHidden e b)"
  unfolding setText_def setContent_def setClass_def setData_def setValue_def setHidden_def
  by (rule docOnly_elem, auto)+

lemma docOnly_steps: "\<forall>a \<in> set as. docOnly a \<Longrightarrow> docOnly (steps as)"
proof (induction as)
  case (Cons a as)
  show ?case
    unfolding docOnly_def
  proof
    fix p
    obtain d where d: "a p = (Inr (), p\<lparr>doc := d\<rparr>)" "\<not> el_hidden (doc p EStart) \<longrightarrow> \<not> el_hidden (d EStart)"
      using Cons.prems unfolding docOnly_def by (meson list.set_intros(1))
    obtain d' where "steps as (p\<lparr>doc := d\<rparr>) = (Inr (), p\<lparr>doc := d\<rparr>\<lparr>doc := d'\<rparr>)"
        "\<not> el_hidden (doc (p\<lparr>doc := d\<rparr>) EStart) \<longrightarrow> \<not> el_hidden (d' EStart)"
      using Cons unfolding docOnly_def by (meson list.set_intros(2))
    then show "\<exists>d. steps (a # as) p = (Inr (), p\<lparr>doc := d\<rparr>) \<and> (\<not> el_hidden (doc p EStart) \<longrightarrow> \<not> el_hidden (d EStart))"
      using d by (intro exI [of _ d']) (simp add: bindA_def)
  qed
qed (simp add: docOnly_skip)

lemma docOnly_reads: "(\<And>p. \<exists>b. docOnly b \<and> a p = b p) \<Longrightarrow> docOnly a"
  unfolding docOnly_def by metis

lemma docOnly_panels: "docOnly buildKeyboard" "docOnly showStart" "docOnly renderSavedWallet" "docOnly prefillAddress"
proof -
  show "docOnly buildKeyboard" by (simp add: buildKeyboard_def buildKey_def docOnly_steps docOnly_attributes del: steps.simps)
  show "docOnly showStart" by (simp add: showStart_def docOnly_steps docOnly_attributes del: steps.simps)
  show "docOnly renderSavedWallet"
  proof (rule docOnly_reads)
    fix p
    show "\<exists>b. docOnly b \<and> renderSavedWallet p = b p"
      unfolding renderSavedWallet_def
      by (intro exI conjI) (rule docOnly_steps, auto intro!: docOnly_steps docOnly_attributes split: option.splits simp del: steps.simps)
  qed
  show "docOnly prefillAddress"
  proof (rule docOnly_reads)
    fix p
    show "\<exists>b. docOnly b \<and> prefillAddress p = b p"
    proof (cases "storage p ADDRESS_KEY = None \<or> storage p ADDRESS_KEY = Some []")
      case True
      then show ?thesis by (intro exI [of _ skip]) (auto simp: prefillAddress_def docOnly_skip)
    next
      case False
      then obtain a where "storage p ADDRESS_KEY = Some a" "a \<noteq> []" by auto
      then show ?thesis
        by (intro exI [of _ "setValue EClaimAddress a"]) (simp add: prefillAddress_def docOnly_attributes)
    qed
  qed
qed

lemma docOnly_board: "docOnly buildBoard"
  unfolding docOnly_def buildBoard_def updA_def by (intro allI exI conjI, rule refl) simp

lemma initPage_form:
  "\<exists>d. initPage st clip = (freshPage st clip)\<lparr>doc := d, timers := [TurnstileInterval, FaucetInterval], calls := [FaucetCall]\<rparr> \<and>
    \<not> el_hidden (d EStart)"
proof -
  let ?p = "(freshPage st clip)\<lparr>timers := [TurnstileInterval]\<rparr>"
  have "docOnly (steps [buildBoard, buildKeyboard, showStart, renderSavedWallet])"
    by (rule docOnly_steps) (simp add: docOnly_board docOnly_panels)
  moreover have "\<not> el_hidden (doc ?p EStart)" by (simp add: freshPage_def htmlElement_def htmlHidden_def blank_def)
  ultimately obtain d where d: "steps [buildBoard, buildKeyboard, showStart, renderSavedWallet] ?p = (Inr (), ?p\<lparr>doc := d\<rparr>)"
      "\<not> el_hidden (d EStart)"
    using docOnly_D by blast
  let ?q = "?p\<lparr>doc := d, calls := [FaucetCall], timers := [TurnstileInterval, FaucetInterval]\<rparr>"
  obtain d' where d': "prefillAddress ?q = (Inr (), ?q\<lparr>doc := d'\<rparr>)" "\<not> el_hidden (d' EStart)"
    using docOnly_D [OF docOnly_panels(4), of ?q] d(2) by auto
  have "bootstrap (freshPage st clip) = bindA (steps [buildBoard, buildKeyboard, showStart, renderSavedWallet])
      (\<lambda>_. steps [refreshFaucet, setTimer FaucetInterval, prefillAddress]) ?p"
    by (simp add: bootstrap_def setTimer_def bindA_def updA_def skip_def freshPage_def split: prod.splits sum.splits)
  also have "\<dots> = (Inr (), ?q\<lparr>doc := d'\<rparr>)"
    using d'(1) unfolding bindA_def d(1)
    by (simp add: refreshFaucet_def await_def setTimer_def bindA_def updA_def skip_def freshPage_def)
  finally show ?thesis using d'(2) by (intro exI [of _ d']) (simp add: initPage_def perform_def freshPage_def)
qed

lemma opened_page:
  "\<exists>d. runPage (startPlaying tok) (initPage st clip) =
    (freshPage st clip)\<lparr>doc := d, timers := [FaucetInterval], calls := [FaucetCall, StartCall (Some tok)],
      turnstileReady := True, captchaToken := Some tok\<rparr>"
proof -
  obtain d where d: "initPage st clip = (freshPage st clip)\<lparr>doc := d, timers := [TurnstileInterval, FaucetInterval], calls := [FaucetCall]\<rparr>"
      "\<not> el_hidden (d EStart)"
    using initPage_form by blast
  have step: "runPage [TurnstileScript, Fire 0] (initPage st clip) =
      (freshPage st clip)\<lparr>doc := d, timers := [FaucetInterval], calls := [FaucetCall], turnstileReady := True\<rparr>"
    unfolding d(1)
    by (simp add: fire_def isInterval_def onTimer_def turnstileWaiter_def clearTimer_def perform_def updA_def freshPage_def)
  show ?thesis
    unfolding startPlaying_def
    using step d(2)
    by (simp add: rendered_def onCaptcha_def perform_def setDisabled_def setText_def setContent_def onElem_def usable_def
        containers_def onClick_def startGame_def await_def bindA_def updA_def skip_def freshPage_def)
qed

section \<open>Page and worker begin the same game\<close>

lemma session_arrives:
  assumes "ascii sid"
  shows "replyOf (Inr (withSecurityHeaders (jsonResponse (JObj [(u ''session'', JStr sid)]) 200))) =
    ApiReply (Inr (200, JObj [(u ''session'', JStr sid)]))"
proof -
  have "jsonKept (JObj [(u ''session'', JStr sid)])" by (rule jsonKept_object) (simp_all add: u_simps isDecimal_def)
  then have "readJson (sendJson (JObj [(u ''session'', JStr sid)])) = Inr (JObj [(u ''session'', JStr sid)])"
    using assms by (intro readJson_sendJson) (auto simp: u_simps)
  then show ?thesis by (simp add: replyOf_def withSecurityHeaders_def jsonResponse_def bodyBytes_def)
qed

lemma inGame_started:
  assumes "currentRow q = 0" "currentCol q = 0" "guessList q = []" "\<not> gameOver q" "kbMarks q"
  shows "inGame sid [] False (perform (onStart 200 (JObj [(u ''session'', JStr sid)])) q)"
  using assms
  by (simp add: onStart_def showGame_def setHidden_def onElem_def perform_def bindA_def liftA_def updA_def skip_def
      inGame_def kbMarks_def)

text \<open>The page is loaded, the captcha solved, PLAY pressed, and the worker serves the call.\<close>

definition startGameOn ::
  "'s outside \<Rightarrow> wm_env \<Rightarrow> (ustring \<times> ustring) list \<Rightarrow> ustring \<Rightarrow> (ustring \<Rightarrow> ustring option) \<Rightarrow> ustring option \<Rightarrow> 's world \<Rightarrow> page \<times> 's world" where
  "startGameOn out env hs tok st clip w =
     serveCall out env hs 1 (runPage (startPlaying tok) (initPage st clip), w)"

lemma playing_started:
  assumes "faultless out" "kv_laws out" "supply_laws out" "store_ok out anySession (store w) (clock out (tick w))"
    "clock out (tick w + 32) < clock out (tick w) + 300000"
    "captchaPasses out env tok (clientIp (startRequest hs tok))" "\<forall>c \<in> set tok. c < 65536"
    "rateLimitOff env \<or> kvget out (store w) (clock out (tick w)) (u ''ratelimit:'' @ clientIp (startRequest hs tok)) = None"
  obtains n0 sid wd where "playing out n0 sid wd [] (startGameOn out env hs tok st clip w)" "wd \<in> set WORDS"
    "sid \<noteq> []" "\<forall>c \<in> set sid. c < 65536" "clock out (n0 + 24) < clock out n0 + 300000"
proof -
  obtain sid wd t n w' where r: "run (wm_handle out) (wm_fetch env (startRequest hs tok)) w =
      (Inr (withSecurityHeaders (jsonResponse (JObj [(u ''session'', JStr sid)]) 200)), w')"
    and wd: "wd \<in> set WORDS" "sid \<noteq> []" "ascii sid" "openedAt out n sid (newSession wd t) w'"
    and n: "tick w \<le> n" "n \<le> tick w'" "tick w' \<le> tick w + 8"
    by (rule run_start [OF assms(1-3,6,8)])
  obtain d where d: "runPage (startPlaying tok) (initPage st clip) =
      (freshPage st clip)\<lparr>doc := d, timers := [FaucetInterval], calls := [FaucetCall, StartCall (Some tok)],
        turnstileReady := True, captchaToken := Some tok\<rparr>"
    using opened_page by blast
  let ?q = "(freshPage st clip)\<lparr>doc := d, timers := [FaucetInterval], turnstileReady := True,
        captchaToken := Some tok, calls := [FaucetCall]\<rparr>"
  let ?p = "perform (onStart 200 (JObj [(u ''session'', JStr sid)])) ?q"
  have eq: "startGameOn out env hs tok st clip w = (?p, w')"
    using r requestOf_start [OF assms(7)] session_arrives [OF wd(3)]
    by (simp add: startGameOn_def serveCall_def d answer_def without_def)
  note mono = clock_mono [OF assms(3)]
  have le: "clock out (tick w) \<le> clock out n" "clock out n \<le> clock out (tick w')"
      "clock out (tick w') \<le> clock out (tick w + 32)" "clock out (tick w' + 24) \<le> clock out (tick w + 32)"
    using n by (auto intro!: mono)
  have held: "heldSession out (clock out (tick w') + 300000) sid (newSession wd t) w'"
    unfolding heldSession_def
  proof (intro allI impI)
    fix m assume "tick w' \<le> m" "clock out m < clock out (tick w') + 300000"
    then show "kvget out (store w') (clock out m) (u ''session:'' @ sid) = Some (VSession (newSession wd t))"
      using wd(4) le mono [of "tick w'" m] assms(5) unfolding openedAt_def by simp
  qed
  have "wm_inv out anySession (\<lambda>i. True) (\<lambda>t. True) w" using assms(2-4) by (simp add: wm_inv_def)
  from wm.run_keeps [OF anyp.guards_wm_fetch this r]
  have "store_ok out anySession (store w') (clock out (tick w'))" by (simp add: wm_inv_def)
  moreover have "inGame sid [] False ?p" by (rule inGame_started) (simp_all add: freshPage_def kbMarks_def)
  moreover have "sameGame wd [] (newSession wd t)" by (simp add: sameGame_def)
  ultimately have "playing out (tick w') sid wd [] (?p, w')"
    using held unfolding playing_def by (auto simp: gameEnded_def)
  then have "playing out (tick w') sid wd [] (startGameOn out env hs tok st clip w)" unfolding eq .
  moreover have "\<forall>c \<in> set sid. c < 65536" using wd(3) by auto
  moreover have "clock out (tick w' + 24) < clock out (tick w') + 300000" using le assms(5) by linarith
  ultimately show thesis using that wd(1,2) by blast
qed

lemma page_game:
  assumes "faultless out" "kv_laws out" "supply_laws out" "store_ok out anySession (store w) (clock out (tick w))"
    "clock out (tick w + 32) < clock out (tick w) + 300000"
    "captchaPasses out env tok (clientIp (startRequest hs tok))" "\<forall>c \<in> set tok. c < 65536"
    "rateLimitOff env \<or> kvget out (store w) (clock out (tick w)) (u ''ratelimit:'' @ clientIp (startRequest hs tok)) = None"
    "\<forall>r \<in> set plays. wordKeys (snd r)"
  obtains n0 sid wd where "wd \<in> set WORDS"
    "playing out n0 sid wd (gameRows wd (map (\<lambda>r. toUpperCase (snd r)) plays) [])
      (playRounds out env hs plays (startGameOn out env hs tok st clip w))"
proof -
  obtain n0 sid wd where "playing out n0 sid wd [] (startGameOn out env hs tok st clip w)" "wd \<in> set WORDS"
    "sid \<noteq> []" "\<forall>c \<in> set sid. c < 65536" "clock out (n0 + 24) < clock out n0 + 300000"
    by (rule playing_started [OF assms(1-8)])
  then show thesis using that playing_rounds [OF assms(1-3) _ _ _ assms(9)] by blast
qed

end
