(* ===== verification/Game_Seed.thy ===== *)
theory Game_Seed
  imports Game_Events
begin

text \<open>
  Where the words of a generated wallet go. Two pages that differ in the words only, in the panel
  that shows them, on the button that copies them, in a copy under way and on the clipboard, stay
  so under the same events: the words have no influence on what is stored or sent. They stay
  on the button, however, after the panel is closed.
\<close>

declare u_simps [simp del]

section \<open>Pages that differ in the seed\<close>

definition seedSet :: "page \<Rightarrow> bool" where
  "seedSet p =
     (case el_data (doc p ESeedCopyBtn) (u ''seed'') of None \<Rightarrow> False | Some s \<Rightarrow> s \<noteq> [])"

definition hideSeed :: "call \<Rightarrow> call" where
  "hideSeed c = (case c of CopySeedCall s \<Rightarrow> CopySeedCall [] | _ \<Rightarrow> c)"

definition sim :: "page \<Rightarrow> page \<Rightarrow> bool" where
  "sim p q \<longleftrightarrow>
     sessionVar q = sessionVar p \<and> currentRow q = currentRow p \<and> currentCol q = currentCol p \<and>
     guessList q = guessList p \<and> kbState q = kbState p \<and> captchaToken q = captchaToken p \<and>
     gameOver q = gameOver p \<and> walletMod q = walletMod p \<and> turnstileReady q = turnstileReady p \<and>
     storage q = storage p \<and> timers q = timers p \<and>
     (\<forall>e. e \<noteq> EWalletShowSeed \<longrightarrow> e \<noteq> ESeedCopyBtn \<longrightarrow> doc q e = doc p e) \<and>
     (\<forall>e. el_disabled (doc q e) = el_disabled (doc p e)) \<and> seedSet q = seedSet p \<and>
     map hideSeed (calls q) = map hideSeed (calls p)"

definition related :: "'a res \<times> page \<Rightarrow> 'a res \<times> page \<Rightarrow> bool" where
  "related x y \<longleftrightarrow> fst x = fst y \<and> sim (snd x) (snd y)"

definition resp :: "'a act \<Rightarrow> 'a act \<Rightarrow> bool" where
  "resp a b \<longleftrightarrow> (\<forall>p q. sim p q \<longrightarrow> related (a p) (b q))"

lemma respI: "(\<And>p q. sim p q \<Longrightarrow> related (a p) (b q)) \<Longrightarrow> resp a b"
  by (simp add: resp_def)

lemma respD: "resp a b \<Longrightarrow> sim p q \<Longrightarrow> related (a p) (b q)"
  by (simp add: resp_def)

lemma resp_same: "resp a a \<Longrightarrow> sim p q \<Longrightarrow> related (a p) (a q)"
  by (rule respD)

lemma resp_perform: "resp a b \<Longrightarrow> sim p q \<Longrightarrow> sim (perform a p) (perform b q)"
  by (simp add: resp_def related_def perform_def)

lemma sim_refl [simp]: "sim p p"
  by (simp add: sim_def)

text \<open>What a handler may read of the page.\<close>

lemma sim_elem: "sim p q \<Longrightarrow> e \<noteq> EWalletShowSeed \<Longrightarrow> e \<noteq> ESeedCopyBtn \<Longrightarrow> doc q e = doc p e"
  by (simp add: sim_def)

lemma resp_readI:
  assumes "\<And>p q. sim p q \<Longrightarrow> sessionVar q = sessionVar p \<Longrightarrow> currentRow q = currentRow p \<Longrightarrow>
      currentCol q = currentCol p \<Longrightarrow> kbState q = kbState p \<Longrightarrow> captchaToken q = captchaToken p \<Longrightarrow>
      gameOver q = gameOver p \<Longrightarrow> turnstileReady q = turnstileReady p \<Longrightarrow> storage q = storage p \<Longrightarrow>
      timers q = timers p \<Longrightarrow> seedSet q = seedSet p \<Longrightarrow>
      (\<And>e. e \<noteq> EWalletShowSeed \<Longrightarrow> e \<noteq> ESeedCopyBtn \<Longrightarrow> doc q e = doc p e) \<Longrightarrow> related (a p) (b q)"
  shows "resp a b"
  by (rule respI, rule assms) (simp_all add: sim_def)

named_theorems resps \<open>actions on which the seed has no influence\<close>

lemma resp_basic [resps]: "resp skip skip" "resp (throwA e) (throwA e)" "resp (liftA r) (liftA r)"
  by (simp_all add: resp_def related_def skip_def throwA_def liftA_def)

lemma resp_bindA [resps]:
  assumes "resp a b" "\<And>x. resp (f x) (g x)"
  shows "resp (bindA a f) (bindA b g)"
proof (rule respI)
  fix p q assume "sim p q"
  then have "related (a p) (b q)" using assms(1) by (simp add: respD)
  then obtain r p' q' where "a p = (r, p')" "b q = (r, q')" "sim p' q'"
    by (metis related_def prod.collapse)
  then show "related (bindA a f p) (bindA b g q)"
    using assms(2) by (cases r) (simp_all add: bindA_def related_def resp_def)
qed

lemma resp_steps [resps]: "list_all2 resp as bs \<Longrightarrow> resp (steps as) (steps bs)"
  by (induction rule: list_all2_induct) (simp_all add: resps)

lemma resp_if [resps]: "(c \<Longrightarrow> resp a b) \<Longrightarrow> (\<not> c \<Longrightarrow> resp a' b') \<Longrightarrow> resp (if c then a else a') (if c then b else b')"
  by simp

section \<open>Assignments\<close>

lemma resp_elem: "e \<noteq> EWalletShowSeed \<Longrightarrow> e \<noteq> ESeedCopyBtn \<Longrightarrow> resp (onElem e f) (onElem e f)"
  by (auto simp: resp_def related_def onElem_def updA_def sim_def seedSet_def)

lemma resp_attributes [resps]:
  assumes "e \<noteq> EWalletShowSeed" "e \<noteq> ESeedCopyBtn"
  shows "resp (setContent e ct) (setContent e ct)" "resp (setText e s) (setText e s)"
    "resp (setTextJson e v) (setTextJson e v)" "resp (setClass e cs) (setClass e cs)"
    "resp (addClass e s) (addClass e s)" "resp (removeClass e s) (removeClass e s)"
    "resp (setHidden e b) (setHidden e b)" "resp (setDisabled e b) (setDisabled e b)"
    "resp (setValue e s) (setValue e s)" "resp (setChecked e b) (setChecked e b)"
    "resp (setData e k s) (setData e k s)" "resp (setColor e s) (setColor e s)"
proof -
  show "resp (setText e s) (setText e s)" using assms by (simp add: setText_def setContent_def resp_elem)
  then show "resp (setTextJson e v) (setTextJson e v)"
    using assms by (auto simp: setTextJson_def setText_def setContent_def intro!: resps resp_elem)
qed (use assms in \<open>simp_all add: setContent_def setClass_def addClass_def removeClass_def setHidden_def setDisabled_def
       setValue_def setChecked_def setData_def setColor_def resp_elem\<close>)

lemma resp_state [resps]:
  "resp (setTimer t) (setTimer t)" "resp (clearTimer t) (clearTimer t)" "resp (await c) (await c)"
  "resp (setItem k s) (setItem k s)" "resp (removeItem k) (removeItem k)"
  "resp (updA (\<lambda>p. p\<lparr>sessionVar := sv\<rparr>)) (updA (\<lambda>p. p\<lparr>sessionVar := sv\<rparr>))"
  "resp (updA (\<lambda>p. p\<lparr>captchaToken := tok\<rparr>)) (updA (\<lambda>p. p\<lparr>captchaToken := tok\<rparr>))"
  "resp (updA (\<lambda>p. p\<lparr>walletMod := True\<rparr>)) (updA (\<lambda>p. p\<lparr>walletMod := True\<rparr>))"
  "resp (updA (\<lambda>p. p\<lparr>gameOver := True\<rparr>)) (updA (\<lambda>p. p\<lparr>gameOver := True\<rparr>))"
  "resp (updA (\<lambda>p. p\<lparr>clipboard := a\<rparr>)) (updA (\<lambda>p. p\<lparr>clipboard := b\<rparr>))"
  "resp (updA (\<lambda>p. p\<lparr>currentCol := currentCol p + 1\<rparr>)) (updA (\<lambda>p. p\<lparr>currentCol := currentCol p + 1\<rparr>))"
  "resp (updA (\<lambda>p. p\<lparr>currentCol := currentCol p - 1\<rparr>)) (updA (\<lambda>p. p\<lparr>currentCol := currentCol p - 1\<rparr>))"
  "resp (updA (\<lambda>p. p\<lparr>kbState := (kbState p)(k := sv)\<rparr>)) (updA (\<lambda>p. p\<lparr>kbState := (kbState p)(k := sv)\<rparr>))"
  "resp (updA (\<lambda>p. p\<lparr>guessList := guessList p @ [g], currentRow := currentRow p + 1, currentCol := 0\<rparr>))
     (updA (\<lambda>p. p\<lparr>guessList := guessList p @ [g], currentRow := currentRow p + 1, currentCol := 0\<rparr>))"
  by (simp_all add: resp_def related_def setTimer_def clearTimer_def await_def setItem_def removeItem_def updA_def
      sim_def seedSet_def)

section \<open>Handlers\<close>

lemma resp_all: "\<forall>a \<in> set as. resp a a \<Longrightarrow> resp (steps as) (steps as)"
  by (simp add: resps list_all2_same)

abbreviation seedless :: "'a act \<Rightarrow> bool" where
  "seedless a \<equiv> resp a a"

lemma seedless_helpers [resps]:
  "seedless (toast s)" "seedless (toastJson v)" "seedless (setCell r c ch cls)" "seedless (flipRow r marks letters)"
  "seedless (onFlipStart r c marks letters)" "seedless (onFlipDone r c marks letters)" "seedless (shakeRow r)"
proof -
  show toast: "seedless (toast s)" for s by (simp add: toast_def resps)
  show "seedless (toastJson v)" by (simp add: toastJson_def resps toast)
  show "seedless (setCell r c ch cls)" by (simp add: setCell_def resps)
  show "seedless (flipRow r marks letters)" by (auto simp: flipRow_def resps intro!: resp_all)
  show "seedless (onFlipStart r c marks letters)" "seedless (onFlipDone r c marks letters)"
    by (simp_all add: onFlipStart_def onFlipDone_def resps)
  show "seedless (shakeRow r)" by (auto simp: shakeRow_def resps intro!: resp_all)
qed

lemma seedless_panels [resps]:
  "seedless showStart" "seedless showGame" "seedless (showLoss a)" "seedless (cooldownTick n)" "seedless (showCooldown n)"
  "seedless (onStart st b)" "seedless (pollTick a k)" "seedless (pollClaimStatus a)" "seedless (pollPaid b)"
  "seedless (pollFailed b)" "seedless (onClaim st b)" "seedless (onPoll a k st b)" "seedless refreshFaucet"
  "seedless (onFaucet st b)" "seedless (onCaptcha t)" "seedless onCaptchaExpired"
proof -
  show panels: "seedless showStart" "seedless showGame" "seedless (showLoss a)" "seedless (cooldownTick n)"
      "seedless (pollTick a k)" "seedless (pollPaid b)" "seedless (pollFailed b)" "seedless refreshFaucet"
      "seedless (onFaucet st b)" "seedless (onCaptcha t)" "seedless onCaptchaExpired" for a b n k st t
    by (simp_all add: showStart_def showGame_def showLoss_def cooldownTick_def Let_def pollTick_def pollPaid_def
        pollFailed_def refreshFaucet_def onFaucet_def onCaptcha_def onCaptchaExpired_def resps)
  show cool: "seedless (showCooldown n)" for n by (simp add: showCooldown_def panels resps)
  show "seedless (onStart st b)" by (simp add: onStart_def panels cool resps)
  show poll: "seedless (pollClaimStatus a)" for a by (simp add: pollClaimStatus_def panels)
  show "seedless (onClaim st b)" by (simp add: onClaim_def poll resps)
  show "seedless (onPoll a k st b)" by (simp add: onPoll_def panels resps)
qed

text \<open>Handlers that read the page.\<close>

lemma seedless_prefill [resps]: "seedless prefillAddress"
  by (rule resp_readI) (simp add: prefillAddress_def resp_same resps split: option.splits)

lemma seedless_showWin [resps]: "seedless (showWin b)"
proof -
  have "seedless (\<lambda>p. case storage p ADDRESS_KEY of None \<Rightarrow> skip p
      | Some saved \<Rightarrow> if saved = [] then skip p else setValue EClaimAddress saved p)"
    by (rule resp_readI) (simp add: resp_same resps split: option.splits)
  then show ?thesis by (simp add: showWin_def resps)
qed

lemma seedless_paint [resps]: "seedless paintKeyboard"
proof -
  have "seedless (\<lambda>p. if \<not> truthy (kbState p t) then skip p
      else bindA (liftA (strOf (kbState p t))) (\<lambda>s. if classTokens [] s = [s] then addClass (EKey t) s
             else throwA (Error (u ''InvalidCharacterError''))) p)" for t
    by (rule resp_readI) (simp add: resp_same resps)
  then have "seedless (paintKey t)" for t by (simp add: paintKey_def resps)
  then show ?thesis by (auto simp: paintKeyboard_def intro!: resp_all)
qed

lemma seedless_typing [resps]: "seedless backspace" "seedless submitRow" "seedless (pressKey t)"
proof -
  show erase: "seedless backspace"
    by (rule resp_readI) (simp add: backspace_def resp_same resps del: steps.simps One_nat_def)
  have guess: "seedless getCurrentGuess"
    by (rule resp_readI) (simp add: getCurrentGuess_def throwA_def related_def)
  show submit: "seedless submitRow"
    by (rule resp_readI) (simp add: submitRow_def resp_same resps guess del: steps.simps)
  show "seedless (pressKey t)"
    by (rule resp_readI) (simp add: pressKey_def resp_same resps erase submit del: steps.simps One_nat_def)
qed

lemma seedless_guess [resps]: "seedless (onGuess guess st b)"
proof -
  have "seedless (guessRejected b)"
    by (rule resp_readI) (simp add: guessRejected_def Let_def resp_same resps del: steps.simps cong: if_cong)
  moreover have key: "seedless (updateKey marks guess c)" for marks c
    by (rule resp_readI) (simp add: updateKey_def Let_def resp_same resps)
  have "seedless (guessAccepted guess b)"
    by (rule resp_readI)
      (simp add: guessAccepted_def resp_same resps key list_all2_same list_all2_appendI del: steps.simps One_nat_def)
  ultimately show ?thesis by (simp add: onGuess_def)
qed

lemma seedless_reading [resps]:
  "seedless startGame" "seedless submitClaim" "seedless turnstileWaiter" "seedless renderSavedWallet"
  "seedless walletChange" "seedless copyAddress"
proof -
  show "seedless startGame" by (rule resp_readI) (simp add: startGame_def resp_same resps del: steps.simps)
  show "seedless submitClaim" by (rule resp_readI) (simp add: submitClaim_def Let_def resp_same resps del: steps.simps)
  show "seedless turnstileWaiter" by (rule resp_readI) (simp add: turnstileWaiter_def resp_same resps)
  show "seedless renderSavedWallet"
    by (rule resp_readI) (simp add: renderSavedWallet_def resp_same resps del: steps.simps split: option.splits)
  show "seedless walletChange" by (rule resp_readI) (simp add: walletChange_def resp_same resps del: steps.simps)
  show "seedless copyAddress" by (rule resp_readI) (simp add: copyAddress_def Let_def resp_same resps)
qed

section \<open>The wallet panel\<close>

lemma resp_seedPanel [resps]: "resp (setContent EWalletShowSeed c) (setContent EWalletShowSeed c')"
  by (auto simp: resp_def related_def setContent_def onElem_def updA_def sim_def seedSet_def)

lemma resp_seedButton [resps]:
  "s = [] \<longleftrightarrow> s' = [] \<Longrightarrow> resp (setData ESeedCopyBtn (u ''seed'') s) (setData ESeedCopyBtn (u ''seed'') s')"
  by (auto simp: resp_def related_def setData_def onElem_def updA_def sim_def seedSet_def)

lemma resp_copyCall [resps]: "resp (await (CopySeedCall s)) (await (CopySeedCall s'))"
  by (simp add: resp_def related_def await_def updA_def sim_def seedSet_def hideSeed_def)

lemma seedless_wallet [resps]:
  "seedless hideAllWalletPanels" "seedless generateNewWallet" "seedless resetGenerate" "seedless (seedConfirm b)"
  "seedless (walletChangeConfirm b)" "seedless walletChangeCancel" "seedless (onCopyAddress a b)"
  "resp (onCopySeed s b) (onCopySeed s' b)"
  by (simp_all add: hideAllWalletPanels_def generateNewWallet_def resetGenerate_def seedConfirm_def walletChangeConfirm_def
      walletChangeCancel_def onCopyAddress_def onCopySeed_def resps)

lemma seedless_wallet_reading [resps]: "seedless copySeed" "seedless seedContinue" "seedless walletChangeGo"
proof -
  show "seedless copySeed"
    by (rule resp_readI)
      (auto simp: copySeed_def seedSet_def resp_same respD resps split: option.splits if_splits)
  show "seedless seedContinue"
    by (rule resp_readI) (simp add: seedContinue_def resp_same resps del: steps.simps split: option.splits)
  show "seedless walletChangeGo" by (rule resp_readI) (simp add: walletChangeGo_def resp_same resps del: steps.simps)
qed

definition sameWallet :: "wallet \<Rightarrow> wallet \<Rightarrow> bool" where
  "sameWallet w w' \<longleftrightarrow>
     address w = address w' \<and> (joinWith (u '' '') (mnemonic w) = [] \<longleftrightarrow> joinWith (u '' '') (mnemonic w') = [])"

lemma resp_showSeed [resps]: "sameWallet w w' \<Longrightarrow> resp (showSeed w) (showSeed w')"
  by (simp add: showSeed_def sameWallet_def resps)

text \<open>Replies and events that differ in the words of a generated wallet.\<close>

fun sameReply :: "reply \<Rightarrow> reply \<Rightarrow> bool" where
  "sameReply (ImportReply (Imported (Inr w))) (ImportReply (Imported (Inr w'))) \<longleftrightarrow> sameWallet w w'"
| "sameReply r r' \<longleftrightarrow> r = r'"

fun sameEvent :: "page_event \<Rightarrow> page_event \<Rightarrow> bool" where
  "sameEvent (Answer i r) (Answer j r') \<longleftrightarrow> i = j \<and> sameReply r r'"
| "sameEvent ev ev' \<longleftrightarrow> ev = ev'"

lemma sameReply_cases:
  assumes "sameReply r r'"
  obtains "r' = r" | w w' where "r = ImportReply (Imported (Inr w))" "r' = ImportReply (Imported (Inr w'))" "sameWallet w w'"
  using assms by (cases "(r, r')" rule: sameReply.cases) auto

lemma resp_onImport: "sameWallet w w' \<Longrightarrow> resp (onImport (Imported (Inr w))) (onImport (Imported (Inr w')))"
  by (simp add: onImport_def resps)

lemma seedless_onImport [resps]: "seedless (onImport r)"
  by (auto simp: onImport_def sameWallet_def resps split: import_result.splits sum.splits)

lemma resp_onReply:
  assumes "hideSeed c' = hideSeed c" "sameReply r r'"
  shows "resp (onReply c r) (onReply c' r')"
proof (cases "c' = c")
  case True
  show ?thesis
    using assms(2)
  proof (cases rule: sameReply_cases)
    case 1
    then show ?thesis using True by (cases "(c, r)" rule: onReply.cases) (simp_all add: resps)
  next
    case (2 w w')
    then show ?thesis using True by (cases c) (simp_all add: resps resp_onImport)
  qed
next
  case False
  then obtain s s' where c: "c = CopySeedCall s" "c' = CopySeedCall s'"
    using assms(1) by (cases c; cases c') (simp_all add: hideSeed_def)
  show ?thesis
    using assms(2) by (cases rule: sameReply_cases; cases r) (simp_all add: c resps)
qed

section \<open>Steps\<close>

lemma sim_initPage: "sim (initPage st clip) (initPage st clip')"
proof -
  have board: "seedless buildBoard"
    by (auto simp: resp_def related_def buildBoard_def updA_def sim_def seedSet_def split: elem.splits)
  have "seedless (buildKey t)" for t by (simp add: buildKey_def resps)
  then have "seedless buildKeyboard" by (auto simp: buildKeyboard_def intro!: resp_all)
  then have "seedless bootstrap" using board by (simp add: bootstrap_def resps)
  moreover have "sim (freshPage st clip) (freshPage st clip')" by (simp add: sim_def freshPage_def seedSet_def)
  ultimately show ?thesis unfolding initPage_def by (rule resp_perform)
qed

lemma sim_reload: "sim p q \<Longrightarrow> sim (reload p) (reload q)"
  using sim_initPage by (simp add: reload_def sim_def [of p q])

lemma seedless_events:
  "seedless (onClick e)" "seedless (onToggle e b)" "seedless (onKeydown key modifier)" "seedless (onTimer t)"
proof -
  show "seedless (onClick e)" by (cases e) (simp_all add: onClick_def resps)
  show "seedless (onToggle e b)" by (cases e) (simp_all add: onToggle_def resps)
  show "seedless (onKeydown key modifier)" by (rule resp_readI) (auto simp: onKeydown_def resp_same resps)
  show "seedless (onTimer t)" by (cases t) (simp_all add: onTimer_def resps)
qed

lemma sim_usable: "sim p q \<Longrightarrow> usable q e = usable p e"
proof -
  assume s: "sim p q"
  have "x \<noteq> EWalletShowSeed \<and> x \<noteq> ESeedCopyBtn" if "x \<in> set (containers e)" for x
    using that by (cases e) (auto simp: containers_def)
  then have "doc q x = doc p x" if "x \<in> set (containers e)" for x using that sim_elem [OF s] by blast
  moreover have "el_disabled (doc q e) = el_disabled (doc p e)" using s by (simp add: sim_def)
  ultimately show ?thesis by (simp add: usable_def)
qed

lemma sim_fire: "sim p q \<Longrightarrow> sim (fire i p) (fire i q)"
proof -
  assume s: "sim p q"
  then have t: "timers q = timers p" by (simp add: sim_def)
  have "sim (p\<lparr>timers := without i (timers p)\<rparr>) (q\<lparr>timers := without i (timers p)\<rparr>)"
    using s by (simp add: sim_def seedSet_def)
  then show ?thesis
    using s t by (simp add: fire_def Let_def sim_reload resp_perform seedless_events)
qed

lemma sim_answer:
  assumes "sim p q" "sameReply r r'"
  shows "sim (answer i r p) (answer i r' q)"
proof (cases "i < length (calls p)")
  case True
  have m: "map hideSeed (calls q) = map hideSeed (calls p)" using assms(1) by (simp add: sim_def)
  then have len: "length (calls q) = length (calls p)" by (metis length_map)
  then have "hideSeed (calls q ! i) = hideSeed (calls p ! i)" using m True by (metis nth_map)
  then have "resp (onReply (calls p ! i) r) (onReply (calls q ! i) r')" using assms(2) by (rule resp_onReply)
  moreover have "map hideSeed (without i (calls q)) = map hideSeed (without i (calls p))"
    using m by (simp add: without_def take_map [symmetric] drop_map [symmetric])
  then have "sim (p\<lparr>calls := without i (calls p)\<rparr>) (q\<lparr>calls := without i (calls q)\<rparr>)"
    using assms(1) by (simp add: sim_def seedSet_def)
  ultimately show ?thesis using True len by (simp add: answer_def resp_perform)
next
  case False
  moreover have "length (calls q) = length (calls p)" using assms(1) unfolding sim_def by (metis length_map)
  ultimately show ?thesis using assms(1) by (simp add: answer_def)
qed

lemma sim_page_step:
  assumes "sim p q" "sameEvent ev ev'"
  shows "sim (page_step ev p) (page_step ev' q)"
proof (cases "\<exists>i r. ev = Answer i r")
  case True
  then show ?thesis using assms by (cases ev') (auto simp: sim_answer)
next
  case False
  then have ev: "ev' = ev" using assms(2) by (cases "(ev, ev')" rule: sameEvent.cases) auto
  have "canReload q = canReload p" "rendered q = rendered p"
    using assms(1) sim_elem [OF assms(1)] by (simp_all add: canReload_def rendered_def sim_def [of p q])
  moreover have "sim (p\<lparr>turnstileReady := True\<rparr>) (q\<lparr>turnstileReady := True\<rparr>)"
    using assms(1) by (simp add: sim_def seedSet_def)
  ultimately show ?thesis
    using False assms(1) unfolding ev
    by (cases ev) (simp_all add: sim_usable sim_reload sim_fire resp_perform seedless_events resps)
qed

lemma sim_runPage: "sim p q \<Longrightarrow> list_all2 sameEvent evs evs' \<Longrightarrow> sim (runPage evs p) (runPage evs' q)"
proof (induction evs arbitrary: evs' p q)
  case (Cons ev evs)
  then obtain ev' fs where "evs' = ev' # fs" "sameEvent ev ev'" "list_all2 sameEvent evs fs"
    by (auto simp: list_all2_Cons1)
  then show ?case using Cons sim_page_step by simp
qed simp

text \<open>What leaves the page: the requests to the worker.\<close>

lemma sim_api: "sim p q \<Longrightarrow> map api (calls q) = map api (calls p)"
proof -
  assume "sim p q"
  then have m: "map hideSeed (calls q) = map hideSeed (calls p)" by (simp add: sim_def)
  have h: "api (hideSeed c) = api c" for c by (cases c) (simp_all add: api_def hideSeed_def)
  have "map (\<lambda>c. api (hideSeed c)) (calls q) = map (\<lambda>c. api (hideSeed c)) (calls p)"
    using arg_cong [OF m, of "map api"] by (simp add: comp_def)
  then show ?thesis by (simp add: h)
qed

end
