(* ===== verification/Game_Cooldown.thy ===== *)
theory Game_Cooldown
  imports Game_Events Js_Decimal Wordmine_Bounds
begin

text \<open>
  The cooldown panel of the page: it counts the seconds the worker has given down to zero, one per
  firing of its timer, and then loads the page anew.
\<close>

declare u_simps [simp del]

section \<open>One tick\<close>

definition clockText :: "nat \<Rightarrow> ustring" where
  "clockText n = numToString (Fin (of_nat (n div 60))) @ u ''m '' @ numToString (Fin (of_nat (n mod 60))) @ u ''s''"

lemma toDouble_small: "0 \<le> fl y \<Longrightarrow> fl y \<le> 3600 \<Longrightarrow> toDouble y = Fin (fl y)"
proof (rule toDouble_back)
  assume "0 \<le> fl y" "fl y \<le> 3600"
  then have "\<bar>fl y\<bar> \<le> 2 ^ 12" by simp
  also have "(2 :: rat) ^ 12 < 2 ^ 1024" by (rule power_strict_increasing) simp_all
  finally show "\<bar>fl y\<bar> < 2 ^ 1024" .
qed simp

text \<open>The quotient of a double division is not rounded up to the next minute.\<close>

lemma minute_floor:
  assumes "n \<le> 3600"
  shows "\<lfloor>fl (of_nat n / 60)\<rfloor> = int (n div 60)"
proof (rule floor_unique)
  let ?k = "n div 60"
  have k: "?k \<le> 60" using assms by simp
  have n: "of_nat n = 60 * of_nat ?k + (of_nat (n mod 60) :: rat)"
    by (metis mult.commute of_nat_add of_nat_mult of_nat_numeral div_mult_mod_eq)
  show "of_int (int ?k) \<le> fl (of_nat n / 60)"
    by (rule double.rnd_ge_int) (use n k in \<open>simp_all add: field_simps\<close>)
  have m: "(of_nat (n mod 60) :: rat) \<le> 59" using of_nat_mono [of "n mod 60" 59, where 'a = rat] by simp
  have "fl (of_nat n / 60) \<le> of_int (64 * int ?k + 63) * 2 powi (- 6)"
    by (rule double.rnd_le_fixed [OF _ fl_grid]) (use n m k in \<open>simp_all add: field_simps power_int_minus\<close>)
  also have "\<dots> < of_int (int ?k) + 1" by (simp add: power_int_minus field_simps)
  finally show "fl (of_nat n / 60) < of_int (int ?k) + 1" .
qed

lemma cooldownTick_eq:
  assumes "n \<le> 3600"
  shows "cooldownTick (Fin (of_nat n)) =
    steps [setText ECooldownTime (clockText n), setTimer (if n = 0 then Reload else CooldownTick (Fin (of_nat (n - 1))))]"
proof -
  have q: "0 \<le> fl (of_nat n / 60)" "fl (of_nat n / 60) \<le> 3600"
    by (rule double.rnd_nonneg, simp) (rule double.rnd_le_int [of _ 3600, simplified], use assms in \<open>simp add: field_simps\<close>)
  have mm: "numFloor (numDivPos (Fin (of_nat n)) (Fin 60)) = Fin (of_nat (n div 60))"
    by (simp add: numFloor_def numDivPos_def toDouble_small [OF q] minute_floor [OF assms])
  have "\<lfloor>(of_nat n :: rat) / 60\<rfloor> = int (n div 60)" using floor_divide_of_nat_eq [of n 60] by simp
  moreover have "(of_nat n :: rat) = of_nat (n div 60) * 60 + of_nat (n mod 60)"
    by (metis of_nat_add of_nat_mult of_nat_numeral div_mult_mod_eq)
  ultimately have ss: "numRem (Fin (of_nat n)) 60 = Fin (of_nat (n mod 60))" by (simp add: numRem_def)
  have s: "numMax (Fin 0) (numFloor (Fin (of_nat n))) = Fin (of_nat n)" by (auto simp: numMax_def numFloor_def numLess_def)
  show ?thesis
  proof (cases n)
    case 0
    have "fl (- 1) = - 1" using fl_of_int [of "- 1"] by simp
    then have "toDouble (- 1) = Fin (- 1)"
      using one_less_power [of "2 :: rat" 1024] by (intro toDouble_back) simp_all
    then have "numAdd (Fin (of_nat n)) (Fin (- 1)) = Fin (- 1)" using 0 by (simp add: numAdd_def)
    then show ?thesis using 0 mm ss s by (simp add: cooldownTick_def clockText_def numLess_def)
  next
    case (Suc m)
    have "fl (of_nat m) = of_nat m" using fl_of_int [of "int m"] assms Suc by simp
    then have "numAdd (Fin (of_nat n)) (Fin (- 1)) = Fin (of_nat m)"
      using toDouble_small [of "of_nat m"] assms Suc by (simp add: numAdd_def)
    then show ?thesis using Suc mm ss s by (simp add: cooldownTick_def clockText_def numLess_def)
  qed
qed

section \<open>The count\<close>

text \<open>The panel with \<open>n\<close> seconds on display, its timer the last one of the page.\<close>

definition counting :: "page \<Rightarrow> nat \<Rightarrow> page \<Rightarrow> bool" where
  "counting p0 n p \<longleftrightarrow>
     storage p = storage p0 \<and> clipboard p = clipboard p0 \<and>
     timers p = timers p0 @ [if n = 0 then Reload else CooldownTick (Fin (of_nat (n - 1)))] \<and>
     el_content (doc p ECooldownTime) = Text (clockText n) \<and> \<not> el_hidden (doc p ECooldown)"

lemma counting_starts:
  assumes "n \<le> 3600"
  shows "counting p n (perform (showCooldown (Fin (of_nat n))) p)"
  using assms
  by (simp add: showCooldown_def cooldownTick_eq counting_def setHidden_def setText_def setContent_def onElem_def setTimer_def
      perform_def bindA_def updA_def skip_def)

lemma counting_tick:
  assumes "n < 3600" "counting p0 (Suc n) p"
  shows "counting p0 n (page_step (Fire (length (timers p0))) p)"
proof -
  let ?i = "length (timers p0)"
  have t: "?i < length (timers p)" "timers p ! ?i = CooldownTick (Fin (of_nat n))" "without ?i (timers p) = timers p0"
    using assms(2) by (simp_all add: counting_def without_def)
  then have "page_step (Fire ?i) p = perform (cooldownTick (Fin (of_nat n))) (p\<lparr>timers := timers p0\<rparr>)"
    by (simp add: fire_def isInterval_def onTimer_def)
  then show ?thesis
    using assms
    by (simp add: cooldownTick_eq counting_def setText_def setContent_def onElem_def setTimer_def perform_def bindA_def updA_def skip_def)
qed

lemma counting_ends: "counting p0 0 p \<Longrightarrow> page_step (Fire (length (timers p0))) p = reload p0"
  by (simp add: counting_def fire_def reload_def)

lemma runPage_again: "runPage (replicate (Suc k) ev) p = page_step ev (runPage (replicate k ev) p)"
  by (induction k arbitrary: p) simp_all

lemma counting_ticks:
  assumes "n \<le> 3600" "counting p0 n p" "k \<le> n"
  shows "counting p0 (n - k) (runPage (replicate k (Fire (length (timers p0)))) p)"
  using assms(3)
proof (induction k)
  case (Suc k)
  have "counting p0 (Suc (n - Suc k)) (runPage (replicate k (Fire (length (timers p0)))) p)"
    using Suc by (simp add: Suc_diff_Suc)
  then have "counting p0 (n - Suc k) (page_step (Fire (length (timers p0))) (runPage (replicate k (Fire (length (timers p0)))) p))"
    using assms(1) Suc.prems by (intro counting_tick) simp_all
  then show ?case by (simp only: runPage_again)
qed (simp add: assms(2))

end
