(* ===== verification/Game_Props.thy ===== *)
theory Game_Props
  imports Game_Start Game_Seed Game_Cooldown Instances
begin

text \<open>
  The properties of the page of the game: alone, whatever events reach it, and together with the
  worker, whose responses it reads.
\<close>

declare u_simps [simp del]

section \<open>Helpers\<close>






definition demo_wallet_with :: "ustring list \<Rightarrow> wallet" where
  "demo_wallet_with ws = \<lparr>address = trim demo_address, mnemonic = ws, spendKeyHex = [], viewKeyHex = []\<rparr>"

definition demo_import :: "ustring list \<Rightarrow> page_event list" where
  "demo_import ws = [Click EGenWalletBtn, Answer 1 (ImportReply (Imported (Inr (demo_wallet_with ws))))]"

text \<open>A page that was refused a game, after \<open>k\<close> firings of the timer that this has set.\<close>

definition cooledPage :: "json \<Rightarrow> nat \<Rightarrow> page \<Rightarrow> page" where
  "cooledPage b k p = runPage (replicate k (Fire (length (timers p)))) (perform (onStart 429 b) p)"

section \<open>Properties\<close>



text \<open>
  C18. Whatever the player, the timers and the answers do, and over any number of reloads, the
  page is well formed: each cell of the board is empty or holds one capital letter, the cells before the cursor hold letters,
  a guess that is sent is five letters, a claim that is sent names an address of the accepted form,
  a claim is polled at most thirty times, and the stored address has the accepted form.
\<close>

theorem page_well_formed:
  assumes "\<forall>a. st ADDRESS_KEY = Some a \<longrightarrow> addressPattern a" "list_all (eventOk (\<lambda>w. addressPattern (address w))) evs"
  shows "page_ok (runPage evs (initPage st clip))"
  using assms by (intro ok_pages.runPage_keeps initPage_ok)

theorem page_well_formed_witness:
  "page_ok (runPage (demo_import [u ''one'', u ''two''] @ [Toggle ESeedConfirmCb True, Click ESeedContinue]) (initPage (\<lambda>k. None) None))"
  by (rule page_well_formed)
    (simp_all add: demo_import_def eventOk_def replyOk_def importOk_def demo_wallet_with_def demo_address_pattern)

text \<open>
  C19. The words of a generated wallet do not leave the page. Two runs in which the wallet module
  returns wallets with the same address but other words send the same requests to
  the worker, and store the same things in the browser.
\<close>

theorem seed_not_sent:
  assumes "list_all2 sameEvent evs evs'"
  shows "map api (calls (runPage evs' (initPage st clip))) = map api (calls (runPage evs (initPage st clip))) \<and>
    storage (runPage evs' (initPage st clip)) = storage (runPage evs (initPage st clip))"
proof -
  have s: "sim (runPage evs (initPage st clip)) (runPage evs' (initPage st clip))"
    by (rule sim_runPage [OF sim_refl assms])
  then have "storage (runPage evs' (initPage st clip)) = storage (runPage evs (initPage st clip))" by (simp add: sim_def)
  with sim_api [OF s] show ?thesis ..
qed

theorem seed_not_sent_witness:
  "map api (calls (runPage (demo_import [u ''three'']) (initPage (\<lambda>k. None) None))) =
      map api (calls (runPage (demo_import [u ''one'', u ''two'']) (initPage (\<lambda>k. None) None))) \<and>
    storage (runPage (demo_import [u ''three'']) (initPage (\<lambda>k. None) None)) =
      storage (runPage (demo_import [u ''one'', u ''two'']) (initPage (\<lambda>k. None) None))"
  by (rule seed_not_sent) (simp_all add: demo_import_def demo_wallet_with_def sameWallet_def u_simps)



text \<open>
  C21. The cooldown ends. When the worker refuses a game for \<open>n\<close> seconds, at most an hour, the
  panel shows the \<open>n - k\<close> seconds that are left after \<open>k\<close> firings of its timer, and the firing
  after the last second loads the page anew, with what the browser stores.
\<close>

theorem cooldown_ends:
  assumes "getProp b (u ''retry_after_seconds'') = Inr (Some (JNum (Fin (of_nat n))))" "n \<le> 3600"
  shows "(\<forall>k \<le> n. el_content (doc (cooledPage b k p) ECooldownTime) = Text (clockText (n - k))) \<and>
    cooledPage b (Suc n) p = reload p"
proof -
  have "perform (onStart 429 b) p = perform (showCooldown (Fin (of_nat n))) p"
    using assms(1) by (simp add: onStart_def perform_def bindA_def liftA_def)
  then have "counting p n (perform (onStart 429 b) p)" using counting_starts [OF assms(2)] by simp
  then have c: "counting p (n - k) (cooledPage b k p)" if "k \<le> n" for k
    unfolding cooledPage_def by (rule counting_ticks [OF assms(2) _ that])
  have "cooledPage b (Suc n) p = reload p"
    using counting_ends [of p "cooledPage b n p"] c [of n] unfolding cooledPage_def runPage_again by simp
  then show ?thesis using c by (simp add: counting_def)
qed

theorem cooldown_ends_witness:
  "el_content (doc (cooledPage (JObj [(u ''retry_after_seconds'', JNum (Fin 61))]) 1 (initPage (\<lambda>k. None) None))
      ECooldownTime) = Text (clockText 60) \<and>
    cooledPage (JObj [(u ''retry_after_seconds'', JNum (Fin 61))]) (Suc 61) (initPage (\<lambda>k. None) None) =
      reload (initPage (\<lambda>k. None) None)"
proof -
  let ?b = "JObj [(u ''retry_after_seconds'', JNum (Fin 61))]"
  have b: "getProp ?b (u ''retry_after_seconds'') = Inr (Some (JNum (Fin (of_nat 61))))" by simp
  have "(61 :: nat) \<le> 3600" "(1 :: nat) \<le> 61" "(61 :: nat) - 1 = 60" by simp_all
  then show ?thesis using cooldown_ends [OF b, of "initPage (\<lambda>k. None) None"] by metis
qed

text \<open>
  C23. The words outlive the panel that shows them. Once a wallet has been generated and its panel
  left with CONTINUE, the panel is empty and hidden, but the button that copies the words still
  holds all of them, in any state of the page.
\<close>

theorem seed_lingers:
  "el_content (doc (perform seedContinue (perform (showSeed w) p)) EWalletShowSeed) = Words [] \<and>
    el_data (doc (perform seedContinue (perform (showSeed w) p)) ESeedCopyBtn) (u ''seed'') = Some (joinWith (u '' '') (mnemonic w))"
  by (auto simp: seedContinue_def showSeed_def hideAllWalletPanels_def renderSavedWallet_def toast_def setHidden_def setText_def
      setContent_def setData_def setChecked_def setDisabled_def setValue_def setItem_def addClass_def setTimer_def clearTimer_def onElem_def
      perform_def bindA_def updA_def skip_def split: option.splits)

end
