(* ===== verification/Payout_Daemon.thy ===== *)
theory Payout_Daemon
  imports Wordmine_Claim
begin

text \<open>
  The payout daemon, \<^verbatim>\<open>wordmine/payout/payout_daemon.py\<close>: it lists the queue in the key-value namespace
  through the storage API, pays each pending claim with a transfer of the faucet's wallet, writes
  the outcome back and deletes the queue entry; and it writes the balance the worker reads. The
  storage API, the wallet and the clock are parameters, the fields of the record \<open>payer\<close>; every
  call takes the next value of a supply, and a call to the storage API that is not answered with
  status 200 has no effect.
\<close>

declare u_simps [simp del]

section \<open>Data\<close>

text \<open>The answer of the wallet: another status, no JSON, an error with its message, or a result.\<close>

datatype 'a rpc =
    HttpStatus nat ustring
  | BadJson ustring
  | RpcError "ustring option"
  | RpcResult 'a

record balance_result =
  res_balance :: "int option"
  res_unlocked :: "int option"

record transfer_result =
  res_tx_hash :: "ustring option"
  res_fee :: "int option"

datatype pd_eff =
    CfGet ustring
  | CfPut ustring kvval nat
  | CfDelete ustring
  | CfList ustring nat
  | GetBalance
  | Transfer ustring int ustring
  | TimeTime

datatype pd_resp =
    PVal nat "kvval option"
  | PStatus nat
  | PKeys nat "ustring list"
  | PBalance "balance_result rpc"
  | PTransfer "transfer_result rpc"
  | PTime rat

type_synonym 'a pd = "(pd_eff, pd_resp, 'a) prog"

section \<open>Storage API\<close>

definition kv_get :: "ustring \<Rightarrow> kvval option pd" where
  "kv_get key =
     Eff (CfGet key) (\<lambda>r. case r of
       PVal s v \<Rightarrow> if s = 404 then Ret None else if s \<noteq> 200 then Ret None else Ret v
     | _ \<Rightarrow> Throw TypeError)"

text \<open>The status of a write is only reported.\<close>

definition kv_put :: "ustring \<Rightarrow> kvval \<Rightarrow> nat \<Rightarrow> unit pd" where
  "kv_put key v ttl = Eff (CfPut key v ttl) (\<lambda>r. Ret ())"

definition kv_delete :: "ustring \<Rightarrow> unit pd" where
  "kv_delete key = Eff (CfDelete key) (\<lambda>r. Ret ())"

definition kv_list :: "ustring \<Rightarrow> nat \<Rightarrow> ustring list pd" where
  "kv_list prefix limit =
     Eff (CfList prefix limit) (\<lambda>r. case r of
       PKeys s ks \<Rightarrow> if s \<noteq> 200 then Ret [] else Ret ks
     | _ \<Rightarrow> Throw TypeError)"

section \<open>Wallet\<close>

text \<open>\<open>wallet(method, params)\<close>: the pair of a result and an error.\<close>

definition wallet_reply :: "'a rpc \<Rightarrow> 'a option \<times> ustring option" where
  "wallet_reply r =
     (case r of
        HttpStatus s b \<Rightarrow> (None, Some (u ''http '' @ natToString s @ u '': '' @ take 200 b))
      | BadJson e \<Rightarrow> (None, Some (u ''bad json: '' @ e))
      | RpcError m \<Rightarrow> (None, Some (case m of None \<Rightarrow> u ''rpc error'' | Some x \<Rightarrow> x))
      | RpcResult x \<Rightarrow> (Some x, None))"

definition wallet_balance :: "(balance_result option \<times> ustring option) pd" where
  "wallet_balance =
     Eff GetBalance (\<lambda>r. case r of PBalance x \<Rightarrow> Ret (wallet_reply x) | _ \<Rightarrow> Throw TypeError)"

text \<open>The line of the log that precedes a transfer names the claim.\<close>

definition wallet_transfer :: "ustring \<Rightarrow> int \<Rightarrow> ustring \<Rightarrow> (transfer_result option \<times> ustring option) pd" where
  "wallet_transfer claim_id units dest =
     Eff (Transfer claim_id units dest)
       (\<lambda>r. case r of PTransfer x \<Rightarrow> Ret (wallet_reply x) | _ \<Rightarrow> Throw TypeError)"

text \<open>\<open>if err:\<close>.\<close>

definition errTruthy :: "ustring option \<Rightarrow> bool" where
  "errTruthy e \<longleftrightarrow> e \<noteq> None \<and> e \<noteq> Some []"

section \<open>Loop\<close>

definition time_time :: "rat pd" where
  "time_time = Eff TimeTime (\<lambda>r. case r of PTime t \<Rightarrow> Ret t | _ \<Rightarrow> Throw TypeError)"

text \<open>An integer divided by \<open>1e12\<close>, and \<open>int(x)\<close> of a number.\<close>

definition glac :: "int option \<Rightarrow> rat" where
  "glac n = fl (fl (of_int (case n of None \<Rightarrow> 0 | Some k \<Rightarrow> k)) / 10 ^ 12)"

definition pyInt :: "rat \<Rightarrow> int" where
  "pyInt x = (if x < 0 then - \<lfloor>- x\<rfloor> else \<lfloor>x\<rfloor>)"

definition update_balance :: "unit pd" where
  "update_balance =
     bindP wallet_balance (\<lambda>(res, err).
       if errTruthy err then Ret ()
       else case res of
         None \<Rightarrow> Throw TypeError
       | Some b \<Rightarrow>
           bindP time_time (\<lambda>t.
             kv_put (u ''faucet:balance'')
               (VFaucet \<lparr>faucet_at = pyInt (fl (t * 1000)), balance = Some (glac (res_balance b)),
                  unlocked = Some (glac (res_unlocked b))\<rparr>) 600))"

text \<open>\<open>qkey.rsplit(':', 1)[-1]\<close>.\<close>

definition claimOf :: "ustring \<Rightarrow> ustring" where
  "claimOf qkey = rev (takeWhile (\<lambda>c. c \<noteq> 58) (rev qkey))"

definition failedClaim :: "ustring \<Rightarrow> claim \<Rightarrow> claim" where
  "failedClaim e c = c\<lparr>status := u ''failed'', claim_error := Some e\<rparr>"

definition paidClaim :: "transfer_result \<Rightarrow> claim \<Rightarrow> claim" where
  "paidClaim x c =
     c\<lparr>status := u ''paid'', tx_hash := Some (case res_tx_hash x of None \<Rightarrow> [] | Some h \<Rightarrow> h),
       claim_fee := Some (case res_fee x of None \<Rightarrow> 0 | Some f \<Rightarrow> f)\<rparr>"

definition finish_claim :: "ustring \<Rightarrow> claim \<Rightarrow> unit pd" where
  "finish_claim qkey c = bindP (kv_put (u ''claim:'' @ claimOf qkey) (VClaim c) 86400) (\<lambda>_. kv_delete qkey)"

text \<open>
  A session and a balance have no status; the texts the worker stores are times and claim ids, so
  \<^verbatim>\<open>kv_get\<close> gives a number or a string, which has no method \<^verbatim>\<open>get\<close>.
\<close>

definition process_claim :: "int \<Rightarrow> ustring \<Rightarrow> unit pd" where
  "process_claim MIN_PAYOUT qkey =
     bindP (kv_get (u ''claim:'' @ claimOf qkey)) (\<lambda>rec. case rec of
       None \<Rightarrow> kv_delete qkey
     | Some (VClaim c) \<Rightarrow>
         if status c \<noteq> u ''pending'' then kv_delete qkey
         else if amount_atomic c < MIN_PAYOUT then finish_claim qkey (failedClaim (u ''below minimum payout'') c)
         else bindP (wallet_transfer (claimOf qkey) (amount_atomic c) (claim_address c)) (\<lambda>(res, err).
                if errTruthy err then finish_claim qkey (failedClaim (the err) c)
                else case res of
                  None \<Rightarrow> Throw TypeError
                | Some x \<Rightarrow> finish_claim qkey (paidClaim x c))
     | Some (VText _) \<Rightarrow> Throw TypeError
     | Some _ \<Rightarrow> kv_delete qkey)"

primrec eachP :: "('a \<Rightarrow> unit pd) \<Rightarrow> 'a list \<Rightarrow> unit pd" where
  "eachP f [] = Ret ()"
| "eachP f (x # xs) = bindP (f x) (\<lambda>_. eachP f xs)"

definition process_claims :: "int \<Rightarrow> unit pd" where
  "process_claims MIN_PAYOUT = bindP (kv_list (u ''queue:'') 20) (eachP (process_claim MIN_PAYOUT))"

text \<open>
  One turn of the loop, from the time of the last balance to the next. An exception is reported and
  the loop goes on; the time is kept once the balance has been written.
\<close>

definition daemon_turn :: "int \<Rightarrow> rat \<Rightarrow> rat pd" where
  "daemon_turn MIN_PAYOUT last_balance =
     bindP time_time (\<lambda>now.
       if fl (now - last_balance) > 30
       then catchP (bindP update_balance (\<lambda>_.
              catchP (bindP (process_claims MIN_PAYOUT) (\<lambda>_. Ret now)) (\<lambda>e. Ret now))) (\<lambda>e. Ret last_balance)
       else catchP (bindP (process_claims MIN_PAYOUT) (\<lambda>_. Ret last_balance)) (\<lambda>e. Ret last_balance))"

section \<open>The services outside\<close>

record 's payer =
  kvs :: "'s outside"
  kvdel :: "'s \<Rightarrow> nat \<Rightarrow> ustring \<Rightarrow> 's"
  kvkeys :: "'s \<Rightarrow> nat \<Rightarrow> ustring \<Rightarrow> ustring list"
  statusAt :: "nat \<Rightarrow> nat"
  balanceAt :: "nat \<Rightarrow> balance_result rpc"
  transferAt :: "nat \<Rightarrow> ustring \<Rightarrow> int \<Rightarrow> ustring \<Rightarrow> transfer_result rpc"
  timeAt :: "nat \<Rightarrow> rat"

text \<open>The transfers that were asked for: claim, amount and address.\<close>

type_synonym ledger = "(ustring \<times> int \<times> ustring) list"

fun pd_handle :: "'s payer \<Rightarrow> pd_eff \<Rightarrow> 's world \<times> ledger \<Rightarrow> pd_resp \<times> 's world \<times> ledger" where
  "pd_handle P (CfGet key) (w, l) =
     ((let v = kvget (kvs P) (store w) (clock (kvs P) (tick w)) key
       in if statusAt P (tick w) \<noteq> 200 then PVal (statusAt P (tick w)) None
          else PVal (if v = None then 404 else 200) v), w\<lparr>tick := Suc (tick w)\<rparr>, l)"
| "pd_handle P (CfPut key v ttl) (w, l) =
     (PStatus (statusAt P (tick w)),
      w\<lparr>store := (if statusAt P (tick w) = 200
                  then kvput (kvs P) (store w) (clock (kvs P) (tick w)) key v ttl else store w),
        tick := Suc (tick w)\<rparr>, l)"
| "pd_handle P (CfDelete key) (w, l) =
     (PStatus (statusAt P (tick w)),
      w\<lparr>store := (if statusAt P (tick w) = 200
                  then kvdel P (store w) (clock (kvs P) (tick w)) key else store w),
        tick := Suc (tick w)\<rparr>, l)"
| "pd_handle P (CfList prefix limit) (w, l) =
     (PKeys (statusAt P (tick w)) (take limit (kvkeys P (store w) (clock (kvs P) (tick w)) prefix)),
      w\<lparr>tick := Suc (tick w)\<rparr>, l)"
| "pd_handle P GetBalance (w, l) = (PBalance (balanceAt P (tick w)), w\<lparr>tick := Suc (tick w)\<rparr>, l)"
| "pd_handle P (Transfer cid units dest) (w, l) =
     (PTransfer (transferAt P (tick w) cid units dest), w\<lparr>tick := Suc (tick w)\<rparr>, l @ [(cid, units, dest)])"
| "pd_handle P TimeTime (w, l) = (PTime (timeAt P (tick w)), w\<lparr>tick := Suc (tick w)\<rparr>, l)"

text \<open>
  What the namespace promises besides \<open>kv_laws\<close>: a deleted key is gone, and no other is changed.
\<close>

definition delete_laws :: "'s payer \<Rightarrow> bool" where
  "delete_laws P \<longleftrightarrow>
     (\<forall>s t k t'. kvget (kvs P) (kvdel P s t k) t' k = None) \<and>
     (\<forall>s t k t' k'. k' \<noteq> k \<longrightarrow> kvget (kvs P) (kvdel P s t k) t' k' = kvget (kvs P) s t' k')"

definition storage_up :: "'s payer \<Rightarrow> bool" where
  "storage_up P \<longleftrightarrow> (\<forall>n. statusAt P n = 200)"

section \<open>Running one claim\<close>

text \<open>What the storage API and the wallet do, as equations.\<close>

lemma run_storage:
  assumes "storage_up P"
  shows "run (pd_handle P) (kv_get k) (w, l) =
      (Inr (kvget (kvs P) (store w) (clock (kvs P) (tick w)) k), w\<lparr>tick := Suc (tick w)\<rparr>, l)"
    and "run (pd_handle P) (kv_put k v ttl) (w, l) =
      (Inr (), w\<lparr>store := kvput (kvs P) (store w) (clock (kvs P) (tick w)) k v ttl, tick := Suc (tick w)\<rparr>, l)"
    and "run (pd_handle P) (kv_delete k) (w, l) =
      (Inr (), w\<lparr>store := kvdel P (store w) (clock (kvs P) (tick w)) k, tick := Suc (tick w)\<rparr>, l)"
    and "run (pd_handle P) (kv_list p n) (w, l) =
      (Inr (take n (kvkeys P (store w) (clock (kvs P) (tick w)) p)), w\<lparr>tick := Suc (tick w)\<rparr>, l)"
  using assms by (simp_all add: storage_up_def kv_get_def kv_put_def kv_delete_def kv_list_def Let_def)

lemma run_transfer:
  "run (pd_handle P) (wallet_transfer cid x a) (w, l) =
    (Inr (wallet_reply (transferAt P (tick w) cid x a)), w\<lparr>tick := Suc (tick w)\<rparr>, l @ [(cid, x, a)])"
  by (simp add: wallet_transfer_def)

text \<open>A pending claim whose transfer succeeds: one transfer, the claim is paid, its queue entry gone.\<close>

lemma run_paid:
  assumes "storage_up P" "kvget (kvs P) (store w) (clock (kvs P) (tick w)) (u ''claim:'' @ claimOf qkey) = Some (VClaim c)"
    "status c = u ''pending''" "M \<le> amount_atomic c"
    "transferAt P (Suc (tick w)) (claimOf qkey) (amount_atomic c) (claim_address c) = RpcResult x"
  shows "run (pd_handle P) (process_claim M qkey) (w, l) =
    (Inr (), w\<lparr>store := kvdel P (kvput (kvs P) (store w) (clock (kvs P) (tick w + 2)) (u ''claim:'' @ claimOf qkey)
        (VClaim (paidClaim x c)) 86400) (clock (kvs P) (tick w + 3)) qkey, tick := tick w + 4\<rparr>,
     l @ [(claimOf qkey, amount_atomic c, claim_address c)])"
  using assms
  by (simp add: process_claim_def run_bindP run_storage [OF assms(1)] run_transfer wallet_reply_def errTruthy_def
      finish_claim_def tick_sums)

section \<open>When the storage fails\<close>

text \<open>A read that is answered with another status counts as a claim that is not there.\<close>

lemma run_dropped:
  assumes "statusAt P (tick w) \<noteq> 200" "statusAt P (Suc (tick w)) = 200"
  shows "run (pd_handle P) (process_claim M qkey) (w, l) =
    (Inr (), w\<lparr>store := kvdel P (store w) (clock (kvs P) (Suc (tick w))) qkey, tick := tick w + 2\<rparr>, l)"
  using assms by (simp add: process_claim_def kv_get_def kv_delete_def)

text \<open>Writes that fail after the transfer leave the claim pending and in the queue.\<close>

lemma run_unwritten:
  assumes "statusAt P (tick w) = 200" "statusAt P (tick w + 2) \<noteq> 200" "statusAt P (tick w + 3) \<noteq> 200"
    "kvget (kvs P) (store w) (clock (kvs P) (tick w)) (u ''claim:'' @ claimOf qkey) = Some (VClaim c)"
    "status c = u ''pending''" "M \<le> amount_atomic c"
    "transferAt P (Suc (tick w)) (claimOf qkey) (amount_atomic c) (claim_address c) = RpcResult x"
  shows "run (pd_handle P) (process_claim M qkey) (w, l) =
    (Inr (), w\<lparr>tick := tick w + 4\<rparr>, l @ [(claimOf qkey, amount_atomic c, claim_address c)])"
  using assms
  by (simp add: process_claim_def run_bindP kv_get_def kv_put_def kv_delete_def run_transfer wallet_reply_def errTruthy_def
      finish_claim_def tick_sums)

end
