(* ===== verification/Game_Claim.thy ===== *)
theory Game_Claim
  imports Game_Worker Payout_Daemon
begin

text \<open>
  A claim through all parts: the page sends it, the worker stores and queues it, the payout daemon
  pays it, and the page, which polls the claim it was given, shows the transaction.
\<close>

declare u_simps [simp del]

section \<open>The claim is sent\<close>

definition claimRequest :: "(ustring \<times> ustring) list \<Rightarrow> ustring \<Rightarrow> ustring \<Rightarrow> request" where
  "claimRequest hs sid addr =
     \<lparr>req_method = u ''POST'', pathname = u ''/api/claim'', searchParams = [], req_headers = hs,
      req_json = Inr (JObj [(u ''token'', JStr sid), (u ''address'', JStr addr)])\<rparr>"

lemma address_units: "addressPattern a \<Longrightarrow> (\<forall>c \<in> set a. c < 128) \<and> a \<noteq> []"
proof -
  assume a: "addressPattern a"
  then obtain c s where cs: "a = c # s" by (cases a) (auto simp: addressPattern_def)
  then have "c = 82" "\<forall>x \<in> set s. isBase58Char x" using a by (auto simp: addressPattern_def u_simps)
  then show ?thesis using cs by (auto simp: isBase58Char_def char_class_defs)
qed

lemma requestOf_claim:
  assumes "addressPattern addr" "\<forall>c \<in> set sid. c < 65536"
  shows "requestOf hs (ClaimCall (Some sid) addr) = Some (claimRequest hs sid addr)"
proof -
  have "jsonKept (JObj [(u ''token'', JStr sid), (u ''address'', JStr addr)])"
    by (rule jsonKept_object) (simp_all add: u_simps isDecimal_def)
  moreover have "jsonUnits (JObj [(u ''token'', JStr sid), (u ''address'', JStr addr)])"
    using assms address_units [OF assms(1)] by (auto simp: u_simps)
  ultimately have "readJson (sendJson (JObj [(u ''token'', JStr sid), (u ''address'', JStr addr)]))
      = Inr (JObj [(u ''token'', JStr sid), (u ''address'', JStr addr)])"
    by (rule readJson_sendJson)
  then show ?thesis
    by (simp add: requestOf_def api_def claimRequest_def u_simps parseQuery_def)
qed

lemma trim_address: "addressPattern a \<Longrightarrow> trim a = a"
proof -
  assume a: "addressPattern a"
  then obtain c s where cs: "a = c # s" by (cases a) (auto simp: addressPattern_def)
  then have "c = 82" "\<forall>x \<in> set s. isBase58Char x" using a by (auto simp: addressPattern_def u_simps)
  then have "\<forall>x \<in> set a. \<not> isJsSpace x" using cs by (auto simp: isBase58Char_def isJsSpace_def char_class_defs)
  then show ?thesis using cs by (intro trim_idem) auto
qed

lemma claimable_request:
  assumes "addressPattern addr" "sid \<noteq> []"
  shows "claimable sid (claimRequest hs sid addr)" "claimAddress (claimRequest hs sid addr) = addr"
  using assms address_units [OF assms(1)] trim_address [OF assms(1)]
  by (simp_all add: claimable_def claimsFor_def names_def claimRequest_def bodyOf_def stringOrEmpty_def claimAddress_def u_simps)

lemma claim_clicked:
  assumes "usable p EClaimBtn" "addressPattern (trim (el_value (doc p EClaimAddress)))"
  shows "\<exists>d. page_step (Click EClaimBtn) p =
    p\<lparr>storage := (storage p)(ADDRESS_KEY \<mapsto> trim (el_value (doc p EClaimAddress))), doc := d,
      calls := calls p @ [ClaimCall (el_data (doc p EClaimBtn) (u ''token'')) (trim (el_value (doc p EClaimAddress)))]\<rparr>"
  using assms
  by (intro exI) (simp add: onClick_def submitClaim_def Let_def perform_def setItem_def setDisabled_def setText_def setContent_def
      setColor_def onElem_def await_def bindA_def updA_def skip_def)

section \<open>The claim is stored and polled\<close>

lemma ascii_claimId: "ascii (claimIdOf b)"
proof -
  have "ascii (hexByte y)" for y using ascii_digits [of 16 "unat y"] by (auto simp: hexByte_def padStart_def)
  then show ?thesis by (auto simp: claimIdOf_def u_simps hexOfBytes_def)
qed

lemma claimId_arrives:
  assumes "ascii cid"
  shows "replyOf (Inr (withSecurityHeaders (jsonResponse (JObj [(u ''claim_id'', JStr cid)]) 200))) =
    ApiReply (Inr (200, JObj [(u ''claim_id'', JStr cid)]))"
proof -
  have "jsonKept (JObj [(u ''claim_id'', JStr cid)])" by (rule jsonKept_object) (simp_all add: u_simps isDecimal_def)
  then have "readJson (sendJson (JObj [(u ''claim_id'', JStr cid)])) = Inr (JObj [(u ''claim_id'', JStr cid)])"
    using assms by (intro readJson_sendJson) (auto simp: u_simps)
  then show ?thesis by (simp add: replyOf_def withSecurityHeaders_def jsonResponse_def bodyBytes_def)
qed

lemma claim_granted:
  assumes "encodeURIComponent cid = Inr q"
  shows "\<exists>d. perform (onClaim 200 (JObj [(u ''claim_id'', JStr cid)])) p =
    p\<lparr>doc := d, calls := calls p @ [PollCall q (Some (JStr cid)) 1]\<rparr>"
  using assms
  by (intro exI) (simp add: onClaim_def pollClaimStatus_def pollTick_def strOf_def perform_def setText_def setContent_def
      onElem_def await_def bindA_def liftA_def updA_def skip_def)

text \<open>The world after a claim: the session is claimed, the claim stored and queued.\<close>

definition claimedWorld :: "'s outside \<Rightarrow> ustring \<Rightarrow> session \<Rightarrow> ustring \<Rightarrow> 's world \<Rightarrow> 's world" where
  "claimedWorld out sid rec addr w = snd (run (wm_handle out) (claimRest sid rec addr) (w\<lparr>tick := Suc (tick w)\<rparr>))"

lemma claim_served:
  assumes "faultless out" "addressPattern addr" "sid \<noteq> []" "\<forall>c \<in> set sid. c < 65536"
    "kvget out (store w) (clock out (tick w)) (u ''session:'' @ sid) = Some (VSession rec)" "won rec" "\<not> claimed rec"
    "calls p = cs @ [ClaimCall (Some sid) addr]"
  shows "\<exists>d q. encodeURIComponent (claimIdOf (entropy out (tick w + 2) 16)) = Inr q \<and>
    serveCall out env hs (length cs) (p, w) =
      (p\<lparr>doc := d, calls := cs @ [PollCall q (Some (JStr (claimIdOf (entropy out (tick w + 2) 16)))) 1]\<rparr>,
       claimedWorld out sid rec addr w)"
proof -
  let ?cid = "claimIdOf (entropy out (tick w + 2) 16)" and ?w = "w\<lparr>tick := Suc (tick w)\<rparr>"
  have cid: "claimIdOf (entropy out (tick ?w + 1) 16) = ?cid" by simp
  obtain q where q: "encodeURIComponent ?cid = Inr q"
    using ascii_wellFormed [OF ascii_claimId] by (simp add: encodeURIComponent_def)
  have "run (wm_handle out) (wm_fetch env (claimRequest hs sid addr)) w = run (wm_handle out) (claimRest sid rec addr) ?w"
    using run_claim [OF claimable_request(1) [OF assms(2,3)] assms(1,6,7,5)] claimable_request(2) [OF assms(2,3)] by simp
  then have r: "run (wm_handle out) (wm_fetch env (claimRequest hs sid addr)) w =
      (Inr (withSecurityHeaders (jsonResponse (JObj [(u ''claim_id'', JStr ?cid)]) 200)), claimedWorld out sid rec addr w)"
    unfolding claimedWorld_def run_claimRest_store [OF assms(1)] cid by simp
  let ?p = "p\<lparr>calls := cs\<rparr>"
  obtain d where d: "perform (onClaim 200 (JObj [(u ''claim_id'', JStr ?cid)])) ?p =
      ?p\<lparr>doc := d, calls := calls ?p @ [PollCall q (Some (JStr ?cid)) 1]\<rparr>"
    using claim_granted [OF q] by blast
  have "answer (length cs) (ApiReply (Inr (200, JObj [(u ''claim_id'', JStr ?cid)]))) p =
      p\<lparr>doc := d, calls := cs @ [PollCall q (Some (JStr ?cid)) 1]\<rparr>"
    using d assms(8) by (simp add: answer_def without_def)
  then show ?thesis
    using q r requestOf_claim [OF assms(2,4)] claimId_arrives [OF ascii_claimId] assms(8)
    by (intro exI [of _ d] exI [of _ q]) (simp add: serveCall_def)
qed

lemma claimedWorld_reads:
  assumes "faultless out" "kv_laws out" "supply_laws out" "clock out (tick w + 20) < clock out (tick w) + 86400000"
    "tick w + 7 \<le> n" "n \<le> tick w + 20"
  shows "tick (claimedWorld out sid rec addr w) = tick w + 7"
    "kvget out (store (claimedWorld out sid rec addr w)) (clock out n) (u ''claim:'' @ claimIdOf (entropy out (tick w + 2) 16)) =
      Some (VClaim (pendingClaim addr (reward rec) (clock out (tick w + 3))))"
proof -
  let ?w = "w\<lparr>tick := Suc (tick w)\<rparr>"
  note eq = run_claimRest_store [OF assms(1), of sid rec addr ?w]
  show "tick (claimedWorld out sid rec addr w) = tick w + 7" by (simp add: claimedWorld_def eq)
  note mono = clock_mono [OF assms(3)]
  have t: "clock out (tick ?w + 3) \<le> clock out n" "clock out n < clock out (tick ?w + 3) + 86400000"
    using mono [of "tick ?w + 3" n] mono [of n "tick w + 20"] mono [of "tick w" "tick ?w + 3"] assms(4-6) by simp_all
  have "run (wm_handle out) (claimRest sid rec addr) ?w = (fst (run (wm_handle out) (claimRest sid rec addr) ?w),
      claimedWorld out sid rec addr w)"
    by (simp add: claimedWorld_def)
  from claimRest_stores [OF assms(1,2) this t] show
    "kvget out (store (claimedWorld out sid rec addr w)) (clock out n) (u ''claim:'' @ claimIdOf (entropy out (tick w + 2) 16)) =
      Some (VClaim (pendingClaim addr (reward rec) (clock out (tick w + 3))))"
    by (simp add: numeral_eq_Suc)
qed

section \<open>The poll\<close>

definition statusRequest :: "(ustring \<times> ustring) list \<Rightarrow> ustring \<Rightarrow> request" where
  "statusRequest hs cid =
     \<lparr>req_method = u ''GET'', pathname = u ''/api/claim_status'', searchParams = [(u ''id'', cid)], req_headers = hs,
      req_json = Inl SyntaxError\<rparr>"

lemma requestOf_poll:
  assumes "encodeURIComponent cid = Inr q"
  shows "requestOf hs (PollCall q v n) = Some (statusRequest hs cid)"
proof -
  have "takeWhile (\<lambda>x. x \<noteq> 63) (u ''/api/claim_status?id='' @ q) = u ''/api/claim_status''"
    "drop 1 (dropWhile (\<lambda>x. x \<noteq> 63) (u ''/api/claim_status?id='' @ q)) = u ''id='' @ q"
    by (simp_all add: u_simps)
  then show ?thesis
    using parseQuery_id [OF assms] by (simp add: requestOf_def api_def statusRequest_def)
qed

text \<open>Claims whose numbers are doubles and whose strings are strings arrive as they are stored.\<close>

definition claimPlain :: "claim \<Rightarrow> bool" where
  "claimPlain c \<longleftrightarrow>
     addressPattern (claim_address c) \<and> isDouble (amount c) \<and> \<bar>amount_atomic c\<bar> \<le> 2 ^ 53 \<and> created_at c \<le> 2 ^ 53 \<and>
     (\<forall>x \<in> set (status c). x < 65536) \<and> (\<forall>h. tx_hash c = Some h \<longrightarrow> (\<forall>x \<in> set h. x < 65536)) \<and>
     (\<forall>f. claim_fee c = Some f \<longrightarrow> \<bar>f\<bar> \<le> 2 ^ 53) \<and> (\<forall>e. claim_error c = Some e \<longrightarrow> (\<forall>x \<in> set e. x < 65536))"

lemma claimJson_arrives:
  assumes "claimPlain c"
  shows "replyOf (Inr (withSecurityHeaders (jsonResponse (claimJson c) 200))) = ApiReply (Inr (200, claimJson c))"
proof -
  have dbl: "isDouble (of_int (amount_atomic c))" "isDouble (of_nat (created_at c))" "isDouble (amount c)"
    using assms isDouble_int [of "int (created_at c)"] by (auto simp: claimPlain_def intro!: isDouble_int)
  have fee: "isDouble (of_int f)" if "claim_fee c = Some f" for f
    using assms that by (auto simp: claimPlain_def intro!: isDouble_int)
  have "jsonKept (claimJson c)"
    unfolding claimJson_def
    by (rule jsonKept_object) (use dbl fee in \<open>auto simp: u_simps isDecimal_def jsInt_def jsRat_def split: option.splits\<close>)
  moreover have "jsonUnits (claimJson c)"
    using assms address_units [of "claim_address c"]
    by (cases "tx_hash c"; cases "claim_fee c"; cases "claim_error c")
      (auto simp: claimJson_def claimPlain_def u_simps jsInt_def jsRat_def)
  ultimately have "readJson (sendJson (claimJson c)) = Inr (claimJson c)" by (rule readJson_sendJson)
  then show ?thesis by (simp add: replyOf_def withSecurityHeaders_def jsonResponse_def bodyBytes_def)
qed

lemma claimJson_fields:
  "getProp (claimJson c) (u ''status'') = Inr (Some (JStr (status c)))"
  "getProp (claimJson c) (u ''tx_hash'') = Inr (map_option JStr (tx_hash c))"
  by (simp_all add: claimJson_def u_simps split: option.splits)

lemma run_status:
  assumes "faultless out" "cid \<noteq> []" "kvget out (store w) (clock out (tick w)) (u ''claim:'' @ cid) = Some (VClaim c)"
  shows "run (wm_handle out) (wm_fetch env (statusRequest hs cid)) w =
    (Inr (withSecurityHeaders (jsonResponse (claimJson c) 200)), w\<lparr>tick := Suc (tick w)\<rparr>)"
proof -
  have "route env (statusRequest hs cid) = handleClaimStatus (statusRequest hs cid)"
    by (simp add: route_def statusRequest_def u_simps)
  then show ?thesis
    using assms
    by (simp add: wm_fetch_def handleClaimStatus_def statusRequest_def kvGetClaim_def run_simps faultless_def)
qed

definition paidText :: "ustring \<Rightarrow> content" where
  "paidText h = Markup (u ''Paid. <span class=\"mono\">tx '' @ take 12 h @ [8230] @ u ''</span>'')"

lemma paid_shown:
  assumes "status c = u ''paid''" "tx_hash c = Some h"
  shows "el_content (doc (perform (onPoll v n 200 (claimJson c)) p) EClaimStatus) = paidText h"
proof -
  have "slice12 (Some (JStr h)) = Inr (take 12 h)" by (simp add: slice12_def)
  then show ?thesis
    using assms
    by (simp add: onPoll_def claimJson_fields pollPaid_def setColor_def setContent_def onElem_def perform_def bindA_def
        liftA_def updA_def skip_def paidText_def)
qed

lemma poll_served:
  assumes "faultless out" "cid \<noteq> []" "encodeURIComponent cid = Inr q" "calls p = cs @ [PollCall q v n]"
    "kvget out (store w) (clock out (tick w)) (u ''claim:'' @ cid) = Some (VClaim c)" "claimPlain c"
    "status c = u ''paid''" "tx_hash c = Some h"
  shows "el_content (doc (fst (serveCall out env hs (length cs) (p, w))) EClaimStatus) = paidText h"
proof -
  have "serveCall out env hs (length cs) (p, w) =
      (perform (onPoll v n 200 (claimJson c)) (p\<lparr>calls := cs\<rparr>), w\<lparr>tick := Suc (tick w)\<rparr>)"
    using requestOf_poll [OF assms(3)] run_status [OF assms(1,2,5)] claimJson_arrives [OF assms(6)] assms(4)
    by (simp add: serveCall_def answer_def without_def)
  then show ?thesis using paid_shown [OF assms(7,8)] by simp
qed

section \<open>The claim is paid\<close>

text \<open>The keys that are listed are the keys with a value under the prefix, each once.\<close>

definition list_laws :: "'s payer \<Rightarrow> bool" where
  "list_laws P \<longleftrightarrow>
     (\<forall>s t p. distinct (kvkeys P s t p) \<and>
        set (kvkeys P s t p) = {k. startsWith p k \<and> kvget (kvs P) s t k \<noteq> None})"

definition claimKey :: "'s outside \<Rightarrow> 's world \<Rightarrow> ustring" where
  "claimKey out w = claimIdOf (entropy out (tick w + 2) 16)"

definition queueKey :: "'s outside \<Rightarrow> 's world \<Rightarrow> ustring" where
  "queueKey out w = u ''queue:'' @ natToString (clock out (tick w + 5)) @ u '':'' @ claimKey out w"

lemma colonless_claimKey: "58 \<notin> set (claimKey out w)"
proof -
  have "58 \<notin> set (hexByte y)" for y by (auto simp: hexByte_eq digitChar_def)
  then show ?thesis by (auto simp: claimKey_def claimIdOf_def hexOfBytes_def u_simps)
qed

lemma claimOf_queueKey: "claimOf (queueKey out w) = claimKey out w"
proof -
  have "\<forall>c \<in> set (rev (claimKey out w)). c \<noteq> 58" using colonless_claimKey [of out w] by auto
  then have "takeWhile (\<lambda>c. c \<noteq> 58) (rev (claimKey out w) @ rest) = rev (claimKey out w) @ takeWhile (\<lambda>c. c \<noteq> 58) rest" for rest
    by (intro takeWhile_append2) blast
  then show ?thesis by (simp add: claimOf_def queueKey_def u_simps)
qed

lemma claimedWorld_queue:
  fixes P :: "'s payer" and w :: "'s world"
  defines "out \<equiv> kvs P"
  assumes "faultless out" "kv_laws out" "supply_laws out" "list_laws P"
    "clock out (tick w + 20) < clock out (tick w) + 86400000" "kvkeys P (store w) (clock out (tick w + 7)) (u ''queue:'') = []"
  shows "kvkeys P (store (claimedWorld out sid rec addr w)) (clock out (tick w + 7)) (u ''queue:'') = [queueKey out w]"
proof -
  let ?w = "w\<lparr>tick := Suc (tick w)\<rparr>" and ?t = "clock out (tick w + 7)" and ?s = "store (claimedWorld out sid rec addr w)"
  note eq = run_claimRest_store [OF assms(2), of sid rec addr ?w]
  have sums: "Suc (tick w + 1) = tick w + 2" "Suc (tick w + 4) = tick w + 5" "Suc (tick w + 5) = tick w + 6" by simp_all
  note mono = clock_mono [OF assms(4)]
  have t: "clock out (tick w + 6) \<le> ?t" "?t < clock out (tick w + 6) + 86400000"
    using mono [of "tick w + 6" "tick w + 7"] mono [of "tick w + 7" "tick w + 20"] mono [of "tick w" "tick w + 6"] assms(6) by simp_all
  have get: "kvget out ?s ?t (u ''queue:'' @ k) =
      (if u ''queue:'' @ k = queueKey out w then Some (VText (claimKey out w)) else kvget out (store w) ?t (u ''queue:'' @ k))" for k
    using kv_get_put [OF assms(3)] t unfolding claimedWorld_def eq by (simp add: queueKey_def claimKey_def sums)
  have none: "kvget out (store w) ?t (u ''queue:'' @ k) = None" for k
  proof -
    have "u ''queue:'' @ k \<notin> set (kvkeys P (store w) ?t (u ''queue:''))" using assms(7) by simp
    then show ?thesis using assms(5) by (auto simp: list_laws_def out_def)
  qed
  have "set (kvkeys P ?s ?t (u ''queue:'')) = {k. startsWith (u ''queue:'') k \<and> kvget out ?s ?t k \<noteq> None}"
    using assms(5) by (simp add: list_laws_def out_def)
  also have "\<dots> = {queueKey out w}"
    using get none by (auto simp: startsWith_iff queueKey_def split: if_splits)
  finally have "set (kvkeys P ?s ?t (u ''queue:'')) = {queueKey out w}" .
  moreover have "distinct (kvkeys P ?s ?t (u ''queue:''))" using assms(5) by (simp add: list_laws_def)
  ultimately show ?thesis by (cases "kvkeys P ?s ?t (u ''queue:'')") (auto simp: subset_singleton_iff)
qed

text \<open>The daemon finds the claim in the queue, pays it and takes it off the queue.\<close>

lemma queue_paid:
  fixes P :: "'s payer" and w :: "'s world"
  assumes "storage_up P" "kvkeys P (store w) (clock (kvs P) (tick w)) (u ''queue:'') = [qkey]"
    "kvget (kvs P) (store w) (clock (kvs P) (tick w + 1)) (u ''claim:'' @ claimOf qkey) = Some (VClaim c)"
    "status c = u ''pending''" "M \<le> amount_atomic c"
    "transferAt P (tick w + 2) (claimOf qkey) (amount_atomic c) (claim_address c) = RpcResult x"
  shows "run (pd_handle P) (process_claims M) (w, l) =
    (Inr (), w\<lparr>store := kvdel P (kvput (kvs P) (store w) (clock (kvs P) (tick w + 3)) (u ''claim:'' @ claimOf qkey)
        (VClaim (paidClaim x c)) 86400) (clock (kvs P) (tick w + 4)) qkey, tick := tick w + 5\<rparr>,
     l @ [(claimOf qkey, amount_atomic c, claim_address c)])"
proof -
  let ?w = "w\<lparr>tick := Suc (tick w)\<rparr>"
  have "run (pd_handle P) (process_claim M qkey) (?w, l) =
    (Inr (), ?w\<lparr>store := kvdel P (kvput (kvs P) (store ?w) (clock (kvs P) (tick ?w + 2)) (u ''claim:'' @ claimOf qkey)
        (VClaim (paidClaim x c)) 86400) (clock (kvs P) (tick ?w + 3)) qkey, tick := tick ?w + 4\<rparr>,
     l @ [(claimOf qkey, amount_atomic c, claim_address c)])"
    using assms(3-6) by (intro run_paid [OF assms(1)]) (simp_all add: tick_sums)
  then show ?thesis
    using assms(2) by (simp add: process_claims_def run_bindP run_storage [OF assms(1)] tick_sums)
qed

lemma claimPlain_paid:
  assumes "addressPattern addr" "fl r = r" "0 \<le> r" "r \<le> 1" "t \<le> 2 ^ 53"
    "\<forall>h. res_tx_hash x = Some h \<longrightarrow> (\<forall>c \<in> set h. c < 65536)" "\<forall>f. res_fee x = Some f \<longrightarrow> \<bar>f\<bar> \<le> 2 ^ 53"
  shows "claimPlain (paidClaim x (pendingClaim addr r t))"
proof -
  have "\<bar>mathFloor (jsMul r (10 ^ 12))\<bar> \<le> 2 ^ 53" using amount_atomic_bounds [OF assms(3,4)] by simp
  then show ?thesis
    using assms isDouble_unit [OF assms(2-4)]
    by (cases "res_tx_hash x"; cases "res_fee x") (simp_all add: claimPlain_def paidClaim_def pendingClaim_def u_simps)
qed

text \<open>The click, the worker's answer to the claim, one look at the queue, the worker's answer to the poll.\<close>

definition claimRound :: "'s payer \<Rightarrow> wm_env \<Rightarrow> (ustring \<times> ustring) list \<Rightarrow> int \<Rightarrow> page \<Rightarrow> 's world \<Rightarrow> ledger \<Rightarrow> page \<times> 's world \<times> ledger"
  where
  "claimRound P env hs M p w l =
     (let (p1, w1) = serveCall (kvs P) env hs (length (calls p)) (page_step (Click EClaimBtn) p, w);
          (w2, l2) = snd (run (pd_handle P) (process_claims M) (w1, l));
          (p3, w3) = serveCall (kvs P) env hs (length (calls p)) (p1, w2)
      in (p3, w3, l2))"

definition readyToClaim :: "'s outside \<Rightarrow> ustring \<Rightarrow> session \<Rightarrow> ustring \<Rightarrow> page \<Rightarrow> 's world \<Rightarrow> bool" where
  "readyToClaim out sid rec addr p w \<longleftrightarrow>
     usable p EClaimBtn \<and> el_data (doc p EClaimBtn) (u ''token'') = Some sid \<and>
     trim (el_value (doc p EClaimAddress)) = addr \<and> addressPattern addr \<and>
     sid \<noteq> [] \<and> (\<forall>c \<in> set sid. c < 65536) \<and>
     kvget out (store w) (clock out (tick w)) (u ''session:'' @ sid) = Some (VSession rec) \<and> won rec \<and> \<not> claimed rec \<and>
     fl (reward rec) = reward rec \<and> 0 \<le> reward rec \<and> reward rec \<le> 1"

lemma page_paid:
  fixes P :: "'s payer" and w :: "'s world" and rec :: session and addr :: ustring
  defines "out \<equiv> kvs P"
  defines "c \<equiv> pendingClaim addr (reward rec) (clock out (tick w + 3))"
  assumes laws: "faultless out" "kv_laws out" "supply_laws out" "storage_up P" "delete_laws P" "list_laws P"
    and ready: "readyToClaim out sid rec addr p w"
    and times: "clock out (tick w + 20) < clock out (tick w) + 86400000" "clock out (tick w + 3) \<le> 2 ^ 53"
    and queue: "kvkeys P (store w) (clock out (tick w + 7)) (u ''queue:'') = []"
    and pays: "M \<le> amount_atomic c" "transferAt P (tick w + 9) (claimKey out w) (amount_atomic c) addr = RpcResult x"
    and result: "res_tx_hash x = Some h" "\<forall>c \<in> set h. c < 65536" "\<forall>f. res_fee x = Some f \<longrightarrow> \<bar>f\<bar> \<le> 2 ^ 53"
  shows "\<exists>p' w'. claimRound P env hs M p w l = (p', w', l @ [(claimKey out w, amount_atomic c, addr)]) \<and>
    el_content (doc p' EClaimStatus) = paidText h"
proof -
  note r = ready [unfolded readyToClaim_def]
  let ?cs = "calls p" and ?w1 = "claimedWorld out sid rec addr w"
  obtain d where d: "page_step (Click EClaimBtn) p =
      p\<lparr>storage := (storage p)(ADDRESS_KEY \<mapsto> addr), doc := d, calls := ?cs @ [ClaimCall (Some sid) addr]\<rparr>" (is "_ = ?p0")
    using claim_clicked [of p] r by auto
  have calls0: "calls ?p0 = ?cs @ [ClaimCall (Some sid) addr]" by simp
  obtain d1 q where q: "encodeURIComponent (claimKey out w) = Inr q" and s1: "serveCall out env hs (length ?cs) (?p0, w) =
      (?p0\<lparr>doc := d1, calls := ?cs @ [PollCall q (Some (JStr (claimKey out w))) 1]\<rparr>, ?w1)" (is "_ = (?p1, _)")
    using claim_served [OF laws(1) _ _ _ _ _ _ calls0, where env = env and hs = hs and w = w and rec = rec] r unfolding claimKey_def by blast
  have tick1: "tick ?w1 = tick w + 7" by (rule claimedWorld_reads(1) [OF laws(1-3) times(1), of "tick w + 7"]) simp_all
  have claim1: "kvget out (store ?w1) (clock out (tick ?w1 + 1)) (u ''claim:'' @ claimKey out w) = Some (VClaim c)"
    unfolding tick1 claimKey_def c_def by (rule claimedWorld_reads(2) [OF laws(1-3) times(1)]) simp_all
  let ?qk = "queueKey out w"
  have list1: "kvkeys P (store ?w1) (clock out (tick ?w1)) (u ''queue:'') = [?qk]"
    unfolding tick1 unfolding out_def by (rule claimedWorld_queue) (use laws times queue in \<open>simp_all add: out_def\<close>)
  let ?put = "kvput out (store ?w1) (clock out (tick ?w1 + 3)) (u ''claim:'' @ claimKey out w) (VClaim (paidClaim x c)) 86400"
  let ?w2 = "?w1\<lparr>store := kvdel P ?put (clock out (tick ?w1 + 4)) ?qk, tick := tick ?w1 + 5\<rparr>"
  have fields: "status c = u ''pending''" "claim_address c = addr" by (simp_all add: c_def pendingClaim_def)
  have s2: "run (pd_handle P) (process_claims M) (?w1, l) = (Inr (), ?w2, l @ [(claimKey out w, amount_atomic c, addr)])"
    using queue_paid [OF laws(4), of ?w1 ?qk c M x l] list1 claim1 pays fields tick1
    by (simp add: claimOf_queueKey out_def add.commute [of "tick w"])
  have "?qk \<noteq> u ''claim:'' @ claimKey out w" by (simp add: queueKey_def)
  then have "kvget out (store ?w2) t (u ''claim:'' @ claimKey out w) = kvget out ?put t (u ''claim:'' @ claimKey out w)" for t
    using laws(5) by (simp add: delete_laws_def out_def)
  moreover have "kvget out ?put (clock out (tick ?w2)) (u ''claim:'' @ claimKey out w) = Some (VClaim (paidClaim x c))"
  proof (rule kv_get_put(1) [OF laws(2)])
    show "clock out (tick ?w1 + 3) \<le> clock out (tick ?w2)" by (rule clock_mono [OF laws(3)]) simp
    show "clock out (tick ?w2) < clock out (tick ?w1 + 3) + 1000 * 86400"
      using clock_mono [OF laws(3), of "tick w" "tick w + 10"] clock_mono [OF laws(3), of "tick w + 12" "tick w + 20"] times(1) tick1
      by (simp add: add.commute [of "tick w"])
  qed
  ultimately have stored: "kvget out (store ?w2) (clock out (tick ?w2)) (u ''claim:'' @ claimKey out w) = Some (VClaim (paidClaim x c))" by simp
  have plain: "claimPlain (paidClaim x c)"
    unfolding c_def using r result times(2) by (intro claimPlain_paid) auto
  have paid: "status (paidClaim x c) = u ''paid''" "tx_hash (paidClaim x c) = Some h" using result(1) by (simp_all add: paidClaim_def)
  have "calls ?p1 = ?cs @ [PollCall q (Some (JStr (claimKey out w))) 1]" by simp
  from poll_served [OF laws(1) _ q this stored plain paid, of env hs]
  have "el_content (doc (fst (serveCall out env hs (length ?cs) (?p1, ?w2))) EClaimStatus) = paidText h"
    by (simp add: claimKey_def claimIdOf_def u_simps)
  moreover obtain p' w' where "serveCall out env hs (length ?cs) (?p1, ?w2) = (p', w')" by fastforce
  ultimately show ?thesis using d s1 s2 by (simp add: claimRound_def out_def)
qed

end
