(* ===== verification/Payout_Once.thy ===== *)
theory Payout_Once
  imports Payout_Daemon
begin

text \<open>
  The worker and the payout daemon on one namespace: requests are served and the daemon makes its
  turns, one after the other in any order. As long as the storage API answers, no claim is ever
  given to the wallet twice, and what is given to it are amounts of at most one coin to well-formed
  addresses.
\<close>

declare u_simps [simp del]

section \<open>What a request does to the claims\<close>

text \<open>From one world to a later one, claims only appear under identifiers drawn in between.\<close>

definition claimsGrow :: "'s outside \<Rightarrow> 's world \<Rightarrow> 's world \<Rightarrow> bool" where
  "claimsGrow out w w' \<longleftrightarrow>
     tick w \<le> tick w' \<and>
     (\<forall>t cid. clock out (tick w') \<le> t \<longrightarrow>
        kvget out (store w') t (u ''claim:'' @ cid) = kvget out (store w) t (u ''claim:'' @ cid) \<or>
        (\<exists>m. tick w \<le> m \<and> m < tick w' \<and> cid = claimIdOf (entropy out m 16)))"

lemma claimsGrow_trans:
  assumes "supply_laws out" "claimsGrow out w v" "claimsGrow out v x"
  shows "claimsGrow out w x"
  unfolding claimsGrow_def
proof (intro conjI allI impI)
  show "tick w \<le> tick x" using assms(2,3) by (simp add: claimsGrow_def)
  fix t cid assume t: "clock out (tick x) \<le> t"
  have "clock out (tick v) \<le> t" using t assms(3) clock_mono [OF assms(1), of "tick v" "tick x"] by (simp add: claimsGrow_def)
  then consider "kvget out (store v) t (u ''claim:'' @ cid) = kvget out (store w) t (u ''claim:'' @ cid)"
    | m where "tick w \<le> m" "m < tick v" "cid = claimIdOf (entropy out m 16)"
    using assms(2) by (auto simp: claimsGrow_def)
  then show "kvget out (store x) t (u ''claim:'' @ cid) = kvget out (store w) t (u ''claim:'' @ cid) \<or>
      (\<exists>m. tick w \<le> m \<and> m < tick x \<and> cid = claimIdOf (entropy out m 16))"
  proof cases
    case 1
    have "kvget out (store x) t (u ''claim:'' @ cid) = kvget out (store v) t (u ''claim:'' @ cid) \<or>
        (\<exists>m. tick v \<le> m \<and> m < tick x \<and> cid = claimIdOf (entropy out m 16))"
      using t assms(3) unfolding claimsGrow_def by blast
    moreover have "tick w \<le> tick v" using assms(2) by (simp add: claimsGrow_def)
    ultimately show ?thesis using 1 by (metis order_trans)
  next
    case 2
    moreover have "tick v \<le> tick x" using assms(3) by (simp add: claimsGrow_def)
    ultimately show ?thesis by (intro disjI2 exI [of _ m]) simp
  qed
qed

lemma claimsGrow_quiet: "tick w \<le> n \<Longrightarrow> claimsGrow out w (w\<lparr>tick := n\<rparr>)"
  by (simp add: claimsGrow_def)

definition growing :: "'s outside \<Rightarrow> 'a wm \<Rightarrow> bool" where
  "growing out p \<longleftrightarrow> (\<forall>w x w'. run (wm_handle out) p w = (x, w') \<longrightarrow> claimsGrow out w w')"

named_theorems grows \<open>programs under which claims only grow\<close>

lemma growing_simple [grows]: "growing out (Ret x)" "growing out (Throw e)" "growing out (liftR r)"
  by (auto simp: growing_def claimsGrow_def run_liftR)

lemma growing_bindP [grows]:
  assumes "supply_laws out" "growing out p" "\<And>x. growing out (f x)"
  shows "growing out (bindP p f)"
  unfolding growing_def
proof (intro allI impI)
  fix w x w' assume r: "run (wm_handle out) (bindP p f) w = (x, w')"
  obtain y v where y: "run (wm_handle out) p w = (y, v)" by fastforce
  then have v: "claimsGrow out w v" using assms(2) by (simp add: growing_def)
  show "claimsGrow out w w'"
  proof (cases y)
    case (Inl e)
    then show ?thesis using r y v by (simp add: run_bindP)
  next
    case (Inr z)
    then have "claimsGrow out v w'" using r y assms(3) by (simp add: run_bindP growing_def)
    then show ?thesis using claimsGrow_trans [OF assms(1) v] by simp
  qed
qed

lemma growing_reads [grows]:
  "growing out (kvGet k)" "growing out dateNow" "growing out mathRandom" "growing out (getRandomValues n)"
  "growing out (siteVerify s t i)" "growing out (assetsFetch req)"
  by (auto simp: growing_def run_simps siteVerify_def assetsFetch_def wm_remote_def claimsGrow_def
      split: option.splits sum.splits)

lemma growing_put [grows]:
  assumes "kv_laws out" "\<not> startsWith (u ''claim:'') k"
  shows "growing out (kvPut k v ttl)"
proof -
  have "u ''claim:'' @ cid \<noteq> k" for cid using assms(2) by (auto simp: startsWith_iff)
  then show ?thesis
    using kv_get_put(2) [OF assms(1)] by (auto simp: growing_def run_simps claimsGrow_def split: option.splits)
qed

lemma growing_typed [grows]:
  assumes "supply_laws out"
  shows "growing out (kvGetSession k)" "growing out (kvGetClaim k)" "growing out (kvGetFaucet k)" "growing out (kvGetText k)"
  unfolding kvGetSession_def kvGetClaim_def kvGetFaucet_def kvGetText_def
  by (rule growing_bindP [OF assms growing_reads(1)], simp add: grows split: option.splits kvval.splits)+

lemma growing_new_claim:
  fixes out :: "'s outside"
  assumes "kv_laws out" "supply_laws out" "\<And>c n. growing out (g c n)"
  shows "growing out (bindP (newId (u ''c_'')) (\<lambda>claimId. bindP dateNow (\<lambda>now.
    bindP (kvPut (u ''claim:'' @ claimId) (f claimId now) ttl) (\<lambda>_. g claimId now))))"
  unfolding growing_def
proof (intro allI impI)
  fix w w' :: "'s world" and x
  let ?id = "claimIdOf (entropy out (tick w) 16)" and ?now = "clock out (Suc (tick w))" and ?n = "Suc (Suc (tick w))"
  let ?v = "w\<lparr>store := kvput out (store w) (clock out ?n) (u ''claim:'' @ ?id) (f ?id ?now) ttl, tick := Suc ?n\<rparr>"
  assume r: "run (wm_handle out) (bindP (newId (u ''c_'')) (\<lambda>claimId. bindP dateNow (\<lambda>now.
    bindP (kvPut (u ''claim:'' @ claimId) (f claimId now) ttl) (\<lambda>_. g claimId now)))) w = (x, w')"
  show "claimsGrow out w w'"
  proof (cases "fault out ?n")
    case None
    then have "run (wm_handle out) (g ?id ?now) ?v = (x, w')"
      using r by (simp add: newId_def run_simps claimIdOf_def)
    then have "claimsGrow out ?v w'" using assms(3) by (simp add: growing_def)
    moreover have "claimsGrow out w ?v"
      unfolding claimsGrow_def
    proof (intro conjI allI impI)
      fix t cid
      show "kvget out (store ?v) t (u ''claim:'' @ cid) = kvget out (store w) t (u ''claim:'' @ cid) \<or>
          (\<exists>m. tick w \<le> m \<and> m < tick ?v \<and> cid = claimIdOf (entropy out m 16))"
        using kv_get_put(2) [OF assms(1)] by (cases "cid = ?id") (auto intro!: exI [of _ "tick w"])
    qed simp
    ultimately show ?thesis using claimsGrow_trans [OF assms(2)] by blast
  next
    case (Some e)
    then have "w' = w\<lparr>tick := Suc ?n\<rparr>" using r by (auto simp: newId_def run_simps)
    then show ?thesis by (simp add: claimsGrow_quiet)
  qed
qed

lemma growing_handlers:
  assumes "kv_laws out" "supply_laws out"
  shows "growing out (handleStart env req)" "growing out (handleGuess req)" "growing out (handleClaim req)"
    "growing out (handleClaimStatus req)" "growing out (handleFaucet env)"
proof -
  note rules = grows growing_bindP [OF assms(2)] growing_typed [OF assms(2)] growing_put [OF assms(1)]
  have keys: "\<not> startsWith (u ''claim:'') (u ''session:'' @ x)" "\<not> startsWith (u ''claim:'') (u ''ratelimit:'' @ x)"
    "\<not> startsWith (u ''claim:'') (u ''queue:'' @ x)" for x
    by (auto simp: startsWith_iff u_simps)
  have balance: "growing out getFaucetBalance"
    by (simp add: getFaucetBalance_def Let_def rules split: option.splits)
  have verify: "growing out (verifyTurnstile tok sec ip)" for tok sec ip
    by (simp add: verifyTurnstile_def rules split: option.splits)
  have new: "growing out (newId x)" for x by (simp add: newId_def rules)
  have graded: "growing out (recordGuess tok (u ''session:'' @ sid) rec g)" for tok sid rec g
    by (simp add: recordGuess_def Let_def rules keys balance split: prod.splits)
  have enqueue: "growing out (enqueueClaim a r)" for a r
    unfolding enqueueClaim_def Let_def
    by (rule growing_new_claim [OF assms]) (simp add: rules keys)
  show "growing out (handleStart env req)"
    by (simp add: handleStart_def cooldownLeft_def startSession_def Let_def rules keys verify new split: option.splits)
  show "growing out (handleGuess req)"
    by (simp add: handleGuess_def Let_def rules graded split: option.splits)
  show "growing out (handleClaim req)"
    by (simp add: handleClaim_def Let_def rules keys enqueue split: option.splits)
  show "growing out (handleClaimStatus req)"
    by (simp add: handleClaimStatus_def rules split: option.splits)
  show "growing out (handleFaucet env)"
    by (simp add: handleFaucet_def rules balance split: prod.splits)
qed

lemma request_grows:
  assumes "kv_laws out" "supply_laws out" "run (wm_handle out) (wm_fetch env req) w = (x, w')"
  shows "claimsGrow out w w'"
proof -
  have "growing out (route env req)" by (simp add: route_def growing_handlers [OF assms(1,2)] grows)
  then have "growing out (wm_fetch env req)" by (simp add: wm_fetch_def growing_bindP [OF assms(2)] grows)
  then show ?thesis using assms(3) by (simp add: growing_def)
qed

section \<open>The invariant\<close>

definition drawnId :: "'s payer \<Rightarrow> nat \<Rightarrow> ustring" where
  "drawnId P n = claimIdOf (entropy (kvs P) n 16)"

text \<open>The claim that is being paid, if any, is excepted.\<close>

definition settledIn :: "'s payer \<Rightarrow> ustring set \<Rightarrow> 's world \<Rightarrow> ledger \<Rightarrow> bool" where
  "settledIn P X w l \<longleftrightarrow>
     (\<forall>cid \<in> fst ` set l - X. \<forall>t \<ge> clock (kvs P) (tick w). \<forall>c.
        kvget (kvs P) (store w) t (u ''claim:'' @ cid) = Some (VClaim c) \<longrightarrow> status c \<noteq> u ''pending'')"

definition freshIn :: "'s payer \<Rightarrow> nat \<Rightarrow> 's world \<Rightarrow> ledger \<Rightarrow> bool" where
  "freshIn P N w l \<longleftrightarrow>
     (\<forall>n \<ge> tick w. n < N \<longrightarrow> drawnId P n \<notin> fst ` set l \<and>
        (\<forall>t \<ge> clock (kvs P) (tick w). kvget (kvs P) (store w) t (u ''claim:'' @ drawnId P n) = None))"

definition ledgerOk :: "int \<Rightarrow> ledger \<Rightarrow> bool" where
  "ledgerOk MIN_PAYOUT l \<longleftrightarrow>
     distinct (map fst l) \<and>
     (\<forall>(cid, x, a) \<in> set l. MIN_PAYOUT \<le> x \<and> x \<le> 10 ^ 12 \<and> addressPattern a)"

definition onceInv :: "'s payer \<Rightarrow> nat \<Rightarrow> int \<Rightarrow> ustring set \<Rightarrow> 's world \<times> ledger \<Rightarrow> bool" where
  "onceInv P N MIN_PAYOUT X wl \<longleftrightarrow>
     (case wl of (w, l) \<Rightarrow>
        store_ok (kvs P) anySession (store w) (clock (kvs P) (tick w)) \<and> settledIn P X w l \<and> freshIn P N w l \<and>
        ledgerOk MIN_PAYOUT l)"

text \<open>
  The storage answers as documented, the wallet's errors have a message, and the identifiers drawn
  with the first \<open>N\<close> effects differ: sixteen random bytes are not repeated within the horizon \<open>N\<close>,
  which is at most \<open>2 ^ 128\<close>.
\<close>

definition payer_ok :: "'s payer \<Rightarrow> nat \<Rightarrow> bool" where
  "payer_ok P N \<longleftrightarrow>
     storage_up P \<and> kv_laws (kvs P) \<and> supply_laws (kvs P) \<and> delete_laws P \<and>
     (\<forall>n cid x a. transferAt P n cid x a \<noteq> RpcError (Some [])) \<and>
     (\<forall>n < N. \<forall>m < n. entropy (kvs P) m 16 \<noteq> entropy (kvs P) n 16)"

lemma payer_okD:
  assumes "payer_ok P N"
  shows "storage_up P" "kv_laws (kvs P)" "supply_laws (kvs P)" "delete_laws P"
    "transferAt P n cid x a \<noteq> RpcError (Some [])" "i < j \<Longrightarrow> j < N \<Longrightarrow> drawnId P i \<noteq> drawnId P j"
  using assms by (auto simp: payer_ok_def drawnId_def claimIdOf_inject)

lemma clock_Suc: "payer_ok P N \<Longrightarrow> clock (kvs P) n \<le> clock (kvs P) (Suc n)"
  by (rule clock_mono [OF payer_okD(3)]) simp_all

lemma settledInD:
  "settledIn P X w l \<Longrightarrow> cid \<in> fst ` set l \<Longrightarrow> cid \<notin> X \<Longrightarrow> clock (kvs P) (tick w) \<le> t \<Longrightarrow>
    kvget (kvs P) (store w) t (u ''claim:'' @ cid) = Some (VClaim c) \<Longrightarrow> status c \<noteq> u ''pending''"
  unfolding settledIn_def by blast

lemma freshInD:
  "freshIn P N w l \<Longrightarrow> tick w \<le> n \<Longrightarrow> n < N \<Longrightarrow> drawnId P n \<notin> fst ` set l"
  "freshIn P N w l \<Longrightarrow> tick w \<le> n \<Longrightarrow> n < N \<Longrightarrow> clock (kvs P) (tick w) \<le> t \<Longrightarrow>
    kvget (kvs P) (store w) t (u ''claim:'' @ drawnId P n) = None"
  unfolding freshIn_def by blast+

lemma onceInv_parts:
  "onceInv P N M X (w, l) \<longleftrightarrow>
     store_ok (kvs P) anySession (store w) (clock (kvs P) (tick w)) \<and> settledIn P X w l \<and> freshIn P N w l \<and> ledgerOk M l"
  by (simp add: onceInv_def)

text \<open>A step after which each claim is as it was or gone.\<close>

lemma onceInv_next:
  assumes "payer_ok P N" "onceInv P N M X (w, l)" "tick w \<le> tick w'"
    "store_ok (kvs P) anySession (store w') (clock (kvs P) (tick w'))"
    "\<And>t cid. kvget (kvs P) (store w') t (u ''claim:'' @ cid) = None \<or>
       kvget (kvs P) (store w') t (u ''claim:'' @ cid) = kvget (kvs P) (store w) t (u ''claim:'' @ cid)"
  shows "onceInv P N M X (w', l)"
proof -
  have inv: "settledIn P X w l" "freshIn P N w l" "ledgerOk M l" using assms(2) by (simp_all add: onceInv_parts)
  have later: "clock (kvs P) (tick w) \<le> t" if "clock (kvs P) (tick w') \<le> t" for t
    using that clock_mono [OF payer_okD(3) [OF assms(1)] assms(3)] by (rule order_trans [rotated])
  have "settledIn P X w' l"
    unfolding settledIn_def
  proof (intro ballI allI impI)
    fix cid t c
    assume cid: "cid \<in> fst ` set l - X" and t: "clock (kvs P) (tick w') \<le> t"
      and get: "kvget (kvs P) (store w') t (u ''claim:'' @ cid) = Some (VClaim c)"
    have "kvget (kvs P) (store w) t (u ''claim:'' @ cid) = Some (VClaim c)" using get assms(5) [of t cid] by simp
    then show "status c \<noteq> u ''pending''" using settledInD [OF inv(1) _ _ later [OF t]] cid by blast
  qed
  moreover have "freshIn P N w' l"
    unfolding freshIn_def
  proof (intro allI impI conjI)
    fix n assume n: "tick w' \<le> n" "n < N"
    then show "drawnId P n \<notin> fst ` set l" using freshInD(1) [OF inv(2), of n] assms(3) by simp
    fix t assume t: "clock (kvs P) (tick w') \<le> t"
    have "kvget (kvs P) (store w) t (u ''claim:'' @ drawnId P n) = None"
      using n assms(3) by (intro freshInD(2) [OF inv(2) _ _ later [OF t]]) simp
    then show "kvget (kvs P) (store w') t (u ''claim:'' @ drawnId P n) = None" using assms(5) [of t "drawnId P n"] by simp
  qed
  ultimately show ?thesis using assms(4) inv(3) by (simp add: onceInv_parts)
qed

lemma onceInv_tick: "payer_ok P N \<Longrightarrow> onceInv P N M X (w, l) \<Longrightarrow> onceInv P N M X (w\<lparr>tick := Suc (tick w)\<rparr>, l)"
  by (rule onceInv_next [of P N M X w l "w\<lparr>tick := Suc (tick w)\<rparr>"])
    (auto simp: onceInv_parts intro: store_ok_later [OF _ clock_Suc])

lemma onceInv_delete:
  assumes "payer_ok P N" "onceInv P N M X (w, l)"
  shows "onceInv P N M X (w\<lparr>store := kvdel P (store w) (clock (kvs P) (tick w)) k, tick := Suc (tick w)\<rparr>, l)"
proof (rule onceInv_next [OF assms])
  let ?s = "kvdel P (store w) (clock (kvs P) (tick w)) k"
  have del: "kvget (kvs P) ?s t k' = (if k' = k then None else kvget (kvs P) (store w) t k')" for t k'
    using payer_okD(4) [OF assms(1)] by (simp add: delete_laws_def)
  show "store_ok (kvs P) anySession (store (w\<lparr>store := ?s, tick := Suc (tick w)\<rparr>))
      (clock (kvs P) (tick (w\<lparr>store := ?s, tick := Suc (tick w)\<rparr>)))"
    using assms(2) clock_Suc [OF assms(1), of "tick w"] unfolding onceInv_parts store_ok_def
    by (simp add: del) (meson order_trans)
  show "kvget (kvs P) (store (w\<lparr>store := ?s, tick := Suc (tick w)\<rparr>)) t (u ''claim:'' @ cid) = None \<or>
      kvget (kvs P) (store (w\<lparr>store := ?s, tick := Suc (tick w)\<rparr>)) t (u ''claim:'' @ cid) =
        kvget (kvs P) (store w) t (u ''claim:'' @ cid)" for t cid
    by (simp add: del)
qed simp

text \<open>A claim that is stored is not under an identifier still to be drawn.\<close>

definition oldId :: "'s payer \<Rightarrow> nat \<Rightarrow> nat \<Rightarrow> ustring \<Rightarrow> bool" where
  "oldId P N n cid \<longleftrightarrow> (\<forall>m \<ge> n. m < N \<longrightarrow> drawnId P m \<noteq> cid)"

lemma oldId_stored:
  assumes "onceInv P N M X (w, l)" "kvget (kvs P) (store w) (clock (kvs P) (tick w)) (u ''claim:'' @ cid) = Some v"
  shows "oldId P N (tick w) cid"
  unfolding oldId_def
proof (intro allI impI notI)
  fix m assume "tick w \<le> m" "m < N" "drawnId P m = cid"
  then show False using freshInD(2) [of P N w l m "clock (kvs P) (tick w)"] assms by (simp add: onceInv_parts)
qed

lemma oldId_Suc: "oldId P N n cid \<Longrightarrow> oldId P N (Suc n) cid"
  by (simp add: oldId_def)

lemma onceInv_settle:
  assumes "payer_ok P N" "onceInv P N M X (w, l)" "X \<subseteq> {cid}" "status c \<noteq> u ''pending''" "claim_ok c" "oldId P N (tick w) cid"
  shows "onceInv P N M {} (w\<lparr>store := kvput (kvs P) (store w) (clock (kvs P) (tick w)) (u ''claim:'' @ cid) (VClaim c) ttl,
    tick := Suc (tick w)\<rparr>, l)"
proof -
  let ?w = "w\<lparr>store := kvput (kvs P) (store w) (clock (kvs P) (tick w)) (u ''claim:'' @ cid) (VClaim c) ttl, tick := Suc (tick w)\<rparr>"
  have inv: "store_ok (kvs P) anySession (store w) (clock (kvs P) (tick w))" "settledIn P X w l" "freshIn P N w l" "ledgerOk M l"
    using assms(2) by (simp_all add: onceInv_parts)
  note laws = payer_okD(2) [OF assms(1)] and mono = clock_Suc [OF assms(1), of "tick w"]
  have get: "kvget (kvs P) (store ?w) t (u ''claim:'' @ i) = kvget (kvs P) (store w) t (u ''claim:'' @ i)" if "i \<noteq> cid" for t i
    using that kv_get_put(2) [OF laws] by simp
  have put: "kvget (kvs P) (store ?w) t (u ''claim:'' @ cid) \<in> {None, Some (VClaim c)}" if "clock (kvs P) (tick w) \<le> t" for t
    using that laws by (simp add: kv_laws_def)
  have "typed anySession (u ''claim:'' @ cid) (VClaim c)" using assms(5) by simp
  then have "store_ok (kvs P) anySession (store ?w) (clock (kvs P) (tick ?w))"
    using store_ok_later [OF store_ok_put [OF laws inv(1)] mono] by simp
  moreover have "settledIn P {} ?w l"
    unfolding settledIn_def
  proof (intro ballI allI impI)
    fix i t d
    assume i: "i \<in> fst ` set l - {}" and t: "clock (kvs P) (tick ?w) \<le> t"
      and d: "kvget (kvs P) (store ?w) t (u ''claim:'' @ i) = Some (VClaim d)"
    have t': "clock (kvs P) (tick w) \<le> t" using t mono by simp
    show "status d \<noteq> u ''pending''"
    proof (cases "i = cid")
      case True
      then show ?thesis using put [OF t'] d assms(4) by auto
    next
      case False
      then show ?thesis using settledInD [OF inv(2) _ _ t'] i d get [OF False] assms(3) by auto
    qed
  qed
  moreover have "freshIn P N ?w l"
    unfolding freshIn_def
  proof (intro allI impI conjI)
    fix n assume n: "tick ?w \<le> n" "n < N"
    then show "drawnId P n \<notin> fst ` set l" using freshInD(1) [OF inv(3), of n] by simp
    fix t assume "clock (kvs P) (tick ?w) \<le> t"
    then have "clock (kvs P) (tick w) \<le> t" using mono by simp
    moreover have "drawnId P n \<noteq> cid" using assms(6) n by (simp add: oldId_def)
    ultimately show "kvget (kvs P) (store ?w) t (u ''claim:'' @ drawnId P n) = None"
      using freshInD(2) [OF inv(3), of n t] n get by simp
  qed
  ultimately show ?thesis using inv(4) by (simp add: onceInv_parts)
qed

lemma onceInv_transfer:
  assumes "onceInv P N M {} (w, l)" "kvget (kvs P) (store w) (clock (kvs P) (tick w)) (u ''claim:'' @ cid) = Some (VClaim c)"
    "status c = u ''pending''" "M \<le> amount_atomic c"
  shows "onceInv P N M {cid} (w, l @ [(cid, amount_atomic c, claim_address c)])"
proof -
  have inv: "store_ok (kvs P) anySession (store w) (clock (kvs P) (tick w))" "settledIn P {} w l" "freshIn P N w l" "ledgerOk M l"
    using assms(1) by (simp_all add: onceInv_parts)
  have "typed anySession (u ''claim:'' @ cid) (VClaim c)" using inv(1) assms(2) unfolding store_ok_def by blast
  then have ok: "claim_ok c" by simp
  have new: "cid \<notin> fst ` set l" using settledInD [OF inv(2) _ _ _ assms(2)] assms(3) by auto
  have "ledgerOk M (l @ [(cid, amount_atomic c, claim_address c)])"
    using inv(4) new ok assms(4) by (auto simp: ledgerOk_def claim_ok_def)
  moreover have "settledIn P {cid} w (l @ [(cid, amount_atomic c, claim_address c)])"
    using inv(2) by (auto simp: settledIn_def)
  moreover have "freshIn P N w (l @ [(cid, amount_atomic c, claim_address c)])"
    using inv(3) oldId_stored [OF assms(1,2)] by (auto simp: freshIn_def oldId_def)
  ultimately show ?thesis using inv(1) by (simp add: onceInv_parts)
qed

section \<open>The daemon keeps the invariant\<close>

definition keepsOnce :: "'s payer \<Rightarrow> nat \<Rightarrow> int \<Rightarrow> 'a pd \<Rightarrow> bool" where
  "keepsOnce P N M p \<longleftrightarrow> (\<forall>wl. onceInv P N M {} wl \<longrightarrow> onceInv P N M {} (snd (run (pd_handle P) p wl)))"

lemma keepsOnce_D: "keepsOnce P N M p \<Longrightarrow> onceInv P N M {} wl \<Longrightarrow> onceInv P N M {} (snd (run (pd_handle P) p wl))"
  unfolding keepsOnce_def by blast

lemma keepsOnce_Ret: "keepsOnce P N M (Ret x)" "keepsOnce P N M (Throw e)"
  by (simp_all add: keepsOnce_def)

lemma keepsOnce_bindP:
  assumes "keepsOnce P N M p" "\<And>x. keepsOnce P N M (f x)"
  shows "keepsOnce P N M (bindP p f)"
  unfolding keepsOnce_def
proof (intro allI impI)
  fix wl assume wl: "onceInv P N M {} wl"
  obtain y v where y: "run (pd_handle P) p wl = (y, v)" by (cases "run (pd_handle P) p wl")
  then have "onceInv P N M {} v" using keepsOnce_D [OF assms(1) wl] by simp
  then show "onceInv P N M {} (snd (run (pd_handle P) (bindP p f) wl))"
    using keepsOnce_D [OF assms(2)] y by (cases y) (simp_all add: run_bindP)
qed

lemma keepsOnce_catchP:
  assumes "keepsOnce P N M p" "\<And>e. keepsOnce P N M (g e)"
  shows "keepsOnce P N M (catchP p g)"
  unfolding keepsOnce_def
proof (intro allI impI)
  fix wl assume wl: "onceInv P N M {} wl"
  obtain y v where y: "run (pd_handle P) p wl = (y, v)" by (cases "run (pd_handle P) p wl")
  then have "onceInv P N M {} v" using keepsOnce_D [OF assms(1) wl] by simp
  then show "onceInv P N M {} (snd (run (pd_handle P) (catchP p g) wl))"
    using keepsOnce_D [OF assms(2)] y by (cases y) (simp_all add: run_catchP)
qed

lemma keepsOnce_reads:
  assumes "payer_ok P N"
  shows "keepsOnce P N M wallet_balance" "keepsOnce P N M time_time" "keepsOnce P N M (kv_list p n)" "keepsOnce P N M (kv_delete k)"
  unfolding keepsOnce_def using onceInv_tick [OF assms] onceInv_delete [OF assms] run_storage [OF payer_okD(1) [OF assms]]
  by (auto simp: wallet_balance_def time_time_def)

lemma finish_claim_once:
  assumes "payer_ok P N" "onceInv P N M X (w, l)" "X \<subseteq> {claimOf qkey}" "status c \<noteq> u ''pending''" "claim_ok c"
    "oldId P N (tick w) (claimOf qkey)"
  shows "onceInv P N M {} (snd (run (pd_handle P) (finish_claim qkey c) (w, l)))"
  using onceInv_delete [OF assms(1) onceInv_settle [OF assms]] run_storage [OF payer_okD(1) [OF assms(1)]]
  by (simp add: finish_claim_def run_bindP)

lemma settled_claims:
  "status (failedClaim e c) \<noteq> u ''pending''" "status (paidClaim x c) \<noteq> u ''pending''"
  "claim_ok c \<Longrightarrow> claim_ok (failedClaim e c)" "claim_ok c \<Longrightarrow> claim_ok (paidClaim x c)"
  by (simp_all add: failedClaim_def paidClaim_def claim_ok_def u_simps)

lemma wallet_reply_cases:
  "r \<noteq> RpcError (Some []) \<Longrightarrow>
    (\<exists>e. wallet_reply r = (None, Some e) \<and> e \<noteq> []) \<or> (\<exists>x. wallet_reply r = (Some x, None))"
  by (cases r) (auto simp: wallet_reply_def u_simps split: option.splits)

text \<open>The payment of one pending claim, after it has been read.\<close>

definition payment :: "ustring \<Rightarrow> claim \<Rightarrow> unit pd" where
  "payment qkey c =
     bindP (wallet_transfer (claimOf qkey) (amount_atomic c) (claim_address c)) (\<lambda>(res, err).
       if errTruthy err then finish_claim qkey (failedClaim (the err) c)
       else case res of None \<Rightarrow> Throw TypeError | Some x \<Rightarrow> finish_claim qkey (paidClaim x c))"

lemma payment_once:
  assumes "payer_ok P N" "onceInv P N M {} (w, l)" "kvget (kvs P) (store w) (clock (kvs P) (tick w)) (u ''claim:'' @ claimOf qkey) = Some (VClaim c)"
    "status c = u ''pending''" "M \<le> amount_atomic c" "claim_ok c" "oldId P N (tick w) (claimOf qkey)"
  shows "onceInv P N M {} (snd (run (pd_handle P) (payment qkey c) (w\<lparr>tick := Suc (tick w)\<rparr>, l)))"
proof -
  let ?cid = "claimOf qkey" and ?w = "w\<lparr>tick := Suc (tick w)\<rparr>"
  let ?r = "transferAt P (tick ?w) ?cid (amount_atomic c) (claim_address c)"
  let ?l = "l @ [(?cid, amount_atomic c, claim_address c)]"
  have "onceInv P N M {?cid} (w, ?l)" by (rule onceInv_transfer [OF assms(2-5)])
  then have paid: "onceInv P N M {?cid} (?w\<lparr>tick := Suc (tick ?w)\<rparr>, ?l)"
    using onceInv_tick [OF assms(1) onceInv_tick [OF assms(1)]] by simp
  have old: "oldId P N (tick (?w\<lparr>tick := Suc (tick ?w)\<rparr>)) ?cid" using oldId_Suc [OF oldId_Suc [OF assms(7)]] by simp
  note finish = finish_claim_once [OF assms(1) paid subset_refl _ _ old]
  from wallet_reply_cases [OF payer_okD(5) [OF assms(1)]] show ?thesis
  proof (rule disjE)
    assume "\<exists>e. wallet_reply ?r = (None, Some e) \<and> e \<noteq> []"
    then show ?thesis
      using finish [OF settled_claims(1) settled_claims(3) [OF assms(6)]]
      by (auto simp: payment_def run_bindP run_transfer errTruthy_def)
  next
    assume "\<exists>x. wallet_reply ?r = (Some x, None)"
    then show ?thesis
      using finish [OF settled_claims(2) settled_claims(4) [OF assms(6)]]
      by (auto simp: payment_def run_bindP run_transfer errTruthy_def)
  qed
qed

lemma process_claim_once:
  assumes "payer_ok P N"
  shows "keepsOnce P N M (process_claim M qkey)"
  unfolding keepsOnce_def
proof (intro allI impI)
  fix wl assume inv: "onceInv P N M {} wl"
  obtain w l where wl: "wl = (w, l)" by fastforce
  let ?cid = "claimOf qkey" and ?w = "w\<lparr>tick := Suc (tick w)\<rparr>"
  let ?v = "kvget (kvs P) (store w) (clock (kvs P) (tick w)) (u ''claim:'' @ ?cid)"
  have next_inv: "onceInv P N M {} (?w, l)" using onceInv_tick [OF assms] inv wl by simp
  have del: "onceInv P N M {} (snd (run (pd_handle P) (kv_delete qkey) (?w, l)))"
    by (rule keepsOnce_D [OF keepsOnce_reads(4) [OF assms] next_inv])
  have eq: "run (pd_handle P) (process_claim M qkey) wl = run (pd_handle P) (case ?v of
       None \<Rightarrow> kv_delete qkey
     | Some (VClaim c) \<Rightarrow>
         if status c \<noteq> u ''pending'' then kv_delete qkey
         else if amount_atomic c < M then finish_claim qkey (failedClaim (u ''below minimum payout'') c)
         else payment qkey c
     | Some (VText _) \<Rightarrow> Throw TypeError
     | Some _ \<Rightarrow> kv_delete qkey) (?w, l)"
    unfolding payment_def by (simp add: process_claim_def run_bindP run_storage [OF payer_okD(1) [OF assms]] wl)
  show "onceInv P N M {} (snd (run (pd_handle P) (process_claim M qkey) wl))"
  proof (cases "\<exists>c. ?v = Some (VClaim c) \<and> status c = u ''pending''")
    case False
    then show ?thesis
      unfolding eq using del next_inv by (auto split: option.splits kvval.splits)
  next
    case True
    then obtain c where c: "?v = Some (VClaim c)" "status c = u ''pending''" by blast
    have old: "oldId P N (tick w) ?cid" using oldId_stored [of P N M "{}" w l] inv wl c(1) by simp
    have "typed anySession (u ''claim:'' @ ?cid) (VClaim c)"
      using inv c(1) unfolding wl onceInv_parts store_ok_def by blast
    then have ok: "claim_ok c" by simp
    have "onceInv P N M {} (snd (run (pd_handle P) (finish_claim qkey (failedClaim e c)) (?w, l)))" for e
      by (rule finish_claim_once [OF assms next_inv _ settled_claims(1) settled_claims(3) [OF ok]]) (simp_all add: oldId_Suc [OF old])
    then show ?thesis
      unfolding eq using c payment_once [OF assms _ c _ ok old] inv wl by simp
  qed
qed

lemma eachP_once: "(\<And>x. keepsOnce P N M (f x)) \<Longrightarrow> keepsOnce P N M (eachP f xs)"
  by (induction xs) (simp_all add: keepsOnce_Ret keepsOnce_bindP)

lemma process_claims_once: "payer_ok P N \<Longrightarrow> keepsOnce P N M (process_claims M)"
  by (simp add: process_claims_def keepsOnce_bindP keepsOnce_reads eachP_once process_claim_once)

lemma put_balance_once:
  assumes "payer_ok P N"
  shows "keepsOnce P N M (kv_put (u ''faucet:balance'') (VFaucet f) ttl)"
  unfolding keepsOnce_def
proof (intro allI impI)
  fix wl assume inv: "onceInv P N M {} wl"
  obtain w l where wl: "wl = (w, l)" by (cases wl)
  let ?w = "w\<lparr>store := kvput (kvs P) (store w) (clock (kvs P) (tick w)) (u ''faucet:balance'') (VFaucet f) ttl, tick := Suc (tick w)\<rparr>"
  note laws = payer_okD(2) [OF assms]
  have ty: "typed anySession (u ''faucet:balance'') (VFaucet f)" by (simp add: typed_def startsWith_def u_simps)
  have st: "store_ok (kvs P) anySession (store w) (clock (kvs P) (tick w))" using inv wl by (simp add: onceInv_parts)
  have differ: "u ''claim:'' @ cid \<noteq> u ''faucet:balance''" for cid by (simp add: u_simps)
  have "onceInv P N M {} (w, l)" using inv wl by simp
  then have "onceInv P N M {} (?w, l)"
  proof (rule onceInv_next [OF assms])
    show "store_ok (kvs P) anySession (store ?w) (clock (kvs P) (tick ?w))"
      using store_ok_later [OF store_ok_put [OF laws st ty] clock_Suc [OF assms]] by simp
    show "kvget (kvs P) (store ?w) t (u ''claim:'' @ cid) = None \<or>
        kvget (kvs P) (store ?w) t (u ''claim:'' @ cid) = kvget (kvs P) (store w) t (u ''claim:'' @ cid)" for t cid
      using kv_get_put(2) [OF laws differ] by simp
  qed simp
  then show "onceInv P N M {} (snd (run (pd_handle P) (kv_put (u ''faucet:balance'') (VFaucet f) ttl) wl))"
    using run_storage [OF payer_okD(1) [OF assms]] wl by simp
qed

lemma daemon_turn_once:
  assumes "payer_ok P N"
  shows "keepsOnce P N M (daemon_turn M t0)"
proof -
  have "keepsOnce P N M update_balance"
    unfolding update_balance_def
    by (rule keepsOnce_bindP [OF keepsOnce_reads(1) [OF assms]])
      (auto simp: keepsOnce_Ret intro!: keepsOnce_bindP keepsOnce_reads assms put_balance_once split: option.splits)
  then show ?thesis
    unfolding daemon_turn_def
    by (intro keepsOnce_bindP keepsOnce_reads assms)
      (simp add: keepsOnce_bindP keepsOnce_catchP keepsOnce_Ret process_claims_once assms)
qed

section \<open>Requests keep the invariant\<close>

text \<open>What grows between two worlds is new: identifiers of the ledger are not among the claims that appear.\<close>

lemma grown_settled:
  assumes "payer_ok P N" "settledIn P {} w l" "freshIn P N w l" "claimsGrow (kvs P) w w'" "tick w' \<le> N"
  shows "settledIn P {} w' l"
  unfolding settledIn_def
proof (intro ballI allI impI)
  fix cid t c
  assume cid: "cid \<in> fst ` set l - {}" and t: "clock (kvs P) (tick w') \<le> t"
    and get: "kvget (kvs P) (store w') t (u ''claim:'' @ cid) = Some (VClaim c)"
  have later: "clock (kvs P) (tick w) \<le> t"
    using t clock_mono [OF payer_okD(3) [OF assms(1)], of "tick w" "tick w'"] assms(4) by (simp add: claimsGrow_def)
  have "\<nexists>m. tick w \<le> m \<and> m < tick w' \<and> cid = drawnId P m"
  proof
    assume "\<exists>m. tick w \<le> m \<and> m < tick w' \<and> cid = drawnId P m"
    then obtain m where "tick w \<le> m" "m < N" "cid = drawnId P m" using assms(5) by auto
    then show False using freshInD(1) [OF assms(3)] cid by blast
  qed
  then have "kvget (kvs P) (store w) t (u ''claim:'' @ cid) = Some (VClaim c)"
    using assms(4) t get unfolding claimsGrow_def drawnId_def by metis
  then show "status c \<noteq> u ''pending''" using settledInD [OF assms(2) _ _ later] cid by blast
qed

lemma grown_fresh:
  assumes "payer_ok P N" "freshIn P N w l" "claimsGrow (kvs P) w w'"
  shows "freshIn P N w' l"
  unfolding freshIn_def
proof (intro allI impI conjI)
  have w: "tick w \<le> tick w'" using assms(3) by (simp add: claimsGrow_def)
  fix n assume n: "tick w' \<le> n" "n < N"
  then show "drawnId P n \<notin> fst ` set l" using freshInD(1) [OF assms(2), of n] w by simp
  fix t assume t: "clock (kvs P) (tick w') \<le> t"
  have later: "clock (kvs P) (tick w) \<le> t" using t clock_mono [OF payer_okD(3) [OF assms(1)] w] by simp
  have "kvget (kvs P) (store w) t (u ''claim:'' @ drawnId P n) = None"
    using n w by (intro freshInD(2) [OF assms(2) _ _ later]) simp_all
  moreover have "\<nexists>m. tick w \<le> m \<and> m < tick w' \<and> drawnId P n = drawnId P m"
  proof
    assume "\<exists>m. tick w \<le> m \<and> m < tick w' \<and> drawnId P n = drawnId P m"
    then obtain m where "m < tick w'" "drawnId P m = drawnId P n" by force
    then show False using payer_okD(6) [OF assms(1) _ n(2), of m] n(1) by simp
  qed
  ultimately show "kvget (kvs P) (store w') t (u ''claim:'' @ drawnId P n) = None"
    using assms(3) t unfolding claimsGrow_def drawnId_def by metis
qed

lemma request_once:
  assumes "payer_ok P N" "onceInv P N M {} (w, l)" "run (wm_handle (kvs P)) (wm_fetch env req) w = (x, w')" "tick w' \<le> N"
  shows "onceInv P N M {} (w', l)"
proof -
  have inv: "store_ok (kvs P) anySession (store w) (clock (kvs P) (tick w))" "settledIn P {} w l" "freshIn P N w l" "ledgerOk M l"
    using assms(2) by (simp_all add: onceInv_parts)
  note laws = payer_okD(2,3) [OF assms(1)]
  have grow: "claimsGrow (kvs P) w w'" by (rule request_grows [OF laws assms(3)])
  have "wm_inv (kvs P) anySession (\<lambda>i. True) (\<lambda>t. True) w" using laws inv(1) by (simp add: wm_inv_def)
  from wm.run_keeps [OF anyp.guards_wm_fetch this assms(3)]
  have "store_ok (kvs P) anySession (store w') (clock (kvs P) (tick w'))" by (simp add: wm_inv_def)
  with grown_settled [OF assms(1) inv(2,3) grow assms(4)] grown_fresh [OF assms(1) inv(3) grow] inv(4)
  show ?thesis by (simp add: onceInv_parts)
qed

section \<open>The faucet\<close>

text \<open>The worker serves a request, or the daemon makes a turn.\<close>

datatype faucet_event = Request request | Turn

fun faucet_step ::
  "'s payer \<Rightarrow> wm_env \<Rightarrow> int \<Rightarrow> faucet_event \<Rightarrow> ('s world \<times> ledger) \<times> rat \<Rightarrow> ('s world \<times> ledger) \<times> rat" where
  "faucet_step P env MIN_PAYOUT (Request req) ((w, l), t0) =
     ((snd (run (wm_handle (kvs P)) (wm_fetch env req) w), l), t0)"
| "faucet_step P env MIN_PAYOUT Turn (wl, t0) =
     (case run (pd_handle P) (daemon_turn MIN_PAYOUT t0) wl of
        (Inl e, wl') \<Rightarrow> (wl', t0)
      | (Inr t, wl') \<Rightarrow> (wl', t))"

primrec faucet_run ::
  "'s payer \<Rightarrow> wm_env \<Rightarrow> int \<Rightarrow> faucet_event list \<Rightarrow> ('s world \<times> ledger) \<times> rat \<Rightarrow> ('s world \<times> ledger) \<times> rat" where
  "faucet_run P env MIN_PAYOUT [] c = c"
| "faucet_run P env MIN_PAYOUT (e # es) c = faucet_run P env MIN_PAYOUT es (faucet_step P env MIN_PAYOUT e c)"

text \<open>The supplies only advance.\<close>

lemma pd_handle_tick: "pd_handle P e wl = (r, v) \<Longrightarrow> tick (fst wl) \<le> tick (fst v)"
  by (cases wl; cases e) auto

lemma run_tick: "run (pd_handle P) p wl = (x, v) \<Longrightarrow> tick (fst wl) \<le> tick (fst v)"
proof (induction p arbitrary: wl)
  case (Eff e k)
  obtain r v1 where r: "pd_handle P e wl = (r, v1)" by (cases "pd_handle P e wl")
  then have "run (pd_handle P) (k r) v1 = (x, v)" using Eff.prems by simp
  from Eff.IH [OF rangeI this] show ?case using pd_handle_tick [OF r] by simp
qed simp_all

lemma faucet_step_tick:
  assumes "payer_ok P N"
  shows "tick (fst (fst c)) \<le> tick (fst (fst (faucet_step P env M e c)))"
proof (cases e)
  case (Request req)
  obtain w l t0 where c: "c = ((w, l), t0)" by (metis prod.collapse)
  obtain x w' where r: "run (wm_handle (kvs P)) (wm_fetch env req) w = (x, w')" by (cases "run (wm_handle (kvs P)) (wm_fetch env req) w")
  then have "tick w \<le> tick w'" using request_grows [OF payer_okD(2,3) [OF assms]] by (simp add: claimsGrow_def)
  then show ?thesis using Request c r by simp
next
  case Turn
  obtain wl t0 where c: "c = (wl, t0)" by (cases c)
  obtain x v where r: "run (pd_handle P) (daemon_turn M t0) wl = (x, v)" by (cases "run (pd_handle P) (daemon_turn M t0) wl")
  then show ?thesis using Turn c run_tick [OF r] by (cases x) simp_all
qed

lemma faucet_run_tick: "payer_ok P N \<Longrightarrow> tick (fst (fst c)) \<le> tick (fst (fst (faucet_run P env M es c)))"
proof (induction es arbitrary: c)
  case (Cons e es)
  show ?case
    using order_trans [OF faucet_step_tick [OF Cons.prems, of c env M e] Cons.IH [OF Cons.prems, of "faucet_step P env M e c"]]
    by simp
qed simp

lemma faucet_step_once:
  assumes "payer_ok P N" "onceInv P N M {} (fst c)" "tick (fst (fst (faucet_step P env M e c))) \<le> N"
  shows "onceInv P N M {} (fst (faucet_step P env M e c))"
proof (cases e)
  case (Request req)
  obtain w l t0 where c: "c = ((w, l), t0)" by (metis prod.collapse)
  obtain x w' where "run (wm_handle (kvs P)) (wm_fetch env req) w = (x, w')" by (cases "run (wm_handle (kvs P)) (wm_fetch env req) w")
  then show ?thesis using request_once [OF assms(1)] assms(2,3) Request c by simp
next
  case Turn
  obtain wl t0 where c: "c = (wl, t0)" by (cases c)
  obtain x v where r: "run (pd_handle P) (daemon_turn M t0) wl = (x, v)" by (cases "run (pd_handle P) (daemon_turn M t0) wl")
  have "onceInv P N M {} v" using keepsOnce_D [OF daemon_turn_once [OF assms(1)], of M wl t0] assms(2) c r by simp
  then show ?thesis using Turn c r by (cases x) simp_all
qed

lemma faucet_run_once:
  assumes "payer_ok P N"
  shows "onceInv P N M {} (fst c) \<Longrightarrow> tick (fst (fst (faucet_run P env M es c))) \<le> N \<Longrightarrow>
    onceInv P N M {} (fst (faucet_run P env M es c))"
proof (induction es arbitrary: c)
  case (Cons e es)
  let ?c = "faucet_step P env M e c"
  have bound: "tick (fst (fst (faucet_run P env M es ?c))) \<le> N" using Cons.prems(2) by (simp only: faucet_run.simps)
  have "tick (fst (fst ?c)) \<le> N" by (rule order_trans [OF faucet_run_tick [OF assms] bound])
  then have "onceInv P N M {} (fst ?c)" by (rule faucet_step_once [OF assms Cons.prems(1)])
  from Cons.IH [OF this bound] show ?case by (simp only: faucet_run.simps)
qed (simp only: faucet_run.simps)

end
