(* ===== verification/Payout_Props.thy ===== *)
theory Payout_Props
  imports Game_Claim Payout_Once Instances
begin

text \<open>
  The properties of the payouts: a claim from the page through the worker and the daemon and back
  to the page, what the wallet is asked for over any history of requests and turns of the daemon,
  and what happens when the storage API fails.
\<close>

declare u_simps [simp del]

section \<open>A namespace that lists its keys\<close>

type_synonym entries = "(ustring \<times> kvval \<times> nat) list"

definition list_get :: "entries \<Rightarrow> nat \<Rightarrow> ustring \<Rightarrow> kvval option" where
  "list_get s t k = (case map_of s k of None \<Rightarrow> None | Some (v, e) \<Rightarrow> if t < e then Some v else None)"

definition list_del :: "entries \<Rightarrow> nat \<Rightarrow> ustring \<Rightarrow> entries" where
  "list_del s t k = filter (\<lambda>x. fst x \<noteq> k) s"

definition list_put :: "entries \<Rightarrow> nat \<Rightarrow> ustring \<Rightarrow> kvval \<Rightarrow> nat \<Rightarrow> entries" where
  "list_put s t k v ttl = (k, v, t + 1000 * ttl) # list_del s t k"

definition list_keys :: "entries \<Rightarrow> nat \<Rightarrow> ustring \<Rightarrow> ustring list" where
  "list_keys s t p = filter (\<lambda>k. startsWith p k \<and> list_get s t k \<noteq> None) (remdups (map fst s))"

definition demo_kvs :: "entries outside" where
  "demo_kvs =
     \<lparr>kvget = list_get, kvput = list_put, clock = (\<lambda>n. n), random = (\<lambda>n. 0),
      entropy = (\<lambda>n len. replicate len (of_nat n)), fault = (\<lambda>n. None),
      siteverify = (\<lambda>sec tok ip. Inr (JObj [(u ''success'', JBool True)])), assets = (\<lambda>req. Inl NetworkError)\<rparr>"

definition demo_result :: transfer_result where
  "demo_result = \<lparr>res_tx_hash = Some (u ''feed''), res_fee = None\<rparr>"

definition demo_payer :: "(nat \<Rightarrow> nat) \<Rightarrow> entries payer" where
  "demo_payer st =
     \<lparr>kvs = demo_kvs, kvdel = list_del, kvkeys = list_keys, statusAt = st,
      balanceAt = (\<lambda>n. BadJson []), transferAt = (\<lambda>n cid x a. RpcResult demo_result),
      timeAt = (\<lambda>n. 0)\<rparr>"

lemma list_get_del: "list_get (list_del s t k) t' k' = (if k' = k then None else list_get s t' k')"
proof -
  have "map_of (filter (\<lambda>x. fst x \<noteq> k) s) k' = (if k' = k then None else map_of s k')" by (induction s) auto
  then show ?thesis by (simp add: list_get_def list_del_def)
qed

lemma list_get_put: "list_get (list_put s t k v ttl) t' k' = (if k' = k then if t' < t + 1000 * ttl then Some v else None else list_get s t' k')"
  using list_get_del [of s t k t' k'] by (simp add: list_get_def list_put_def)

lemma list_get_Some: "list_get s t k = Some v \<Longrightarrow> k \<in> fst ` set s"
proof (rule ccontr)
  assume "list_get s t k = Some v" "k \<notin> fst ` set s"
  moreover from this have "map_of s k = None" by (simp add: map_of_eq_None_iff)
  ultimately show False by (simp add: list_get_def)
qed

lemma demo_kvs_laws: "faultless demo_kvs" "kv_laws demo_kvs" "supply_laws demo_kvs"
  by (auto simp: faultless_def kv_laws_def supply_laws_def demo_kvs_def list_get_put mono_def)

lemma demo_payer_laws: "delete_laws (demo_payer st)" "list_laws (demo_payer st)" "storage_up (demo_payer (\<lambda>n. 200))"
  by (auto simp: delete_laws_def list_laws_def storage_up_def demo_payer_def demo_kvs_def list_get_del list_keys_def
      dest: list_get_Some)


text \<open>A page that has won, and a namespace with the session.\<close>

definition half_won :: session where
  "half_won = demo_won\<lparr>reward := 1 / 2\<rparr>"

definition won_page :: page where
  "won_page =
     (let p = freshPage (\<lambda>k. None) None
      in p\<lparr>doc := (doc p)(EWin := (doc p EWin)\<lparr>el_hidden := False\<rparr>, EClaimAddress := (doc p EClaimAddress)\<lparr>el_value := demo_address\<rparr>,
             EClaimBtn := (doc p EClaimBtn)\<lparr>el_data := [u ''token'' \<mapsto> demo_sid]\<rparr>)\<rparr>)"

definition won_world :: "entries world" where
  "won_world = \<lparr>store = [(u ''session:'' @ demo_sid, VSession half_won, 1800000)], tick = 0\<rparr>"

lemma demo_trim: "trim demo_address = demo_address" "addressPattern demo_address"
proof -
  show t: "trim demo_address = demo_address"
    by (rule trim_idem) (simp_all add: demo_address_def u_simps isJsSpace_def)
  show "addressPattern demo_address" using demo_address_pattern unfolding t .
qed

lemma half_exact: "fl (1 / 2) = 1 / 2"
  using fl_grid [of 1 "- 1"] by simp

lemma won_ready: "readyToClaim demo_kvs demo_sid half_won demo_address won_page won_world"
  unfolding readyToClaim_def
  by (simp add: usable_def containers_def won_page_def Let_def freshPage_def htmlElement_def htmlHidden_def demo_trim
      won_world_def demo_kvs_def list_get_def half_won_def demo_won_def demo_open_def half_exact demo_sid_def u_simps)

text \<open>A namespace with a claim that is due.\<close>

definition due_claim :: claim where
  "due_claim = (pendingClaim demo_address (1 / 2) 0)\<lparr>amount_atomic := 500000000000\<rparr>"

definition due_world :: "entries world" where
  "due_world =
     \<lparr>store = [(u ''claim:c_7'', VClaim due_claim, 1000000), (u ''queue:0:c_7'', VText (u ''c_7''), 1000000)], tick = 0\<rparr>"





section \<open>When the storage fails\<close>

text \<open>The ledger gets the transfer, whatever becomes of the writes after it.\<close>

lemma ledger_transferred:
  assumes "statusAt P (tick w) = 200" "kvget (kvs P) (store w) (clock (kvs P) (tick w)) (u ''claim:'' @ claimOf qkey) = Some (VClaim c)"
    "status c = u ''pending''" "M \<le> amount_atomic c"
    "transferAt P (tick w + 1) (claimOf qkey) (amount_atomic c) (claim_address c) = RpcResult x"
  shows "snd (snd (run (pd_handle P) (process_claim M qkey) (w, l))) = l @ [(claimOf qkey, amount_atomic c, claim_address c)]"
  using assms
  by (simp add: process_claim_def run_bindP kv_get_def kv_put_def kv_delete_def run_transfer wallet_reply_def errTruthy_def
      finish_claim_def Let_def)

text \<open>
  A claim whose read is answered with an error is taken off the queue: it stays pending, no transfer is
  made for it, and the queue does not name it any more.
\<close>

lemma claim_dropped:
  assumes "statusAt P (tick w) \<noteq> 200" "statusAt P (tick w + 1) = 200" "delete_laws P" "qkey \<noteq> u ''claim:'' @ claimOf qkey"
  shows "\<exists>w'. run (pd_handle P) (process_claim M qkey) (w, l) = (Inr (), w', l) \<and>
    (\<forall>t. kvget (kvs P) (store w') t qkey = None \<and>
      kvget (kvs P) (store w') t (u ''claim:'' @ claimOf qkey) = kvget (kvs P) (store w) t (u ''claim:'' @ claimOf qkey))"
  using run_dropped [of P w M qkey l] assms by (auto simp: delete_laws_def)

section \<open>Properties\<close>

text \<open>
  C6. A claim goes through. The player of a game that was won clicks CLAIM with an address of the
  accepted form in the form; the worker stores and queues the claim; the payout daemon, whose queue was
  empty, asks the wallet for exactly one transfer, of the reward in atomic units to that address;
  and the page, when its poll is answered, shows the hash of the transaction.
\<close>

theorem claim_paid_shown:
  assumes "faultless (kvs P)" "kv_laws (kvs P)" "supply_laws (kvs P)" "storage_up P" "delete_laws P" "list_laws P"
    "readyToClaim (kvs P) sid rec addr p w"
    "clock (kvs P) (tick w + 20) < clock (kvs P) (tick w) + 86400000" "clock (kvs P) (tick w + 3) \<le> 2 ^ 53"
    "kvkeys P (store w) (clock (kvs P) (tick w + 7)) (u ''queue:'') = []"
    "M \<le> mathFloor (jsMul (reward rec) (10 ^ 12))"
    "transferAt P (tick w + 9) (claimKey (kvs P) w) (mathFloor (jsMul (reward rec) (10 ^ 12))) addr = RpcResult x"
    "res_tx_hash x = Some h" "\<forall>c \<in> set h. c < 65536" "\<forall>f. res_fee x = Some f \<longrightarrow> \<bar>f\<bar> \<le> 2 ^ 53"
  shows "\<exists>p' w'. claimRound P env hs M p w l =
      (p', w', l @ [(claimKey (kvs P) w, mathFloor (jsMul (reward rec) (10 ^ 12)), addr)]) \<and>
    el_content (doc p' EClaimStatus) = paidText h"
  using page_paid [OF assms(1-10) _ _ assms(13-15)] assms(11,12) by (simp add: pendingClaim_def)

theorem claim_paid_shown_witness:
  "\<exists>p' w'. claimRound (demo_payer (\<lambda>n. 200)) demo_env [] 1 won_page won_world [] =
      (p', w', [] @ [(claimKey (kvs (demo_payer (\<lambda>n. 200))) won_world, mathFloor (jsMul (reward half_won) (10 ^ 12)), demo_address)]) \<and>
    el_content (doc p' EClaimStatus) = paidText (u ''feed'')"
proof (rule claim_paid_shown [where x = demo_result])
  have k: "kvs (demo_payer (\<lambda>n. 200)) = demo_kvs" by (simp add: demo_payer_def)
  show "faultless (kvs (demo_payer (\<lambda>n. 200)))" "kv_laws (kvs (demo_payer (\<lambda>n. 200)))" "supply_laws (kvs (demo_payer (\<lambda>n. 200)))"
    "readyToClaim (kvs (demo_payer (\<lambda>n. 200))) demo_sid half_won demo_address won_page won_world"
    using demo_kvs_laws won_ready by (simp_all add: k)
  have "jsMul (1 / 2) (10 ^ 12) = of_int 500000000000" using fl_of_int [of 500000000000] by (simp add: jsMul_def)
  then show "1 \<le> mathFloor (jsMul (reward half_won) (10 ^ 12))" by (simp add: mathFloor_def half_won_def)
qed (simp_all add: demo_payer_laws, simp_all add: demo_payer_def demo_result_def demo_kvs_def won_world_def list_keys_def demo_sid_def startsWith_def u_simps)



text \<open>
  C20. A claim is paid twice when the storage fails at the wrong moment. If the two writes after a
  successful transfer are answered with an error, the claim is still pending and still in the
  queue, and the next look at the queue asks the wallet for the same transfer again.
\<close>

theorem paid_twice:
  assumes "statusAt P (tick w) = 200" "statusAt P (tick w + 1) = 200" "statusAt P (tick w + 3) \<noteq> 200" "statusAt P (tick w + 4) \<noteq> 200"
    "statusAt P (tick w + 5) = 200" "statusAt P (tick w + 6) = 200"
    "\<forall>n \<in> {tick w, tick w + 5}. kvkeys P (store w) (clock (kvs P) n) (u ''queue:'') = [qkey]"
    "\<forall>n \<in> {tick w + 1, tick w + 6}. kvget (kvs P) (store w) (clock (kvs P) n) (u ''claim:'' @ claimOf qkey) = Some (VClaim c)"
    "status c = u ''pending''" "M \<le> amount_atomic c"
    "\<forall>n \<in> {tick w + 2, tick w + 7}. \<exists>x. transferAt P n (claimOf qkey) (amount_atomic c) (claim_address c) = RpcResult x"
  shows "snd (snd (run (pd_handle P) (bindP (process_claims M) (\<lambda>_. process_claims M)) (w, l))) =
    l @ [(claimOf qkey, amount_atomic c, claim_address c), (claimOf qkey, amount_atomic c, claim_address c)]"
proof -
  let ?e = "(claimOf qkey, amount_atomic c, claim_address c)"
  have look: "run (pd_handle P) (process_claims M) (v, l') =
      run (pd_handle P) (bindP (process_claim M qkey) (\<lambda>_. Ret ())) (v\<lparr>tick := Suc (tick v)\<rparr>, l')"
    if "statusAt P (tick v) = 200" "kvkeys P (store v) (clock (kvs P) (tick v)) (u ''queue:'') = [qkey]" for v l'
    using that by (simp add: process_claims_def kv_list_def)
  obtain x where x: "transferAt P (tick w + 2) (claimOf qkey) (amount_atomic c) (claim_address c) = RpcResult x" using assms(11) by blast
  obtain y where y: "transferAt P (tick w + 7) (claimOf qkey) (amount_atomic c) (claim_address c) = RpcResult y" using assms(11) by blast
  have "run (pd_handle P) (process_claim M qkey) (w\<lparr>tick := Suc (tick w)\<rparr>, l) = (Inr (), w\<lparr>tick := tick w + 5\<rparr>, l @ [?e])"
    using run_unwritten [of P "w\<lparr>tick := Suc (tick w)\<rparr>" qkey c M x l] assms x by (simp add: tick_sums)
  then have first: "run (pd_handle P) (process_claims M) (w, l) = (Inr (), w\<lparr>tick := tick w + 5\<rparr>, l @ [?e])"
    using look [of w l] assms(1,7) by (simp add: run_bindP)
  have "snd (snd (run (pd_handle P) (process_claim M qkey) (w\<lparr>tick := tick w + 6\<rparr>, l @ [?e]))) = (l @ [?e]) @ [?e]"
    using ledger_transferred [of P "w\<lparr>tick := tick w + 6\<rparr>" qkey c M y "l @ [?e]"] assms y by (simp add: add.commute [of "tick w"])
  then have "snd (snd (run (pd_handle P) (process_claims M) (w\<lparr>tick := tick w + 5\<rparr>, l @ [?e]))) = (l @ [?e]) @ [?e]"
    using look [of "w\<lparr>tick := tick w + 5\<rparr>" "l @ [?e]"] assms(5,7)
    by (simp add: run_bindP add.commute [of "tick w"] split: prod.splits sum.splits)
  then show ?thesis using first by (simp add: run_bindP)
qed

theorem paid_twice_witness:
  "snd (snd (run (pd_handle (demo_payer (\<lambda>n. if n = 3 \<or> n = 4 then 500 else 200)))
      (bindP (process_claims 1) (\<lambda>_. process_claims 1)) (due_world, []))) =
    [] @ [(claimOf (u ''queue:0:c_7''), amount_atomic due_claim, claim_address due_claim),
      (claimOf (u ''queue:0:c_7''), amount_atomic due_claim, claim_address due_claim)]"
proof -
  have c: "claimOf (u ''queue:0:c_7'') = u ''c_7''" by (simp add: claimOf_def u_simps)
  show ?thesis
    unfolding c
    by (rule paid_twice [of _ _ "u ''queue:0:c_7''" due_claim, unfolded c])
      (simp_all add: demo_payer_def demo_kvs_def list_keys_def list_get_def due_world_def startsWith_def due_claim_def pendingClaim_def u_simps)
qed

end
