(* ===== verification/Spec2Isabelle.thy ===== *)
theory Spec2Isabelle
  imports Wordmine_Props Edge_Props Game_Props Payout_Props
begin

text \<open>
  Glaciem: the browser wallet, the Wordmine faucet with its page and its payout daemon, and the
  edge workers in front of the nodes and of the mining pool.

  \<^bold>\<open>The program.\<close> Wordmine is a word game that pays coins. A player opens the page
  (\<^verbatim>\<open>wordmine/public/game.js\<close>), which may generate a wallet for them
  (\<^verbatim>\<open>wordmine/public/lib/wallet.js\<close>, \<^verbatim>\<open>wordlist-en.js\<close>); the page plays the game against a worker
  (\<^verbatim>\<open>wordmine/src/worker.js\<close>, \<^verbatim>\<open>words.js\<close>), which draws the word, grades the guesses, enforces a
  cooldown and queues the claims of winners in a key-value namespace; a daemon
  (\<^verbatim>\<open>wordmine/payout/payout_daemon.py\<close>) reads the queue, pays with the faucet's wallet and writes the
  outcome back, where the page's polls find it. Apart from the game, one edge worker caches and
  relays calls to the nodes (\<^verbatim>\<open>cloudflare/glaciem-rpc-worker.js\<close>), another the pages of the mining pool
  (\<^verbatim>\<open>pool/cloudflare/pool-worker.js\<close>). The addresses and seeds made in the browser are read by the
  C++ wallet (\<^verbatim>\<open>src/common/base58.cpp\<close>, \<^verbatim>\<open>src/mnemonics\<close>, \<^verbatim>\<open>src/cryptonote_basic/account.cpp\<close>).

  \<^bold>\<open>The language.\<close> \<open>Prelude\<close> has the shared types: a JavaScript string is a list of UTF-16 units
  (\<open>ustring\<close>, a literal is \<open>u\<close> of a text), bytes are 8-bit words, an exception is a value of \<open>js_error\<close>.
  \<open>Js_String\<close>, \<open>Js_Number\<close>, \<open>Js_Format\<close>, \<open>Js_Decimal\<close>, \<open>Js_Date\<close>, \<open>Utf8\<close>, \<open>Json\<close>, \<open>Json_Parse\<close>,
  \<open>Json_Text\<close> and \<open>Http\<close> model what the sources use of the standard library: a double is a rational
  number with the rounding \<open>fl\<close> to nearest, ties to even, or an infinity or NaN; numbers are printed with
  the shortest digits that read back; JSON texts are written and parsed. \<open>Json_Text\<close> proves that a JSON value sent
  from one part of the system to another arrives unchanged (\<open>readJson_sendJson\<close>), on which the properties
  that span page and worker rest. Two searches have fuel: the shortest digits are sought up
  to 1100 places, which suffices for every double (\<open>shortestDigits_double\<close>), and a JSON text is parsed with its
  length plus one, which more fuel does not change (\<open>jsonParse_enough\<close>).

  \<^bold>\<open>Wallet.\<close> \<open>Wallet_Bytes\<close>, \<open>Base58\<close>, \<open>Wordlist_En\<close>, \<open>Mnemonic\<close> and \<open>Wallet\<close> follow \<^verbatim>\<open>wallet.js\<close> function by
  function; \<open>Electrum_Words\<close> and \<open>Cli_Wallet\<close> the C++ decoders, with 32- and 64-bit words where the source has
  them. Keccak-256 and the multiplication of the curve are parameters. Shown: seeds, addresses and
  hexadecimal texts round-trip, the two base58 encoders and the two CRCs agree, the browser's seeds restore
  the same account on the command line, and which seeds only the browser accepts.

  \<^bold>\<open>Programs over services.\<close> \<open>Effects\<close> has a free monad: code that awaits services is a tree whose nodes are the
  calls. \<open>run\<close> executes it with a handler for the services, and \<open>istep\<close> interleaves several requests call by call. The
  locales \<open>rely_guarantee\<close> (\<open>Effects\<close>) and \<open>service\<close> (\<open>Service\<close>) prove once that an invariant holds over every
  interleaving, and \<open>Effect_Count\<close> that a bound on the number of calls ends it; the components interpret and use them.

  \<^bold>\<open>Worker.\<close> \<open>Wordmine_Worker\<close> has one program per handler of \<^verbatim>\<open>worker.js\<close>, in its order. The record \<open>outside\<close> holds
  the services: namespace, clock, random sources, failures, captcha, assets; \<open>kv_laws\<close> and \<open>supply_laws\<close>
  say what is relied on. \<open>Wordmine_Store\<close>, \<open>Wordmine_Game\<close>, \<open>Wordmine_Race\<close>, \<open>Wordmine_Bounds\<close>,
  \<open>Wordmine_Claim\<close>, \<open>Wordmine_Start\<close> and \<open>Wordmine_Grade\<close> prove the lemmas, \<open>Wordmine_Props\<close> the properties:
  the store stays well formed, one claim and six guesses per session as long as requests do not overlap and what
  happens when they do, the cooldown, the grading, the bounds of the payout, the secrecy of the word.

  \<^bold>\<open>Edge workers.\<close> \<open>Edge\<close> has their services, \<open>Pool_Worker\<close>, \<open>Rpc_Stats\<close> and \<open>Rpc_Worker\<close> the code, with the
  work left for after the response; \<open>Rpc_Cache\<close>, \<open>Rpc_Failover\<close> and \<open>Edge_Props\<close> show that every answer is one a
  node gave to a request with the same key, the order of the nodes, the refused paths, and that counting is contained.

  \<^bold>\<open>Page.\<close> \<open>Game_Dom\<close> has the state of the page as a record (the variables of the script, the elements it touches,
  storage, timers, calls under way) and the actions on it; \<open>Game_Page\<close> one definition per function of \<^verbatim>\<open>game.js\<close>,
  an asynchronous function cut at its \<open>await\<close>; \<open>Game_Events\<close> the document of \<^verbatim>\<open>index.html\<close>, the bootstrap and the
  steps: a click, a key, a timer that fires, an answer. Time is not modelled: a timer may fire at any moment and answers come in any
  order, so what is shown holds for every timing. \<open>Game_Inv\<close> has the locales \<open>page_rules\<close>, \<open>page_handlers\<close> and \<open>page_invariant\<close>:
  a property kept by the primitive actions is kept by every event. \<open>Game_Play\<close> interprets them for well-formed
  pages and for the colours of the keyboard, \<open>Game_Seed\<close> has the relation between pages that differ in the seed only, and
  \<open>Game_Cooldown\<close> the countdown.

  \<^bold>\<open>Page and worker.\<close> \<open>Game_Worker\<close> turns a call of the page into the request the worker sees and its response into the
  answer the page gets, as texts. \<open>Game_Round\<close> and \<open>Game_Start\<close> relate page, session and the rules of the game
  over whole games (\<open>playing\<close>); \<open>Game_Claim\<close> follows a claim through page, worker and daemon; \<open>Game_Props\<close> has the properties.

  \<^bold>\<open>Payouts.\<close> \<open>Payout_Daemon\<close> follows \<^verbatim>\<open>payout_daemon.py\<close>; the record \<open>payer\<close> adds deletion, the list of keys, the
  status of the storage API and the wallet to the services. \<open>Payout_Once\<close> proves the invariant that
  each claim is given to the wallet at most once, over histories of requests and turns; its horizon \<open>N\<close> bounds the history, because sixteen
  random bytes cannot stay distinct for ever. \<open>Payout_Props\<close> has the properties, also of what a failing storage causes.
  \<open>Instances\<close> has the concrete services at which the witnesses evaluate the hypotheses.

  \<^bold>\<open>Not modelled.\<close> \<^verbatim>\<open>wallet.bundle.js\<close> is generated from \<^verbatim>\<open>wallet.js\<close> and the libraries of a third party. Of the page: layout and
  styles, the drawing of the captcha, the durations of timers. Of the daemon: opening the wallet, the
  test of the environment variables, the addresses and headers of its requests, what it prints; \<^verbatim>\<open>faucet_split.py\<close> only
  sequences calls to the wallet. Of the C++ code: all but the routines above, and of these the search over the languages of a seed. The pool server, the nodes, the explorer and the
  static web site appear as parameters or not at all. The key-value namespace is taken to be consistent: a write is seen by the
  next read.
\<close>

section \<open>The browser wallet\<close>

text \<open>
  C1. A wallet generated from random bytes whose two secrets are not zero modulo the group order
  exists, its address has the form the faucet accepts, and restoring from its own 25 words gives
  the same wallet back, field by field.
\<close>

theorem generate_then_restore:
  assumes "keccak_length kec" "multiply_range multiply" "length r = 32" "bytesToBigIntLE r mod L \<noteq> 0"
    "\<forall>s. scReduce32 r = Inr s \<longrightarrow> bytesToBigIntLE (kec s) mod L \<noteq> 0"
  shows "\<exists>w. generateWallet kec multiply r = Inr w \<and> addressPattern (address w) \<and>
    restoreFromMnemonic kec multiply (mnemonic w) = Inr w"
  by (rule generateWallet_ok [OF assms]) (auto dest: restore_walletFromSpendSecret)

theorem generate_then_restore_witness:
  "\<exists>w. generateWallet demo_keccak demo_multiply demo_bytes = Inr w \<and> addressPattern (address w) \<and>
    restoreFromMnemonic demo_keccak demo_multiply (mnemonic w) = Inr w"
  using demo_mod
  by (intro generate_then_restore demo_libraries) (simp_all add: demo_value(2) demo_keccak_def)

text \<open>
  C2. The command-line wallet restores, from the seed of any wallet generated in the browser, the
  same spend and view keys and the same address text, provided its primitives agree with the
  browser's libraries.
\<close>

theorem cli_restores_browser_seed:
  assumes "generateWallet kec multiply r = Inr w" "cli_primitives multiply red base" "is_crc32 crc32"
  shows "\<exists>k. words_to_secret_key crc32 WORDS_EN PREFIX_LEN_EN (mnemonic w) = Some k \<and>
    get_account_address_as_str kec (account_generate kec red base k) = Some (address w) \<and>
    bytesToHex (spend_secret_key (account_generate kec red base k)) = spendKeyHex w \<and>
    bytesToHex (view_secret_key (account_generate kec red base k)) = viewKeyHex w"
  by (rule generateWallet_secret [OF assms(1)]) (rule cli_restores_wallet [OF assms(2,3)])

theorem cli_restores_browser_seed_witness:
  "\<exists>w k. generateWallet demo_keccak demo_multiply demo_bytes = Inr w \<and>
    words_to_secret_key crc_bytes WORDS_EN PREFIX_LEN_EN (mnemonic w) = Some k \<and>
    get_account_address_as_str demo_keccak
      (account_generate demo_keccak demo_reduce (\<lambda>b. demo_bytes) k) = Some (address w)"
  using demo_wallet cli_restores_browser_seed [OF _ demo_cli] by blast



text \<open>
  C35. Any 32 bytes are encoded as 25 words of the English list, and decoding those words gives
  the bytes back.
\<close>

theorem mnemonic_roundtrip:
  assumes "length b = 32"
  shows "\<exists>m. bytesToMnemonic b WORDS_EN PREFIX_LEN_EN = Inr m \<and> length m = 25 \<and>
    set m \<subseteq> set WORDS_EN \<and> mnemonicToBytes m WORDS_EN PREFIX_LEN_EN = Inr b"
  using assms by (intro mnemonicToBytes_bytesToMnemonic distinct_WORDS_EN) simp_all

theorem mnemonic_roundtrip_witness:
  "\<exists>m. bytesToMnemonic demo_bytes WORDS_EN PREFIX_LEN_EN = Inr m \<and> length m = 25 \<and>
    set m \<subseteq> set WORDS_EN \<and> mnemonicToBytes m WORDS_EN PREFIX_LEN_EN = Inr demo_bytes"
  by (rule mnemonic_roundtrip) (rule demo_value)

text \<open>
  C36. The daemon decodes an address built in the browser to its prefix and its two public keys.
\<close>

theorem daemon_decodes_address:
  assumes "0 \<le> prefix" "prefix < 2 ^ 32" "keccak_length kec"
  shows "decode_addr kec (buildAddress kec prefix ps pv) = Some (word_of_int prefix, ps @ pv)"
  using assms by (intro decode_addr_buildAddress) (simp_all add: keccak_length_def)

theorem daemon_decodes_address_witness:
  "decode_addr demo_keccak (buildAddress demo_keccak PREFIX_STANDARD demo_bytes demo_bytes)
    = Some (144, demo_bytes @ demo_bytes)"
  using daemon_decodes_address [OF _ _ demo_libraries(1), of PREFIX_STANDARD demo_bytes demo_bytes]
  by (simp add: PREFIX_STANDARD_def)

text \<open>
  C37. The base58 encoder of the daemon never writes outside its buffer and gives, on every byte
  string, the text of the browser's encoder; the daemon's decoder gives the bytes back.
\<close>

theorem base58_encoders_agree:
  "base58_encode data = Some (b58Encode data) \<and> base58_decode (b58Encode data) = Some data"
  by (simp add: base58_encode_eq base58_decode_b58Encode)


text \<open>
  C39. Reduction modulo the group order: 32 bytes in, 32 bytes out, standing for the residue, and
  reducing again changes nothing.
\<close>

theorem scReduce32_correct:
  assumes "length b = 32"
  shows "\<exists>s. scReduce32 b = Inr s \<and> length s = 32 \<and> bytesToBigIntLE s = bytesToBigIntLE b mod L \<and>
    scReduce32 s = Inr s"
  using scReduce32_ok [OF assms] scReduce32_value scReduce32_idem by blast

theorem scReduce32_correct_witness:
  "\<exists>s. scReduce32 demo_bytes = Inr s \<and> bytesToBigIntLE s = 1 \<and> scReduce32 s = Inr s"
  using scReduce32_correct [OF demo_value(2)] demo_mod by auto

text \<open>C40. Hexadecimal text of bytes is read back to the bytes.\<close>

theorem hex_roundtrip: "hexToBytes (bytesToHex b) = Inr b"
  by (rule hexToBytes_bytesToHex)

end
